theory Spec2Isabelle
  imports Main
begin

section \<open>Cisco 8945 configuration generator: the form model and the serializer\<close>

text \<open>
  A shallow embedding of \<^verbatim>\<open>Cisco8945-generator.c\<close>. The global array
  \<^verbatim>\<open>fields[MAX_FIELDS]\<close> with its counter \<^verbatim>\<open>total_fields\<close> is the list of its first
  \<^verbatim>\<open>total_fields\<close> entries; a C string is the list of its characters before the
  terminating NUL. The curses calls (drawing, colours, windows) have no effect on the
  registry and are left out; what the operator types arrives as an argument.
\<close>

subsection \<open>Data\<close>

datatype FieldType = FT_MANDATORY | FT_OPTIONAL | FT_HEADER

text \<open>
  \<^verbatim>\<open>struct Field\<close>. The arrays \<^verbatim>\<open>options\<close> and \<^verbatim>\<open>xml_values\<close> (\<^verbatim>\<open>char [100][64]\<close>, in
  zero-initialised static storage) are the lists of their first \<^verbatim>\<open>opt_count\<close> rows; the
  remaining rows are empty strings, see \<open>row\<close> below. \<^verbatim>\<open>hidden\<close> only ever holds 0 or 1.
\<close>

record field =
  label :: string
  "value" :: string
  xml :: string
  "help" :: string
  ftype :: FieldType
  options :: "string list"
  xml_values :: "string list"
  opt_count :: int
  opt_sel :: int
  hidden :: bool

text \<open>
  Accesses that C leaves undefined: an index outside \<^verbatim>\<open>fields[0..MAX_FIELDS)\<close> or outside
  a \<^verbatim>\<open>[100][64]\<close> option table, and a write past the end of a character buffer.
\<close>

datatype error = OutOfBounds | BufferOverflow

definition MAX_FIELDS :: nat where
  "MAX_FIELDS = 500"

subsection \<open>The parts of the C library the program uses\<close>

definition isxdigit :: "char \<Rightarrow> bool" where
  "isxdigit c = (c \<in> set ''0123456789abcdefABCDEF'')"

definition toupper :: "char \<Rightarrow> char" where
  "toupper c =
     (case map_of (zip ''abcdefghijklmnopqrstuvwxyz'' ''ABCDEFGHIJKLMNOPQRSTUVWXYZ'') c of
        Some u \<Rightarrow> u
      | None \<Rightarrow> c)"

text \<open>\<^verbatim>\<open>strncpy(dst, src, n)\<close> into a zeroed buffer longer than \<open>n\<close>.\<close>

definition strncpy :: "string \<Rightarrow> nat \<Rightarrow> string" where
  "strncpy src n = take n src"

fun starts_with :: "string \<Rightarrow> string \<Rightarrow> bool" where
  "starts_with s [] = True"
| "starts_with [] (c # cs) = False"
| "starts_with (d # ds) (c # cs) = (d = c \<and> starts_with ds cs)"

text \<open>\<^verbatim>\<open>strstr(hay, needle) != NULL\<close>.\<close>

fun strstr :: "string \<Rightarrow> string \<Rightarrow> bool" where
  "strstr [] needle = (needle = [])"
| "strstr (h # hs) needle = (starts_with (h # hs) needle \<or> strstr hs needle)"

subsection \<open>\<^verbatim>\<open>sanitize_mac\<close>\<close>

text \<open>
  The loop \<^verbatim>\<open>for (i = 0; src[i]; i++) if (isxdigit(src[i])) clean[j++] = toupper(src[i])\<close>:
  the second argument is \<^verbatim>\<open>clean[0..j)\<close>.
\<close>

fun sanitize_loop :: "string \<Rightarrow> string \<Rightarrow> string" where
  "sanitize_loop [] clean = clean"
| "sanitize_loop (c # cs) clean =
     (if isxdigit c then sanitize_loop cs (clean @ [toupper c])
      else sanitize_loop cs clean)"

text \<open>
  \<^verbatim>\<open>clean\<close> has 128 bytes: a 129th hexadecimal digit is written past its end. Otherwise
  \<^verbatim>\<open>clean[12] = '\0'\<close> cuts the string and \<^verbatim>\<open>strcpy\<close> copies it back over \<^verbatim>\<open>src\<close>.
\<close>

definition sanitize_mac :: "string \<Rightarrow> error + string" where
  "sanitize_mac src =
     (let clean = sanitize_loop src []
      in if 128 < length clean then Inl BufferOverflow else Inr (take 12 clean))"

subsection \<open>Reading the registry\<close>

text \<open>
  An entry of \<^verbatim>\<open>fields[]\<close> that \<^verbatim>\<open>add_field\<close> has not reached yet is all zero bytes.
\<close>

definition zero_field :: field where
  "zero_field =
     \<lparr>label = [], value = [], xml = [], help = [], ftype = FT_MANDATORY, options = [],
      xml_values = [], opt_count = 0, opt_sel = 0, hidden = False\<rparr>"

text \<open>
  \<^verbatim>\<open>fields[k]\<close> as a read. For \<open>k\<close> from \<^verbatim>\<open>total_fields\<close> up to \<^verbatim>\<open>MAX_FIELDS\<close> this is the
  zeroed entry (nothing reads the \<^verbatim>\<open>hidden\<close> flag of such an entry). An index outside the
  array is outside C's defined behaviour and outside this model; the registry that
  \<^verbatim>\<open>init_fields\<close> builds never produces one.
\<close>

definition fld :: "field list \<Rightarrow> int \<Rightarrow> field" where
  "fld fs k = (if 0 \<le> k \<and> nat k < length fs then fs ! nat k else zero_field)"

text \<open>
  \<^verbatim>\<open>tab[k]\<close> for one of the two option tables of a field: the rows beyond the initialised
  ones are empty strings. The table has 100 rows; \<open>sel_ok\<close> below keeps every index the
  program uses inside it.
\<close>

definition row :: "string list \<Rightarrow> int \<Rightarrow> string" where
  "row tab k = (if 0 \<le> k \<and> nat k < length tab then tab ! nat k else [])"

definition get_field :: "field list \<Rightarrow> string \<Rightarrow> field option" where
  "get_field fs xml_tag = find (\<lambda>f. xml f = xml_tag) fs"

definition val :: "field list \<Rightarrow> string \<Rightarrow> string" where
  "val fs tag = (case get_field fs tag of Some f \<Rightarrow> value f | None \<Rightarrow> [])"

definition opt_val :: "field list \<Rightarrow> string \<Rightarrow> string" where
  "opt_val fs tag =
     (case get_field fs tag of
        Some f \<Rightarrow> row (xml_values f) (opt_sel f)
      | None \<Rightarrow> [])"

subsection \<open>\<^verbatim>\<open>update_visibility\<close>\<close>

text \<open>
  \<^verbatim>\<open>fields[k].hidden = h\<close>. A write to an entry past \<^verbatim>\<open>total_fields\<close> changes nothing that
  is read later.
\<close>

definition set_hidden :: "int \<Rightarrow> bool \<Rightarrow> field list \<Rightarrow> field list" where
  "set_hidden k h fs =
     (if 0 \<le> k \<and> nat k < length fs
      then fs[nat k := (fs ! nat k)\<lparr>hidden := h\<rparr>]
      else fs)"

text \<open>The body of the loop, for one \<open>i\<close>: the four rules in the order of the source.\<close>

definition vis_key :: "int \<Rightarrow> field list \<Rightarrow> field list" where
  "vis_key i fs =
     (if strstr (label (fld fs i)) ''Key Function'' then
        (let type = opt_sel (fld fs i)
         in (set_hidden (i + 8) (type \<noteq> 1) \<circ> set_hidden (i + 7) (type \<noteq> 1) \<circ>
             set_hidden (i + 6) (type \<noteq> 1) \<circ> set_hidden (i + 5) (type \<noteq> 1) \<circ>
             set_hidden (i + 4) (type \<noteq> 1) \<circ> set_hidden (i + 3) (type \<noteq> 1) \<circ>
             set_hidden (i + 2) (type = 0) \<circ> set_hidden (i + 1) (type = 0)) fs)
      else fs)"

definition vis_snmp :: "int \<Rightarrow> field list \<Rightarrow> field list" where
  "vis_snmp i fs =
     (if xml (fld fs i) = ''snmpCommunity''
      then set_hidden i (opt_sel (fld fs (i - 1)) = 0) fs
      else fs)"

definition vis_nat :: "int \<Rightarrow> field list \<Rightarrow> field list" where
  "vis_nat i fs =
     (if xml (fld fs i) = ''natAddress''
      then set_hidden i (opt_sel (fld fs (i - 1)) = 0) fs
      else fs)"

definition vis_pcvlan :: "int \<Rightarrow> field list \<Rightarrow> field list" where
  "vis_pcvlan i fs =
     (if xml (fld fs i) = ''pcPortVlanId''
      then set_hidden i (opt_sel (fld fs (i - 1)) \<noteq> 2) fs
      else fs)"

definition vis_step :: "nat \<Rightarrow> field list \<Rightarrow> field list" where
  "vis_step i fs =
     vis_pcvlan (int i) (vis_nat (int i) (vis_snmp (int i) (vis_key (int i) fs)))"

definition update_visibility :: "field list \<Rightarrow> field list" where
  "update_visibility fs = fold vis_step [0..<length fs] fs"

subsection \<open>\<^verbatim>\<open>add_field\<close> and \<^verbatim>\<open>add_dropdown\<close>\<close>

text \<open>
  \<^verbatim>\<open>add_field\<close> fills the next entry; the members it does not assign (\<^verbatim>\<open>options\<close>,
  \<^verbatim>\<open>xml_values\<close>, \<^verbatim>\<open>opt_sel\<close>) keep their zero bytes. A \<^verbatim>\<open>NULL\<close> tag is \<open>None\<close>.
\<close>

definition add_field ::
  "string \<Rightarrow> string option \<Rightarrow> FieldType \<Rightarrow> string \<Rightarrow> bool \<Rightarrow> field list \<Rightarrow> field list" where
  "add_field lbl x t hlp hide fs =
     fs @
     [zero_field\<lparr>label := strncpy lbl 63,
        xml := strncpy (case x of Some s \<Rightarrow> s | None \<Rightarrow> []) 63,
        value := [],
        help := strncpy hlp 511,
        ftype := t,
        opt_count := 0,
        hidden := hide\<rparr>]"

text \<open>
  The loop \<^verbatim>\<open>for (i = 0; i < count; i++) strncpy(f->tab[i], src[i], 63)\<close> of
  \<^verbatim>\<open>add_dropdown\<close>, as the rows it fills.
\<close>

definition copy_rows :: "string list \<Rightarrow> int \<Rightarrow> string list" where
  "copy_rows src count = map (\<lambda>i. strncpy (row src (int i)) 63) [0..<nat count]"

text \<open>
  \<^verbatim>\<open>add_dropdown\<close> then fills the entry just added (\<^verbatim>\<open>fields[total_fields - 1]\<close>): the
  first \<open>count\<close> rows of both tables, each cut to 63 characters, and the label of the
  default option, uncut, as the value.
\<close>

definition add_dropdown ::
  "string \<Rightarrow> string option \<Rightarrow> string \<Rightarrow> string list \<Rightarrow> string list \<Rightarrow> int \<Rightarrow> int \<Rightarrow> bool \<Rightarrow>
   field list \<Rightarrow> field list" where
  "add_dropdown lbl x hlp opts vals count def hide fs =
     (let fs1 = add_field lbl x FT_OPTIONAL hlp hide fs;
          f = last fs1
      in butlast fs1 @
         [f\<lparr>opt_count := count,
            opt_sel := def,
            options := copy_rows opts count,
            xml_values := copy_rows vals count,
            value := row opts def\<rparr>])"

text \<open>\<^verbatim>\<open>printf\<close>'s \<^verbatim>\<open>%d\<close>.\<close>

function dec :: "nat \<Rightarrow> string" where
  "dec n = (if n < 10 then [''0123456789'' ! n] else dec (n div 10) @ [''0123456789'' ! (n mod 10)])"
  by pat_completeness auto
termination
  by (relation "measure id") auto

definition printf_d :: "int \<Rightarrow> string" where
  "printf_d k = (if k < 0 then CHR ''-'' # dec (nat (- k)) else dec (nat k))"

text \<open>A sequence of calls, each changing the registry.\<close>

definition run :: "('s \<Rightarrow> 's) list \<Rightarrow> 's \<Rightarrow> 's" where
  "run calls s = foldl (\<lambda>s c. c s) s calls"

text \<open>\<^verbatim>\<open>sprintf(b, "=== BUTTON %d ===", i)\<close>.\<close>

definition sprintf_button :: "int \<Rightarrow> string" where
  "sprintf_button i = ''=== BUTTON '' @ printf_d i @ '' ===''"

subsection \<open>The option tables of \<^verbatim>\<open>init_fields\<close>\<close>

definition dis_en :: "string list" where
  "dis_en =
     [''Disabled'', ''Enabled'']"

definition dis_en_val :: "string list" where
  "dis_en_val =
     [''0'', ''1'']"

definition no_yes :: "string list" where
  "no_yes =
     [''No'', ''Yes'']"

definition no_yes_val :: "string list" where
  "no_yes_val =
     [''false'', ''true'']"

definition transports :: "string list" where
  "transports =
     [''UDP'', ''TCP'', ''TLS'']"

definition trans_vals :: "string list" where
  "trans_vals =
     [''1'', ''2'', ''3'']"

definition codecs :: "string list" where
  "codecs =
     [''G.711u (Standard US)'', ''G.711a (Standard EU)'', ''G.722 (HD Audio)'',
      ''G.729 (Compressed)'']"

definition codec_vals :: "string list" where
  "codec_vals =
     [''PCMU'', ''PCMA'', ''G722'', ''G729'']"

definition date_fmts :: "string list" where
  "date_fmts =
     [''M/D/Y'', ''D/M/Y'', ''Y/M/D'']"

definition date_vals :: "string list" where
  "date_vals =
     [''M/D/Y'', ''D/M/Y'', ''Y/M/D'']"

definition time_fmts :: "string list" where
  "time_fmts =
     [''12 Hour'', ''24 Hour'']"

definition time_vals :: "string list" where
  "time_vals =
     [''12'', ''24'']"

definition bitrates :: "string list" where
  "bitrates =
     [''384k'', ''768k'', ''1.5M'', ''2.5M'', ''4M'']"

definition bit_vals :: "string list" where
  "bit_vals =
     [''384'', ''768'', ''1500'', ''2500'', ''4000'']"

definition tz_names :: "string list" where
  "tz_names =
     [''Dateline Standard Time (GMT-12)'', ''Samoa Standard Time (GMT-11)'',
      ''Hawaiian Standard Time (GMT-10)'', ''Alaskan Standard Time (GMT-9)'',
      ''Pacific Standard/Daylight Time (GMT-8)'',
      ''Mountain Standard/Daylight Time (GMT-7)'', ''US Mountain Standard Time (GMT-7)'',
      ''Central Standard/Daylight Time (GMT-6)'',
      ''Mexico Standard/Daylight Time (GMT-6)'', ''Canada Central Standard Time (GMT-6)'',
      ''SA Pacific Standard Time (GMT-5)'', ''Eastern Standard/Daylight Time (GMT-5)'',
      ''US Eastern Standard Time (GMT-5)'', ''Atlantic Standard Time (GMT-4)'',
      ''SA Western Standard Time (GMT-4)'', ''Newfoundland Standard Time (GMT-3.5)'',
      ''E. South America Standard Time (GMT-3)'', ''SA Eastern Standard Time (GMT-3)'',
      ''Mid-Atlantic Standard Time (GMT-2)'', ''Azores Standard Time (GMT-1)'',
      ''GMT Standard/Daylight Time (GMT)'', ''Greenwich Standard Time (GMT)'',
      ''W. Europe Standard/Daylight Time (GMT+1)'', ''GTB Standard/Daylight Time (GMT+2)'',
      ''Egypt Standard/Daylight Time (GMT+2)'',
      ''E. Europe Standard/Daylight Time (GMT+2)'',
      ''Romance Standard/Daylight Time (GMT+2)'', ''Russian Standard Time (GMT+3)'',
      ''Near East Standard/Daylight Time (GMT+3)'', ''Iran Standard Time (GMT+3.5)'',
      ''Arabian Standard Time (GMT+4)'', ''Caucasus Standard/Daylight Time (GMT+4)'',
      ''Transitional Islamic State of Afghanistan Standard Time (GMT+4.5)'',
      ''Ekaterinburg Standard Time (GMT+5)'', ''West Asia Standard Time (GMT+5)'',
      ''India Standard Time (GMT+5.5)'', ''Nepal Standard Time (GMT+5.75)'',
      ''Central Asia Standard Time (GMT+6)'', ''Sri Lanka Standard Time (GMT+6)'',
      ''N. Central Asia Standard Time (GMT+6)'', ''Myanmar Standard Time (GMT+6.5)'',
      ''SE Asia Standard Time (GMT+7)'', ''North Asia Standard Time (GMT+7)'',
      ''China Standard/Daylight Time (GMT+8)'', ''Singapore Standard Time (GMT+8)'',
      ''Taipei Standard Time (GMT+8)'', ''W. Australia Standard Time (GMT+8)'',
      ''North Asia East Standard Time (GMT+8)'', ''Korea Standard Time (GMT+9)'',
      ''Tokyo Standard Time (GMT+9)'', ''Yakutsk Standard Time (GMT+9)'',
      ''Aus Central Standard Time (GMT+9.5)'',
      ''Cen. Australia Standard/Daylight Time (GMT+9.5)'',
      ''Aus Eastern Standard/Daylight Time (GMT+10)'',
      ''E. Australia Standard Time (GMT+10)'', ''Vladivostok Standard Time (GMT+10)'',
      ''Tasmania Standard/Daylight Time (GMT+10)'',
      ''Central Pacific Standard Time (GMT+11)'',
      ''New Zealand Standard/Daylight Time (GMT+12)'', ''Fiji Standard Time'']"

definition tz_vals :: "string list" where
  "tz_vals =
     [''Dateline Standard Time'', ''Samoa Standard Time'', ''Hawaiian Standard Time'',
      ''Alaskan Standard Time'', ''Pacific Standard/Daylight Time'',
      ''Mountain Standard/Daylight Time'', ''US Mountain Standard Time'',
      ''Central Standard/Daylight Time'', ''Mexico Standard/Daylight Time'',
      ''Canada Central Standard Time'', ''SA Pacific Standard Time'',
      ''Eastern Standard/Daylight Time'', ''US Eastern Standard Time'',
      ''Atlantic Standard Time'', ''SA Western Standard Time'',
      ''Newfoundland Standard Time'', ''E. South America Standard Time'',
      ''SA Eastern Standard Time'', ''Mid-Atlantic Standard Time'',
      ''Azores Standard Time'', ''GMT Standard/Daylight Time'',
      ''Greenwich Standard Time'', ''W. Europe Standard/Daylight Time'',
      ''GTB Standard/Daylight Time'', ''Egypt Standard/Daylight Time'',
      ''E. Europe Standard/Daylight Time'', ''Romance Standard/Daylight Time'',
      ''Russian Standard Time'', ''Near East Standard/Daylight Time'',
      ''Iran Standard Time'', ''Arabian Standard Time'',
      ''Caucasus Standard/Daylight Time'',
      ''Transitional Islamic State of Afghanistan Standard Time'',
      ''Ekaterinburg Standard Time'', ''West Asia Standard Time'', ''India Standard Time'',
      ''Nepal Standard Time'', ''Central Asia Standard Time'', ''Sri Lanka Standard Time'',
      ''N. Central Asia Standard Time'', ''Myanmar Standard Time'',
      ''SE Asia Standard Time'', ''North Asia Standard Time'',
      ''China Standard/Daylight Time'', ''Singapore Standard Time'',
      ''Taipei Standard Time'', ''W. Australia Standard Time'',
      ''North Asia East Standard Time'', ''Korea Standard Time'', ''Tokyo Standard Time'',
      ''Yakutsk Standard Time'', ''Aus Central Standard Time'',
      ''Cen. Australia Standard/Daylight Time'', ''Aus Eastern Standard/Daylight Time'',
      ''E. Australia Standard Time'', ''Vladivostok Standard Time'',
      ''Tasmania Standard/Daylight Time'', ''Central Pacific Standard Time'',
      ''New Zealand Standard/Daylight Time'', ''Fiji Standard Time'']"

definition btn_types :: "string list" where
  "btn_types =
     [''Disabled'', ''Line'', ''SpeedDial'', ''BLF'']"

definition btn_vals :: "string list" where
  "btn_vals =
     [''0'', ''1'', ''2'', ''3'']"

definition locales :: "string list" where
  "locales =
     [''US (English)'', ''UK (English)'', ''France (French)'', ''Germany (German)'',
      ''Spain (Spanish)'']"

definition locale_vals :: "string list" where
  "locale_vals =
     [''United_States'', ''United_Kingdom'', ''France'', ''Germany'', ''Spain'']"

definition net_locales :: "string list" where
  "net_locales =
     [''United States'', ''United Kingdom'', ''France'', ''Germany'', ''Spain'']"

definition net_locale_vals :: "string list" where
  "net_locale_vals =
     [''United_States'', ''United_Kingdom'', ''France'', ''Germany'', ''Spain'']"

definition bt_profiles :: "string list" where
  "bt_profiles =
     [''Handsfree Only'', ''Headset Only'', ''Both'']"

definition bt_vals :: "string list" where
  "bt_vals =
     [''Handsfree'', ''Headset'', ''Handsfree,Headset'']"

definition dnd_alerts :: "string list" where
  "dnd_alerts =
     [''None'', ''Flash Screen'', ''Beep'', ''Flash & Beep'']"

definition dnd_vals :: "string list" where
  "dnd_vals =
     [''0'', ''5'', ''1'', ''2'']"

definition pc_vlan_modes :: "string list" where
  "pc_vlan_modes =
     [''Native / Untagged'', ''Tag with Voice VLAN'', ''Tag with Specific VLAN'']"

definition pc_vlan_vals :: "string list" where
  "pc_vlan_vals =
     [''0'', ''1'', ''2'']"

subsection \<open>\<^verbatim>\<open>init_fields\<close>\<close>

definition init_section1 :: "(field list \<Rightarrow> field list) list" where
  "init_section1 =
    [add_field ''=== IDENTITY & NETWORK ==='' None FT_HEADER
       ''Core System Settings'' False,
     add_field ''MAC Address'' (Some ''device'') FT_MANDATORY
       ''REQUIRED: The unique 12-char ID on the back of the phone.'' False,
     add_field ''Phone Label'' (Some ''deviceLabel'') FT_OPTIONAL
       ''Custom text shown in the top status bar (e.g. 'Reception').'' False,
     add_field ''Primary PBX IP'' (Some ''processNodeName1'') FT_MANDATORY
       ''REQUIRED: IP Address of your SIP Server / PBX (e.g. 192.168.1.10).'' False,
     add_field ''Secondary PBX'' (Some ''processNodeName2'') FT_OPTIONAL
       ''Backup Server IP (e.g. 192.168.1.11). Leave blank if none.'' False,
     add_field ''Tertiary PBX'' (Some ''processNodeName3'') FT_OPTIONAL
       ''Second Backup Server IP. Leave blank if none.'' False,
     add_dropdown ''Transport'' (Some ''transportLayerProtocol'')
       (''Network Protocol. UDP (Standard) is faster with lower overhead. Use '' @
        ''TCP/TLS only if your provider requires reliable or encrypted signaling.'')
       transports trans_vals 3 0 False,
     add_field ''Firmware Load'' (Some ''loadInformation'') FT_OPTIONAL
       (''Specific firmware version to load (e.g. sip8941_45.9-4-2-13). Leave '' @
        ''blank to use the default load defined in the TFTP server config.'') False,
     add_field ''SIP Port'' (Some ''voipControlPort'') FT_OPTIONAL
       (''Port for SIP Signaling. Default is 5060. changing this may '' @
        ''require firewall adjustments.'') False]"

definition init_section2 :: "(field list \<Rightarrow> field list) list" where
  "init_section2 =
    [add_field ''=== ETHERNET & VLAN ==='' None FT_HEADER
       ''Network Layer 2 Settings'' False,
     add_field ''Voice VLAN ID'' (Some ''adminVlanId'') FT_OPTIONAL
       ''VLAN ID for Voice traffic. Leave blank if Network Port is untagged.'' False,
     add_dropdown ''PC Port VLAN Mode'' (Some ''pcVoiceVlanAccess'')
       ''Determines which VLAN the computer connected to the phone will use.''
       pc_vlan_modes pc_vlan_vals 3 0 False,
     add_field ''PC VLAN ID'' (Some ''pcPortVlanId'') FT_OPTIONAL
       ''Enter the VLAN ID for the computer (Data VLAN).'' True,
     add_dropdown ''Span to PC'' (Some ''spanToPCPort'')
       (''Advanced: Copies all phone audio/traffic to the PC port. Used for '' @
        ''Wireshark/Packet Capture. WARNING: Can reduce network performance.'')
       dis_en dis_en_val 2 0 False,
     add_dropdown ''Gratuitous ARP'' (Some ''gratuitousARP'')
       (''Send ARP updates on boot. Critical for scenarios where the Router might '' @
        ''not know where the phone is (e.g. redundant links). (Rec: Enabled)'')
       dis_en dis_en_val 2 1 False,
     add_field ''MTU Size'' (Some ''mtu'') FT_OPTIONAL
       (''Max Transmission Unit. 1500 is Ethernet Standard. Use 1300-1400 '' @
        ''for VPNs to prevent packet fragmentation and dropped calls.'') False]"

definition init_section3 :: "(field list \<Rightarrow> field list) list" where
  "init_section3 =
    [add_field ''=== SECURITY & ACCESS ==='' None FT_HEADER
       ''Device Access Control'' False,
     add_dropdown ''Settings Lock'' (Some ''settingsAccess'')
       ''Locks the 'Settings' menu on the phone screen to prevent changes.''
       dis_en dis_en_val 2 1 False,
     add_dropdown ''Web Access'' (Some ''webAccess'')
       ''Enables the phone's web page for viewing/changing settings.''
       dis_en dis_en_val 2 1 False,
     add_dropdown ''SSH Access'' (Some ''sshAccess'')
       ''Enables SSH for advanced remote administration.''
       dis_en dis_en_val 2 0 False,
     add_field ''SSH Username'' (Some ''sshUserId'') FT_OPTIONAL
       ''Username for SSH login.'' False,
     add_field ''SSH Password'' (Some ''sshPassword'') FT_OPTIONAL
       ''Password for SSH login.'' False,
     add_field ''Admin Password'' (Some ''adminPassword'') FT_OPTIONAL
       ''Password to unlock the Settings menu or Web Interface.'' False,
     add_dropdown ''PC Port'' (Some ''pcPort'')
       ''Enable/Disable the PC Ethernet port.''
       dis_en dis_en_val 2 1 False]"

definition init_section4 :: "(field list \<Rightarrow> field list) list" where
  "init_section4 =
    [add_field ''=== HARDWARE ==='' None FT_HEADER
       ''Physical Peripherals'' False,
     add_dropdown ''Bluetooth'' (Some ''bluetooth'')
       ''Enable Bluetooth Radio.''
       dis_en dis_en_val 2 1 False,
     add_dropdown ''BT Profiles'' (Some ''bluetoothProfile'')
       ''Allowed BT Profiles (Handsfree/Headset).''
       bt_profiles bt_vals 3 2 False]"

definition init_section5 :: "(field list \<Rightarrow> field list) list" where
  "init_section5 =
    [add_field ''=== AUDIO & VIDEO ==='' None FT_HEADER
       ''Codecs and Call Quality'' False,
     add_dropdown ''Preferred Codec'' (Some ''preferredCodec'')
       ''Audio quality. G.711 is standard. G.729 is compressed.''
       codecs codec_vals 4 0 False,
     add_dropdown ''Advertise G.722'' (Some ''advertiseG722Codec'')
       ''Advertise G.722 support for High Definition calls.''
       dis_en dis_en_val 2 1 False,
     add_field ''Audio DSCP'' (Some ''dscpForAudio'') FT_OPTIONAL
       (''QoS Packet Tagging. 184 (EF - Expedited Forwarding) is the industry '' @
        ''standard for Voice. Ensure your Switch/Router respects this tag.'') False,
     add_field ''RTP Min Port'' (Some ''startMediaPort'') FT_OPTIONAL
       (''Start of UDP Port range for Audio/Video. Default 16384. Ensure '' @
        ''your Firewall allows this range inbound/outbound.'') False,
     add_field ''RTP Max Port'' (Some ''stopMediaPort'') FT_OPTIONAL
       (''End of UDP Port range for Audio/Video. Default 32766. Range must '' @
        ''be large enough to handle concurrent calls.'') False,
     add_dropdown ''Video Enable'' (Some ''videoCapability'')
       (''Enable the built-in camera for video calls. Requires a PBX '' @
        ''that supports Video (H.264).'')
       no_yes no_yes_val 2 1 False,
     add_dropdown ''Start Video on Answer'' (Some ''autoTransmitVideo'')
       (''Control if video starts automatically when you answer. 'No' '' @
        ''provides privacy (Audio only) until you press the Video '' @
        ''button. 'Yes' sends video immediately upon answering.'')
       no_yes no_yes_val 2 0 False,
     add_dropdown ''Video Quality'' (Some ''videoBitRate'')
       (''Max bandwidth/quality for Video. Select based on your upload '' @
        ''speed. 1.5M+ recommended for HD 720p.'')
       bitrates bit_vals 5 2 False,
     add_field ''Video DSCP'' (Some ''dscpForVideo'') FT_OPTIONAL
       (''QoS Tag for Video. 136 (AF41) is standard. Set lower priority '' @
        ''than Audio to prioritize voice clarity.'') False,
     add_dropdown ''RTCP Stats'' (Some ''rtcp'')
       (''Send detailed call quality reports (Jitter/Latency '' @
        ''constraints) to the SIP Server.'')
       dis_en dis_en_val 2 1 False]"

definition init_section6 :: "(field list \<Rightarrow> field list) list" where
  "init_section6 =
    [add_field ''=== FEATURES ==='' None FT_HEADER
       ''Do Not Disturb & User Features'' False,
     add_dropdown ''Do Not Disturb'' (Some ''dndControl'')
       ''Show the 'Do Not Disturb' button on the main screen.''
       dis_en dis_en_val 2 1 False,
     add_dropdown ''DND Alert'' (Some ''dndCallAlert'')
       ''How to notify you of incoming calls when DND is active.''
       dnd_alerts dnd_vals 4 1 False,
     add_field ''DND Timer'' (Some ''dndReminderTimer'') FT_OPTIONAL
       ''Play a reminder tone every X minutes when DND is active.'' False,
     add_dropdown ''NAT Enabled'' (Some ''natEnabled'')
       (''Select 'Yes' if this phone is behind a home router/firewall. '' @
        ''Essential for remote phones.'')
       no_yes no_yes_val 2 0 False,
     add_field ''NAT Address'' (Some ''natAddress'') FT_OPTIONAL
       (''The Public IP Address of your internet connection. PRO TIP: If you have '' @
        '''One-Way Audio' (can't hear caller), setting this usually fixes it.'') True]"

definition init_section7 :: "(field list \<Rightarrow> field list) list" where
  "init_section7 =
    [add_field ''=== MONITORING ==='' None FT_HEADER
       ''SNMP & Syslog'' False,
     add_dropdown ''SNMP Enable'' (Some ''snmpEnabled'')
       ''Enable Remote Monitoring.''
       dis_en dis_en_val 2 0 False,
     add_field ''Community String'' (Some ''snmpCommunity'') FT_OPTIONAL
       ''SNMP Password (e.g. public).'' True,
     add_field ''Syslog Server'' (Some ''syslogAddr'') FT_OPTIONAL
       ''IP Address for sending Debug Logs (e.g. 192.168.1.50).'' False]"

definition init_section8 :: "(field list \<Rightarrow> field list) list" where
  "init_section8 =
    [add_field ''=== REGION & TIME ==='' None FT_HEADER
       ''Localization'' False,
     add_dropdown ''Language'' (Some ''userLocale'')
       ''Screen Language (Load from Server).''
       locales locale_vals 5 0 False,
     add_dropdown ''Dial Tones'' (Some ''networkLocale'')
       (''Sets the specific frequencies for Dial Tone, Busy Signal, and Ringback. '' @
        ''Must match your region (e.g. US vs UK) or calls may sound 'wrong'.'')
       net_locales net_locale_vals 5 0 False,
     add_field ''Dial Plan'' (Some ''dialTemplate'') FT_OPTIONAL
       ''Dialing Rules File (e.g. dialplan.xml).'' False,
     add_dropdown ''Time Zone'' (Some ''timeZone'')
       ''Local Time Zone.''
       tz_names tz_vals 58 4 False,
     add_field ''NTP Server'' (Some ''ntpServer'') FT_OPTIONAL
       ''Time Server IP (e.g. pool.ntp.org or 4.2.2.2).'' False,
     add_dropdown ''Date Format'' (Some ''dateTemplate'')
       ''Display format.''
       date_fmts date_vals 3 0 False,
     add_dropdown ''Time Format'' (Some ''timeFormat'')
       ''Clock format.''
       time_fmts time_vals 2 0 False]"

definition init_section9 :: "(field list \<Rightarrow> field list) list" where
  "init_section9 =
    [add_field ''=== EXTERNAL URLS ==='' None FT_HEADER
       ''Integration Links'' False,
     add_field ''Directory URL'' (Some ''directoryURL'') FT_OPTIONAL
       ''URL for the Corporate Phonebook.'' False,
     add_field ''Services URL'' (Some ''servicesURL'') FT_OPTIONAL
       ''URL for the Services Menu.'' False,
     add_field ''Auth URL'' (Some ''authenticationURL'') FT_OPTIONAL
       ''URL for validating Services.'' False,
     add_field ''Info URL'' (Some ''informationURL'') FT_OPTIONAL
       ''URL for the '?' Help button.'' False,
     add_field ''Softkey Template'' (Some ''softKeyFile'') FT_OPTIONAL
       (''XML file on TFTP server defining button layouts (e.g. '' @
        ''softkeys.xml). Allows removing/reordering buttons like 'Redial'.'') False,
     add_field ''Idle/Saver URL'' (Some ''idleURL'') FT_OPTIONAL
       (''URL to an XML file for the screensaver. Activated when phone is '' @
        ''idle for the Timeout duration.'') False,
     add_field ''Saver Timeout'' (Some ''idleTimeout'') FT_OPTIONAL
       (''Time in seconds before the screensaver starts (e.g. 300 = 5 '' @
        ''Minutes). Set to 0 to disable.'') False,
     add_field ''Wallpaper URL'' (Some ''backgroundImage'') FT_OPTIONAL
       (''URL to a Background Image. SPECS: 640x480 resolution, PNG format, '' @
        ''24-bit Color Depth. Other formats (JPG/BMP) will NOT work.'') False]"

definition init_button :: "int \<Rightarrow> (field list \<Rightarrow> field list) list" where
  "init_button i =
    [add_field (sprintf_button i) None FT_HEADER
       ''Line Configuration'' False,
     add_dropdown ''Key Function'' (Some ''lineType'')
       (''Choose 'Line' for a standard extension, 'SpeedDial' for 1-touch '' @
        ''calling, or 'BLF' to monitor if a colleague is on the phone.'')
       btn_types btn_vals 4 (if i = 1 then 1 else 0) False,
     add_field ''Extension'' (Some ''name'') FT_OPTIONAL
       ''The phone number for this line (e.g. 1001).'' False,
     add_field ''Label'' (Some ''displayName'') FT_OPTIONAL
       ''Label shown next to the button (e.g. 'Line 1').'' False,
     add_field ''Auth ID'' (Some ''authName'') FT_OPTIONAL
       ''SIP Username (Often the same as Extension, but check provider).'' False,
     add_field ''SIP Password'' (Some ''authPassword'') FT_OPTIONAL
       ''SIP Password for this extension.'' False,
     add_dropdown ''Auto Answer'' (Some ''autoAnswerEnabled'')
       ''If Enabled, the phone answers calls automatically on speaker.''
       dis_en dis_en_val 2 0 True,
     add_field ''Forward All'' (Some ''callForwardURI'') FT_OPTIONAL
       ''Number to forward calls to unconditionally.'' True,
     add_field ''Pickup Group'' (Some ''callPickupGroupURI'') FT_OPTIONAL
       ''Code to dial to pick up a call ringing in your group.'' True,
     add_field ''Voicemail #'' (Some ''voiceMailPilot'') FT_OPTIONAL
       ''Number dialed when the 'Messages' button is pressed.'' True]"

text \<open>
  \<^verbatim>\<open>init_fields\<close>: \<^verbatim>\<open>total_fields = 0\<close>, the nine sections, the loop over the four buttons
  and a first \<^verbatim>\<open>update_visibility\<close>.
\<close>

definition init_fields :: "field list" where
  "init_fields =
     update_visibility
       (run (init_section1 @ init_section2 @ init_section3 @ init_section4 @
             init_section5 @ init_section6 @ init_section7 @ init_section8 @
             init_section9 @
             init_button 1 @ init_button 2 @ init_button 3 @ init_button 4) [])"

subsection \<open>\<^verbatim>\<open>save_xml\<close>\<close>

text \<open>
  What \<^verbatim>\<open>save_xml\<close> prints into the file, as the sequence of its pieces: \<open>Elem n t v\<close> is
  a leaf element on a line of its own, \<^verbatim>\<open><t>v</t>\<close> after \<open>n\<close> blanks; \<open>LineOpen b\<close> is the
  opening tag \<^verbatim>\<open><line button="b">\<close>; \<open>Raw s\<close> is any other text. \<open>render\<close> gives the bytes
  written.
\<close>

datatype item = Raw string | Elem nat string string | LineOpen int

fun render_item :: "item \<Rightarrow> string" where
  \<open>render_item (Raw s) = s\<close>
| \<open>render_item (Elem n t v) =
     replicate n CHR '' '' @ ''<'' @ t @ ''>'' @ v @ ''</'' @ t @ ''>\<newline>''\<close>
| \<open>render_item (LineOpen b) = ''    <line button="'' @ printf_d b @ ''">\<newline>''\<close>

definition render :: "item list \<Rightarrow> string" where
  "render items = concat (map render_item items)"

text \<open>\<^verbatim>\<open>if (v[0]) fprintf(fp, "<t>%s</t>\n", v)\<close>.\<close>

definition opt_elem :: "nat \<Rightarrow> string \<Rightarrow> string \<Rightarrow> item list" where
  "opt_elem n t v = (if v \<noteq> [] then [Elem n t v] else [])"

definition xml_head :: "field list \<Rightarrow> item list" where
  \<open>xml_head fs =
     [Raw ''<?xml version="1.0" encoding="UTF-8"?>\<newline><device>\<newline>'',
      Elem 2 ''deviceProtocol'' ''SIP''] @
     opt_elem 2 ''deviceLabel'' (val fs ''deviceLabel'') @
     opt_elem 2 ''loadInformation'' (val fs ''loadInformation'')\<close>

text \<open>One \<^verbatim>\<open>member\<close> of the call manager group; the source prints three of this shape.\<close>

definition xml_member :: "string \<Rightarrow> string \<Rightarrow> string \<Rightarrow> item list" where
  \<open>xml_member prio port node =
     [Raw (''      <member priority="'' @ prio @ ''">\<newline>        <callManager>\<newline>''),
      Raw ''          <ports>\<newline>'',
      Elem 12 ''ethernetPhonePort'' port,
      Raw ''          </ports>\<newline>'',
      Elem 10 ''processNodeName'' node,
      Raw ''        </callManager>\<newline>      </member>\<newline>'']\<close>

definition xml_call_manager :: "field list \<Rightarrow> item list" where
  \<open>xml_call_manager fs =
     (let port = (if val fs ''voipControlPort'' = [] then ''5060''
                  else val fs ''voipControlPort'');
          s_pbx = val fs ''processNodeName2'';
          t_pbx = val fs ''processNodeName3''
      in [Raw ''  <callManagerGroup>\<newline>    <members>\<newline>''] @
         xml_member ''0'' port (val fs ''processNodeName1'') @
         (if s_pbx \<noteq> [] then xml_member ''1'' port s_pbx else []) @
         (if t_pbx \<noteq> [] then xml_member ''2'' port t_pbx else []) @
         [Raw ''    </members>\<newline>  </callManagerGroup>\<newline>''])\<close>

definition xml_date_time :: "field list \<Rightarrow> item list" where
  \<open>xml_date_time fs =
     [Raw ''  <dateTimeSetting>\<newline>''] @
     opt_elem 4 ''ntpServerAddr'' (val fs ''ntpServerAddr'') @
     [Elem 4 ''timeZone'' (opt_val fs ''timeZone'')] @
     opt_elem 4 ''dateTemplate'' (opt_val fs ''dateTemplate'') @
     opt_elem 4 ''timeFormat'' (opt_val fs ''timeFormat'') @
     [Raw ''  </dateTimeSetting>\<newline>'']\<close>

definition xml_sip_stack :: "field list \<Rightarrow> item list" where
  \<open>xml_sip_stack fs =
     [Raw ''  <sipStack>\<newline>'',
      Elem 4 ''transportLayerProtocol'' (opt_val fs ''transportLayerProtocol'')] @
     (case get_field fs ''natEnabled'' of
        Some nat_f \<Rightarrow>
          if opt_sel nat_f = 1
          then [Elem 4 ''natEnabled'' ''true'', Elem 4 ''natAddress'' (val fs ''natAddress'')]
          else []
      | None \<Rightarrow> []) @
     [Raw ''  </sipStack>\<newline>'']\<close>

definition xml_locales :: "field list \<Rightarrow> item list" where
  \<open>xml_locales fs =
     [Raw ''  <userLocale>\<newline>'',
      Elem 4 ''name'' (opt_val fs ''userLocale''),
      Elem 4 ''langCode'' (opt_val fs ''userLocale''),
      Raw ''  </userLocale>\<newline>'',
      Elem 2 ''networkLocale'' (opt_val fs ''networkLocale'')]\<close>

definition xml_ethernet :: "field list \<Rightarrow> item list" where
  \<open>xml_ethernet fs =
     [Raw ''  <ethernetConfig>\<newline>''] @
     opt_elem 4 ''adminVlanId'' (val fs ''adminVlanId'') @
     opt_elem 4 ''pcPortVlanId'' (val fs ''pcPortVlanId'') @
     [Raw ''  </ethernetConfig>\<newline>'']\<close>

text \<open>
  The body of the loop over the buttons, for the entry at \<open>i\<close>. \<^verbatim>\<open>label[1] - '0'\<close> is
  computed in \<^verbatim>\<open>int\<close>; a label that contains \<^verbatim>\<open>Key Function\<close> has a second character. The
  voicemail number is looked up by tag, the other members by their offset from \<open>i\<close>.
\<close>

definition xml_line :: "field list \<Rightarrow> nat \<Rightarrow> item list" where
  \<open>xml_line fs i =
     (let f = fld fs (int i)
      in if strstr (label f) ''Key Function'' \<and> 0 < opt_sel f then
           (let b = int (of_char (label f ! 1)) - int (of_char CHR ''0'')
            in [LineOpen b,
                Elem 6 ''featureID'' (if opt_sel f = 1 then ''9'' else ''21''),
                Elem 6 ''name'' (value (fld fs (int i + 1))),
                Elem 6 ''displayName'' (value (fld fs (int i + 2)))] @
               (if opt_sel f = 1 then
                  [Elem 6 ''authName'' (value (fld fs (int i + 3))),
                   Elem 6 ''authPassword'' (value (fld fs (int i + 4)))] @
                  (if opt_sel (fld fs (int i + 5)) = 1
                   then [Elem 6 ''autoAnswerEnabled'' ''2'', Elem 6 ''autoAnswerTimer'' ''1'']
                   else []) @
                  opt_elem 6 ''callForwardURI'' (value (fld fs (int i + 6))) @
                  opt_elem 6 ''callPickupGroupURI'' (value (fld fs (int i + 7))) @
                  opt_elem 6 ''voiceMailPilot'' (val fs ''voiceMailPilot'')
                else []) @
               [Raw ''    </line>\<newline>''])
         else [])\<close>

definition xml_sip_lines :: "field list \<Rightarrow> item list" where
  \<open>xml_sip_lines fs =
     [Raw ''  <sipLines>\<newline>''] @
     concat (map (xml_line fs) [0..<length fs]) @
     [Raw ''  </sipLines>\<newline>'']\<close>

definition xml_vendor :: "field list \<Rightarrow> item list" where
  \<open>xml_vendor fs =
     [Raw ''  <vendorConfig>\<newline>'',
      Elem 4 ''settingsAccess'' (opt_val fs ''settingsAccess''),
      Elem 4 ''webAccess'' (opt_val fs ''webAccess''),
      Elem 4 ''sshAccess'' (opt_val fs ''sshAccess'')] @
     opt_elem 4 ''sshUserId'' (val fs ''sshUserId'') @
     opt_elem 4 ''sshPassword'' (val fs ''sshPassword'') @
     opt_elem 4 ''adminPassword'' (val fs ''adminPassword'') @
     [Elem 4 ''pcPort'' (opt_val fs ''pcPort''),
      Elem 4 ''pcVoiceVlanAccess'' (opt_val fs ''pcVoiceVlanAccess''),
      Elem 4 ''spanToPCPort'' (opt_val fs ''spanToPCPort''),
      Elem 4 ''gratuitousARP'' (opt_val fs ''gratuitousARP''),
      Elem 4 ''bluetooth'' (opt_val fs ''bluetooth''),
      Elem 4 ''bluetoothProfile'' (opt_val fs ''bluetoothProfile''),
      Elem 4 ''preferredCodec'' (opt_val fs ''preferredCodec''),
      Elem 4 ''advertiseG722Codec'' (opt_val fs ''advertiseG722Codec'')] @
     opt_elem 4 ''dscpForAudio'' (val fs ''dscpForAudio'') @
     (if val fs ''startMediaPort'' \<noteq> []
      then [Elem 4 ''startMediaPort'' (val fs ''startMediaPort''),
            Elem 4 ''stopMediaPort'' (val fs ''stopMediaPort'')]
      else []) @
     [Elem 4 ''videoCapability'' (opt_val fs ''videoCapability''),
      Elem 4 ''autoTransmitVideo'' (opt_val fs ''autoTransmitVideo''),
      Elem 4 ''videoBitRate'' (opt_val fs ''videoBitRate'')] @
     opt_elem 4 ''dscpForVideo'' (val fs ''dscpForVideo'') @
     [Elem 4 ''rtcp'' (opt_val fs ''rtcp''),
      Elem 4 ''dndControl'' (opt_val fs ''dndControl''),
      Elem 4 ''dndCallAlert'' (opt_val fs ''dndCallAlert'')] @
     opt_elem 4 ''dndReminderTimer'' (val fs ''dndReminderTimer'') @
     (case get_field fs ''snmpEnabled'' of
        Some snmp \<Rightarrow>
          if opt_sel snmp = 1
          then [Elem 4 ''snmpEnable'' ''1'', Elem 4 ''snmpCommunity'' (val fs ''snmpCommunity'')]
          else []
      | None \<Rightarrow> []) @
     opt_elem 4 ''syslogAddr'' (val fs ''syslogAddr'') @
     opt_elem 4 ''directoryURL'' (val fs ''directoryURL'') @
     opt_elem 4 ''servicesURL'' (val fs ''servicesURL'') @
     opt_elem 4 ''authenticationURL'' (val fs ''authenticationURL'') @
     opt_elem 4 ''informationURL'' (val fs ''informationURL'') @
     opt_elem 4 ''dialTemplate'' (val fs ''dialTemplate'') @
     opt_elem 4 ''softKeyFile'' (val fs ''softKeyFile'') @
     opt_elem 4 ''idleURL'' (val fs ''idleURL'') @
     opt_elem 4 ''idleTimeout'' (val fs ''idleTimeout'') @
     opt_elem 4 ''backgroundImage'' (val fs ''backgroundImage'') @
     [Raw ''  </vendorConfig>\<newline>'']\<close>

definition xml_tail :: "field list \<Rightarrow> item list" where
  \<open>xml_tail fs = opt_elem 2 ''mtu'' (val fs ''mtu'') @ [Raw ''</device>\<newline>'']\<close>

definition xml_document :: "field list \<Rightarrow> item list" where
  "xml_document fs =
     xml_head fs @ xml_call_manager fs @ xml_date_time fs @ xml_sip_stack fs @
     xml_locales fs @ xml_ethernet fs @ xml_sip_lines fs @ xml_vendor fs @ xml_tail fs"

text \<open>
  The program's state as far as \<^verbatim>\<open>save_xml\<close> touches it: the registry \<^verbatim>\<open>fields\<close>, the
  files of the working directory and the message on the status line.
\<close>

record state =
  registry :: "field list"
  files :: "string \<rightharpoonup> string"
  message :: string

text \<open>
  \<^verbatim>\<open>save_xml\<close>. \<open>fopen_ok\<close> says whether \<^verbatim>\<open>fopen(fn, "w")\<close> succeeds. The two early
  returns leave the files alone; the first one prints the error. The writes themselves
  are taken to succeed (the source does not check them).
\<close>

definition save_xml :: "bool \<Rightarrow> state \<Rightarrow> state" where
  \<open>save_xml fopen_ok s =
     (let mac = val (registry s) ''device''
      in if length mac \<noteq> 12 then s\<lparr>message := ''ERR: MAC MUST BE 12 CHARS!''\<rparr>
         else
           (let fn = ''SEP'' @ mac @ ''.cnf.xml''
            in if \<not> fopen_ok then s
               else s\<lparr>files := (files s)(fn \<mapsto> render (xml_document (registry s))),
                      message := ''SUCCESS: '' @ fn @ '' SAVED.''\<rparr>))\<close>

subsection \<open>The dialogs of the main loop\<close>

text \<open>The key codes of \<^verbatim>\<open>ncurses.h\<close>.\<close>

definition KEY_DOWN :: int where
  "KEY_DOWN = 258"

definition KEY_UP :: int where
  "KEY_UP = 259"

definition KEY_ENTER :: int where
  "KEY_ENTER = 343"

text \<open>
  The \<^verbatim>\<open>while (1)\<close> of \<^verbatim>\<open>show_popup\<close>, one \<^verbatim>\<open>wgetch\<close> per round, over the keys the
  operator presses: \<open>Some (True, sel)\<close> when Enter confirms \<open>sel\<close>, \<open>Some (False, sel)\<close> on
  Escape, \<open>None\<close> while the popup still waits for a key.
\<close>

fun popup_loop :: "int \<Rightarrow> int \<Rightarrow> int list \<Rightarrow> (bool \<times> int) option" where
  "popup_loop n sel [] = None"
| "popup_loop n sel (ch # keys) =
     (if ch = KEY_UP \<and> 0 < sel then popup_loop n (sel - 1) keys
      else if ch = KEY_DOWN \<and> sel < n - 1 then popup_loop n (sel + 1) keys
      else if ch = 10 \<or> ch = 13 \<or> ch = KEY_ENTER then Some (True, sel)
      else if ch = 27 then Some (False, sel)
      else popup_loop n sel keys)"

text \<open>
  \<^verbatim>\<open>show_popup(&fields[c])\<close> with its return value. \<open>win_ok\<close> says whether \<^verbatim>\<open>newwin\<close>
  gave a window.
\<close>

definition show_popup :: "bool \<Rightarrow> int list \<Rightarrow> nat \<Rightarrow> field list \<Rightarrow> (int \<times> field list) option" where
  "show_popup win_ok keys c fs =
     (if \<not> win_ok then Some (0, fs)
      else
        (case popup_loop (opt_count (fs ! c)) (opt_sel (fs ! c)) keys of
           None \<Rightarrow> None
         | Some (True, sel) \<Rightarrow>
             Some (1, update_visibility
                        (fs[c := (fs ! c)\<lparr>opt_sel := sel, value := row (options (fs ! c)) sel\<rparr>]))
         | Some (False, sel) \<Rightarrow> Some (0, fs)))"

text \<open>
  \<^verbatim>\<open>show_text_input(&fields[c])\<close>: \<^verbatim>\<open>mvwgetnstr\<close> stores at most 127 characters of the
  line typed, and a field whose label contains \<^verbatim>\<open>MAC\<close> is sanitized at once.
\<close>

definition show_text_input :: "string \<Rightarrow> nat \<Rightarrow> field list \<Rightarrow> error + field list" where
  "show_text_input typed c fs =
     (let v = take 127 typed
      in if strstr (label (fs ! c)) ''MAC'' then
           (case sanitize_mac v of
              Inl e \<Rightarrow> Inl e
            | Inr m \<Rightarrow> Inr (fs[c := (fs ! c)\<lparr>value := m\<rparr>]))
         else Inr (fs[c := (fs ! c)\<lparr>value := v\<rparr>]))"

text \<open>
  The registries of a session: \<^verbatim>\<open>main\<close> calls \<^verbatim>\<open>init_fields\<close> once and then, on Enter,
  opens the popup for a field with options and the text box for any other field. The
  cursor \<^verbatim>\<open>current\<close> stays between 0 and \<^verbatim>\<open>total_fields - 1\<close>; every such position is
  admitted here. A popup left by Escape and \<^verbatim>\<open>save_xml\<close> change no field.
\<close>

inductive reachable :: "field list \<Rightarrow> bool" where
  start: "reachable init_fields"
| popup:
    "reachable fs \<Longrightarrow> c < length fs \<Longrightarrow> 0 < opt_count (fs ! c) \<Longrightarrow>
     show_popup win_ok keys c fs = Some (rc, fs') \<Longrightarrow> reachable fs'"
| text_input:
    "reachable fs \<Longrightarrow> c < length fs \<Longrightarrow> \<not> 0 < opt_count (fs ! c) \<Longrightarrow>
     show_text_input typed c fs = Inr fs' \<Longrightarrow> reachable fs'"

section \<open>Vocabulary of the properties\<close>

text \<open>
  What an entry is registered with and what it holds: label, tag, number of options,
  selected option, value.
\<close>

definition sig :: "field \<Rightarrow> string \<times> string \<times> int \<times> int \<times> string" where
  "sig f = (label f, xml f, opt_count f, opt_sel f, value f)"

text \<open>
  The 105 entries of the form in the order \<^verbatim>\<open>init_fields\<close> registers them (proved
  below, \<open>sig_init_fields\<close>).
\<close>

definition form_table :: "(string \<times> string \<times> int \<times> int \<times> string) list" where
  "form_table =
     [(''=== IDENTITY & NETWORK ==='', [], 0, 0, []), (''MAC Address'', ''device'', 0, 0, []),
      (''Phone Label'', ''deviceLabel'', 0, 0, []),
      (''Primary PBX IP'', ''processNodeName1'', 0, 0, []),
      (''Secondary PBX'', ''processNodeName2'', 0, 0, []),
      (''Tertiary PBX'', ''processNodeName3'', 0, 0, []),
      (''Transport'', ''transportLayerProtocol'', 3, 0, ''UDP''),
      (''Firmware Load'', ''loadInformation'', 0, 0, []),
      (''SIP Port'', ''voipControlPort'', 0, 0, []),
      (''=== ETHERNET & VLAN ==='', [], 0, 0, []),
      (''Voice VLAN ID'', ''adminVlanId'', 0, 0, []),
      (''PC Port VLAN Mode'', ''pcVoiceVlanAccess'', 3, 0, ''Native / Untagged''),
      (''PC VLAN ID'', ''pcPortVlanId'', 0, 0, []),
      (''Span to PC'', ''spanToPCPort'', 2, 0, ''Disabled''),
      (''Gratuitous ARP'', ''gratuitousARP'', 2, 1, ''Enabled''),
      (''MTU Size'', ''mtu'', 0, 0, []), (''=== SECURITY & ACCESS ==='', [], 0, 0, []),
      (''Settings Lock'', ''settingsAccess'', 2, 1, ''Enabled''),
      (''Web Access'', ''webAccess'', 2, 1, ''Enabled''),
      (''SSH Access'', ''sshAccess'', 2, 0, ''Disabled''),
      (''SSH Username'', ''sshUserId'', 0, 0, []),
      (''SSH Password'', ''sshPassword'', 0, 0, []),
      (''Admin Password'', ''adminPassword'', 0, 0, []),
      (''PC Port'', ''pcPort'', 2, 1, ''Enabled''), (''=== HARDWARE ==='', [], 0, 0, []),
      (''Bluetooth'', ''bluetooth'', 2, 1, ''Enabled''),
      (''BT Profiles'', ''bluetoothProfile'', 3, 2, ''Both''),
      (''=== AUDIO & VIDEO ==='', [], 0, 0, []),
      (''Preferred Codec'', ''preferredCodec'', 4, 0, ''G.711u (Standard US)''),
      (''Advertise G.722'', ''advertiseG722Codec'', 2, 1, ''Enabled''),
      (''Audio DSCP'', ''dscpForAudio'', 0, 0, []),
      (''RTP Min Port'', ''startMediaPort'', 0, 0, []),
      (''RTP Max Port'', ''stopMediaPort'', 0, 0, []),
      (''Video Enable'', ''videoCapability'', 2, 1, ''Yes''),
      (''Start Video on Answer'', ''autoTransmitVideo'', 2, 0, ''No''),
      (''Video Quality'', ''videoBitRate'', 5, 2, ''1.5M''),
      (''Video DSCP'', ''dscpForVideo'', 0, 0, []),
      (''RTCP Stats'', ''rtcp'', 2, 1, ''Enabled''), (''=== FEATURES ==='', [], 0, 0, []),
      (''Do Not Disturb'', ''dndControl'', 2, 1, ''Enabled''),
      (''DND Alert'', ''dndCallAlert'', 4, 1, ''Flash Screen''),
      (''DND Timer'', ''dndReminderTimer'', 0, 0, []),
      (''NAT Enabled'', ''natEnabled'', 2, 0, ''No''),
      (''NAT Address'', ''natAddress'', 0, 0, []), (''=== MONITORING ==='', [], 0, 0, []),
      (''SNMP Enable'', ''snmpEnabled'', 2, 0, ''Disabled''),
      (''Community String'', ''snmpCommunity'', 0, 0, []),
      (''Syslog Server'', ''syslogAddr'', 0, 0, []), (''=== REGION & TIME ==='', [], 0, 0, []),
      (''Language'', ''userLocale'', 5, 0, ''US (English)''),
      (''Dial Tones'', ''networkLocale'', 5, 0, ''United States''),
      (''Dial Plan'', ''dialTemplate'', 0, 0, []),
      (''Time Zone'', ''timeZone'', 58, 4, ''Pacific Standard/Daylight Time (GMT-8)''),
      (''NTP Server'', ''ntpServer'', 0, 0, []),
      (''Date Format'', ''dateTemplate'', 3, 0, ''M/D/Y''),
      (''Time Format'', ''timeFormat'', 2, 0, ''12 Hour''),
      (''=== EXTERNAL URLS ==='', [], 0, 0, []),
      (''Directory URL'', ''directoryURL'', 0, 0, []),
      (''Services URL'', ''servicesURL'', 0, 0, []),
      (''Auth URL'', ''authenticationURL'', 0, 0, []),
      (''Info URL'', ''informationURL'', 0, 0, []),
      (''Softkey Template'', ''softKeyFile'', 0, 0, []),
      (''Idle/Saver URL'', ''idleURL'', 0, 0, []),
      (''Saver Timeout'', ''idleTimeout'', 0, 0, []),
      (''Wallpaper URL'', ''backgroundImage'', 0, 0, []), (''=== BUTTON 1 ==='', [], 0, 0, []),
      (''Key Function'', ''lineType'', 4, 1, ''Line''), (''Extension'', ''name'', 0, 0, []),
      (''Label'', ''displayName'', 0, 0, []), (''Auth ID'', ''authName'', 0, 0, []),
      (''SIP Password'', ''authPassword'', 0, 0, []),
      (''Auto Answer'', ''autoAnswerEnabled'', 2, 0, ''Disabled''),
      (''Forward All'', ''callForwardURI'', 0, 0, []),
      (''Pickup Group'', ''callPickupGroupURI'', 0, 0, []),
      (''Voicemail #'', ''voiceMailPilot'', 0, 0, []), (''=== BUTTON 2 ==='', [], 0, 0, []),
      (''Key Function'', ''lineType'', 4, 0, ''Disabled''),
      (''Extension'', ''name'', 0, 0, []), (''Label'', ''displayName'', 0, 0, []),
      (''Auth ID'', ''authName'', 0, 0, []), (''SIP Password'', ''authPassword'', 0, 0, []),
      (''Auto Answer'', ''autoAnswerEnabled'', 2, 0, ''Disabled''),
      (''Forward All'', ''callForwardURI'', 0, 0, []),
      (''Pickup Group'', ''callPickupGroupURI'', 0, 0, []),
      (''Voicemail #'', ''voiceMailPilot'', 0, 0, []), (''=== BUTTON 3 ==='', [], 0, 0, []),
      (''Key Function'', ''lineType'', 4, 0, ''Disabled''),
      (''Extension'', ''name'', 0, 0, []), (''Label'', ''displayName'', 0, 0, []),
      (''Auth ID'', ''authName'', 0, 0, []), (''SIP Password'', ''authPassword'', 0, 0, []),
      (''Auto Answer'', ''autoAnswerEnabled'', 2, 0, ''Disabled''),
      (''Forward All'', ''callForwardURI'', 0, 0, []),
      (''Pickup Group'', ''callPickupGroupURI'', 0, 0, []),
      (''Voicemail #'', ''voiceMailPilot'', 0, 0, []), (''=== BUTTON 4 ==='', [], 0, 0, []),
      (''Key Function'', ''lineType'', 4, 0, ''Disabled''),
      (''Extension'', ''name'', 0, 0, []), (''Label'', ''displayName'', 0, 0, []),
      (''Auth ID'', ''authName'', 0, 0, []), (''SIP Password'', ''authPassword'', 0, 0, []),
      (''Auto Answer'', ''autoAnswerEnabled'', 2, 0, ''Disabled''),
      (''Forward All'', ''callForwardURI'', 0, 0, []),
      (''Pickup Group'', ''callPickupGroupURI'', 0, 0, []),
      (''Voicemail #'', ''voiceMailPilot'', 0, 0, [])]"


text \<open>
  After \<^verbatim>\<open>init_fields\<close> only \<^verbatim>\<open>value\<close>, \<^verbatim>\<open>opt_sel\<close> and \<^verbatim>\<open>hidden\<close> of an entry are ever
  assigned. \<open>frame\<close> is the rest of an entry, and a registry has the form of the program's
  when its entries have the frames of \<^verbatim>\<open>init_fields\<close>.
\<close>

definition frame :: "field \<Rightarrow> field" where
  "frame f = f\<lparr>value := [], opt_sel := 0, hidden := False\<rparr>"

definition same_form :: "field list \<Rightarrow> bool" where
  "same_form fs = (map frame fs = map frame init_fields)"

definition unhide :: "field \<Rightarrow> field" where
  "unhide f = f\<lparr>hidden := False\<rparr>"

text \<open>
  The assignments to \<^verbatim>\<open>hidden\<close> that each rule of \<^verbatim>\<open>update_visibility\<close> makes in round
  \<open>i\<close>, in order, as pairs of index and flag, and those of the whole round;
  \<open>last_write ws j\<close> is what the last assignment to entry \<open>j\<close> in \<open>ws\<close> stores, if there
  is one.
\<close>

definition w_key :: "field list \<Rightarrow> int \<Rightarrow> (int \<times> bool) list" where
  "w_key fs i =
     (if strstr (label (fld fs i)) ''Key Function''
      then (let t = opt_sel (fld fs i)
            in [(i + 1, t = 0), (i + 2, t = 0), (i + 3, t \<noteq> 1), (i + 4, t \<noteq> 1),
                (i + 5, t \<noteq> 1), (i + 6, t \<noteq> 1), (i + 7, t \<noteq> 1), (i + 8, t \<noteq> 1)])
      else [])"

definition w_snmp :: "field list \<Rightarrow> int \<Rightarrow> (int \<times> bool) list" where
  "w_snmp fs i =
     (if xml (fld fs i) = ''snmpCommunity'' then [(i, opt_sel (fld fs (i - 1)) = 0)] else [])"

definition w_nat :: "field list \<Rightarrow> int \<Rightarrow> (int \<times> bool) list" where
  "w_nat fs i =
     (if xml (fld fs i) = ''natAddress'' then [(i, opt_sel (fld fs (i - 1)) = 0)] else [])"

definition w_pcvlan :: "field list \<Rightarrow> int \<Rightarrow> (int \<times> bool) list" where
  "w_pcvlan fs i =
     (if xml (fld fs i) = ''pcPortVlanId'' then [(i, opt_sel (fld fs (i - 1)) \<noteq> 2)] else [])"

definition writes :: "field list \<Rightarrow> nat \<Rightarrow> (int \<times> bool) list" where
  "writes fs i = w_key fs (int i) @ w_snmp fs (int i) @ w_nat fs (int i) @ w_pcvlan fs (int i)"

definition apply_writes :: "(int \<times> bool) list \<Rightarrow> field list \<Rightarrow> field list" where
  "apply_writes ws fs = fold (\<lambda>(k, h). set_hidden k h) ws fs"

fun last_write :: "(int \<times> bool) list \<Rightarrow> int \<Rightarrow> bool option" where
  "last_write [] j = None"
| "last_write ((k, h) # ws) j =
     (case last_write ws j of
        Some h' \<Rightarrow> Some h'
      | None \<Rightarrow> if k = j then Some h else None)"

text \<open>
  The selection of an entry is in range: below the number of options of a dropdown, and
  the zero it started with in an entry without options. \<open>table_ok\<close>: the option count is
  the number of rows of both tables.
\<close>

definition sel_ok :: "field \<Rightarrow> bool" where
  "sel_ok f =
     (if 0 < opt_count f then 0 \<le> opt_sel f \<and> opt_sel f < opt_count f else opt_sel f = 0)"

definition table_ok :: "field \<Rightarrow> bool" where
  "table_ok f =
     (opt_count f = int (length (options f)) \<and> opt_count f = int (length (xml_values f)))"

text \<open>The test by which the program recognises the head of a button's block.\<close>

definition is_key :: "field \<Rightarrow> bool" where
  "is_key f = strstr (label f) ''Key Function''"

text \<open>
  A stored MAC address that \<^verbatim>\<open>sanitize_mac\<close> has been through: at most 12 characters,
  all of them digits or capital letters A to F.
\<close>

definition HEX :: string where
  "HEX = ''0123456789ABCDEF''"

definition mac_clean :: "string \<Rightarrow> bool" where
  "mac_clean m = (length m \<le> 12 \<and> set m \<subseteq> set HEX)"

text \<open>
  Steps of a session, to name registries: \<open>enter_text c v fs\<close> is the registry after the line
  \<open>v\<close> is entered in the text box of entry \<open>c\<close>, \<open>pick c keys fs\<close> the registry after the
  keys are pressed in the option picker of entry \<open>c\<close> (unchanged while the picker is still
  open).
\<close>

definition enter_text :: "nat \<Rightarrow> string \<Rightarrow> field list \<Rightarrow> field list" where
  "enter_text c v fs = (case show_text_input v c fs of Inr fs' \<Rightarrow> fs' | Inl e \<Rightarrow> fs)"

definition pick :: "nat \<Rightarrow> int list \<Rightarrow> field list \<Rightarrow> field list" where
  "pick c keys fs = (case show_popup True keys c fs of Some (rc, fs') \<Rightarrow> fs' | None \<Rightarrow> fs)"

text \<open>The registry of a session in which only the MAC address has been entered.\<close>

definition mac_entered :: "field list" where
  "mac_entered = enter_text 1 ''00:07:a1-B2.c3d4'' init_fields"

text \<open>
  Three longer sessions. In \<open>ntp_entered\<close> the NTP server is entered too. In \<open>nat_enabled\<close>
  NAT Enabled is set to Yes and the NAT address is left empty. In \<open>two_lines\<close> the second
  button is made a Line, and the voicemail numbers of the first and the second button are
  entered.
\<close>

definition ntp_entered :: "field list" where
  "ntp_entered = enter_text 53 ''pool.ntp.org'' mac_entered"

definition nat_enabled :: "field list" where
  "nat_enabled = pick 42 [KEY_DOWN, 10] mac_entered"

definition two_lines :: "field list" where
  "two_lines = enter_text 84 ''222'' (enter_text 74 ''111'' (pick 76 [KEY_DOWN, 10] mac_entered))"

text \<open>
  What the document is observed by: the contents of the elements named \<open>t\<close>, in the order
  in which they are printed.
\<close>

fun contents :: "string \<Rightarrow> item list \<Rightarrow> string list" where
  "contents t [] = []"
| "contents t (Elem n t' v # xs) = (if t = t' then v # contents t xs else contents t xs)"
| "contents t (Raw s # xs) = contents t xs"
| "contents t (LineOpen b # xs) = contents t xs"

text \<open>\<^verbatim>\<open>f && f->opt_sel == 1\<close> for \<^verbatim>\<open>f = get_field(tag)\<close>.\<close>

definition is_on :: "field list \<Rightarrow> string \<Rightarrow> bool" where
  "is_on fs tag = (case get_field fs tag of Some f \<Rightarrow> opt_sel f = 1 | None \<Rightarrow> False)"


definition line_tags :: "string list" where
  "line_tags =
     [''featureID'', ''name'', ''displayName'', ''authName'', ''authPassword'',
      ''autoAnswerEnabled'', ''autoAnswerTimer'', ''callForwardURI'', ''callPickupGroupURI'',
      ''voiceMailPilot'']"

text \<open>A piece that is printed under a condition.\<close>

definition only_if :: "bool \<Rightarrow> 'a list \<Rightarrow> 'a list" where
  "only_if c xs = (if c then xs else [])"

subsection \<open>The file, read back\<close>

text \<open>
  The lines of a text: what stands before each newline, and what follows the last one if
  anything does.
\<close>

fun text_lines :: "string \<Rightarrow> string list" where
  \<open>text_lines [] = []\<close>
| \<open>text_lines (c # cs) =
     (if c = CHR ''\<newline>'' then [] # text_lines cs
      else case text_lines cs of [] \<Rightarrow> [[c]] | l # ls \<Rightarrow> (c # l) # ls)\<close>

text \<open>
  A line that holds one element, \<^verbatim>\<open><t>content</t>\<close> after its indentation, read as the
  name and the content; the elements of a text are those of its lines, in order, and
  \<open>text_contents t\<close> are the contents of the ones named \<open>t\<close>.
\<close>

definition element_line :: "string \<Rightarrow> (string \<times> string) option" where
  \<open>element_line l =
     (let s = dropWhile (\<lambda>c. c = CHR '' '') l;
          t = takeWhile (\<lambda>c. c \<noteq> CHR ''>'') (drop 1 s);
          body = drop (length t + 2) s;
          closing = ''</'' @ t @ ''>''
      in if take (length t + 2) s = ''<'' @ t @ ''>'' \<and> length closing \<le> length body \<and>
            drop (length body - length closing) body = closing
         then Some (t, take (length body - length closing) body)
         else None)\<close>

definition elements :: "string \<Rightarrow> (string \<times> string) list" where
  "elements doc = List.map_filter element_line (text_lines doc)"

definition text_contents :: "string \<Rightarrow> string \<Rightarrow> string list" where
  "text_contents t doc = map snd (filter (\<lambda>p. fst p = t) (elements doc))"

text \<open>The lines of a text that open a \<^verbatim>\<open>line\<close> element.\<close>

definition line_openings :: "string \<Rightarrow> string list" where
  \<open>line_openings doc =
     filter (\<lambda>l. take 6 (dropWhile (\<lambda>c. c = CHR '' '') l) = ''<line '') (text_lines doc)\<close>

text \<open>
  An item whose text is read back as the item: an element of one line, or a piece made of
  whole lines none of which reads as an element or opens a \<^verbatim>\<open>line\<close>, or the opening of a
  \<^verbatim>\<open>line\<close> on a line of its own. \<open>buttons\<close> are the numbers of the \<^verbatim>\<open>line\<close> openings among
  the items.
\<close>

fun item_ok :: "item \<Rightarrow> bool" where
  \<open>item_ok (Elem n t v) =
     (CHR ''>'' \<notin> set t \<and> CHR '' '' \<notin> set t \<and> CHR ''\<newline>'' \<notin> set t \<and>
      CHR ''\<newline>'' \<notin> set v)\<close>
| \<open>item_ok (Raw s) =
     ((s = [] \<or> last s = CHR ''\<newline>'') \<and> elements s = [] \<and> line_openings s = [])\<close>
| \<open>item_ok (LineOpen b) =
     (text_lines (render_item (LineOpen b)) = [''    <line button="'' @ printf_d b @ ''">''] \<and>
      elements (render_item (LineOpen b)) = [])\<close>

fun buttons :: "item list \<Rightarrow> int list" where
  "buttons [] = []"
| "buttons (LineOpen b # xs) = b # buttons xs"
| "buttons (Elem n t v # xs) = buttons xs"
| "buttons (Raw s # xs) = buttons xs"

text \<open>
  An entry whose value is one line of text: \<^verbatim>\<open>mvwgetnstr\<close> reads up to the end of the
  line, and the values that \<^verbatim>\<open>init_fields\<close> and the option picker assign are labels
  without a newline. The buttons that are not Disabled, and the ones that are a Line, by
  the index of their Key Function entry.
\<close>

definition one_line :: "field \<Rightarrow> bool" where
  \<open>one_line f = (CHR ''\<newline>'' \<notin> set (value f))\<close>

definition buttons_on :: "field list \<Rightarrow> nat list" where
  "buttons_on fs = [i \<leftarrow> [0..<length fs]. is_key (fs ! i) \<and> 0 < opt_sel (fs ! i)]"

definition buttons_line :: "field list \<Rightarrow> nat list" where
  "buttons_line fs = [i \<leftarrow> [0..<length fs]. is_key (fs ! i) \<and> opt_sel (fs ! i) = 1]"



text \<open>An entry whose value and whose option labels are single lines.\<close>

definition plain :: "field \<Rightarrow> bool" where
  \<open>plain f =
     (CHR ''\<newline>'' \<notin> set (value f) \<and> list_all (\<lambda>r. CHR ''\<newline>'' \<notin> set r) (options f))\<close>

section \<open>Properties\<close>

subsection \<open>\<^verbatim>\<open>update_visibility\<close> assigns nothing but \<^verbatim>\<open>hidden\<close>\<close>

lemma length_set_hidden [simp]: "length (set_hidden k h fs) = length fs"
  by (simp add: set_hidden_def)

lemma unhide_set_hidden [simp]: "map unhide (set_hidden k h fs) = map unhide fs"
  by (simp add: set_hidden_def unhide_def map_update list_eq_iff_nth_eq nth_list_update)

lemma field_eqI: "unhide f = unhide g \<Longrightarrow> hidden f = hidden g \<Longrightarrow> f = g"
  by (cases f, cases g) (simp add: unhide_def)

lemma unhide_fld:
  assumes "map unhide fs' = map unhide fs"
  shows "unhide (fld fs' j) = unhide (fld fs j)"
proof -
  have len: "length fs' = length fs"
    using assms by (metis length_map)
  show ?thesis
  proof (cases "0 \<le> j \<and> nat j < length fs")
    case True
    then have "map unhide fs' ! nat j = map unhide fs ! nat j"
      using assms by simp
    with True len show ?thesis
      by (simp add: fld_def)
  next
    case False
    with len show ?thesis
      by (auto simp add: fld_def)
  qed
qed

lemma unhide_proj:
  "label f = label (unhide f)" "xml f = xml (unhide f)" "opt_sel f = opt_sel (unhide f)"
  "opt_count f = opt_count (unhide f)" "value f = value (unhide f)"
  by (simp_all add: unhide_def)

lemma fld_same:
  assumes "map unhide fs' = map unhide fs"
  shows "label (fld fs' j) = label (fld fs j)" "xml (fld fs' j) = xml (fld fs j)"
    "opt_sel (fld fs' j) = opt_sel (fld fs j)" "value (fld fs' j) = value (fld fs j)"
  using unhide_fld [OF assms, of j] by (metis unhide_proj)+

lemma writes_cong:
  assumes "map unhide fs' = map unhide fs"
  shows "w_key fs' i = w_key fs i" "w_snmp fs' i = w_snmp fs i" "w_nat fs' i = w_nat fs i"
    "w_pcvlan fs' i = w_pcvlan fs i" "writes fs' n = writes fs n"
  by (simp_all add: writes_def w_key_def w_snmp_def w_nat_def w_pcvlan_def
      fld_same [OF assms])

lemma apply_writes_append: "apply_writes (a @ b) fs = apply_writes b (apply_writes a fs)"
  by (simp add: apply_writes_def)

lemma unhide_apply_writes: "map unhide (apply_writes ws fs) = map unhide fs"
  by (induction ws arbitrary: fs) (simp_all add: apply_writes_def split: prod.splits)

lemma length_apply_writes: "length (apply_writes ws fs) = length fs"
  using unhide_apply_writes [of ws fs] by (metis length_map)

lemma if_write:
  "(if c then set_hidden k h fs else fs) = apply_writes (if c then [(k, h)] else []) fs"
  by (simp add: apply_writes_def)

lemma if_writes8:
  "(if c then (set_hidden k8 h8 \<circ> set_hidden k7 h7 \<circ> set_hidden k6 h6 \<circ>
               set_hidden k5 h5 \<circ> set_hidden k4 h4 \<circ> set_hidden k3 h3 \<circ>
               set_hidden k2 h2 \<circ> set_hidden k1 h1) fs
    else fs) =
   apply_writes
     (if c then [(k1, h1), (k2, h2), (k3, h3), (k4, h4), (k5, h5), (k6, h6), (k7, h7), (k8, h8)]
      else []) fs"
  by (simp add: apply_writes_def)

lemma vis_key_writes: "vis_key i fs = apply_writes (w_key fs i) fs"
  unfolding vis_key_def w_key_def Let_def by (rule if_writes8)

lemma vis_snmp_writes: "vis_snmp i fs = apply_writes (w_snmp fs i) fs"
  unfolding vis_snmp_def w_snmp_def by (rule if_write)

lemma vis_nat_writes: "vis_nat i fs = apply_writes (w_nat fs i) fs"
  unfolding vis_nat_def w_nat_def by (rule if_write)

lemma vis_pcvlan_writes: "vis_pcvlan i fs = apply_writes (w_pcvlan fs i) fs"
  unfolding vis_pcvlan_def w_pcvlan_def by (rule if_write)

lemma vis_step_writes: "vis_step i fs = apply_writes (writes fs i) fs"
proof -
  let ?i = "int i"
  let ?a = "vis_key ?i fs"
  let ?b = "vis_snmp ?i ?a"
  let ?c = "vis_nat ?i ?b"
  have a: "?a = apply_writes (w_key fs ?i) fs"
    by (rule vis_key_writes)
  then have ua: "map unhide ?a = map unhide fs"
    by (simp add: unhide_apply_writes)
  have b: "?b = apply_writes (w_snmp fs ?i) ?a"
    using vis_snmp_writes [of ?i ?a] by (simp only: writes_cong [OF ua])
  then have ub: "map unhide ?b = map unhide fs"
    using ua by (simp add: unhide_apply_writes)
  have c: "?c = apply_writes (w_nat fs ?i) ?b"
    using vis_nat_writes [of ?i ?b] by (simp only: writes_cong [OF ub])
  then have uc: "map unhide ?c = map unhide fs"
    using ub by (simp add: unhide_apply_writes)
  have d: "vis_pcvlan ?i ?c = apply_writes (w_pcvlan fs ?i) ?c"
    using vis_pcvlan_writes [of ?i ?c] by (simp only: writes_cong [OF uc])
  have "vis_step i fs = apply_writes (w_pcvlan fs ?i) ?c"
    by (simp only: vis_step_def d)
  also have "\<dots> = apply_writes (w_pcvlan fs ?i)
      (apply_writes (w_nat fs ?i) (apply_writes (w_snmp fs ?i) (apply_writes (w_key fs ?i) fs)))"
    using a b c by simp
  finally show ?thesis
    by (simp only: writes_def apply_writes_append)
qed

lemma fold_vis_step_writes:
  "map unhide fs' = map unhide fs \<Longrightarrow>
   fold vis_step is fs' = apply_writes (concat (map (writes fs) is)) fs'"
proof (induction "is" arbitrary: fs')
  case Nil
  then show ?case by (simp add: apply_writes_def)
next
  case (Cons i "is")
  have step: "vis_step i fs' = apply_writes (writes fs i) fs'"
    using writes_cong(5) [OF Cons.prems] by (simp add: vis_step_writes)
  have "map unhide (vis_step i fs') = map unhide fs"
    using Cons.prems by (simp add: step unhide_apply_writes)
  then have "fold vis_step is (vis_step i fs') =
      apply_writes (concat (map (writes fs) is)) (vis_step i fs')"
    by (rule Cons.IH)
  then show ?case
    by (simp add: step apply_writes_append)
qed

lemma update_visibility_writes:
  "update_visibility fs = apply_writes (concat (map (writes fs) [0..<length fs])) fs"
  by (simp add: update_visibility_def fold_vis_step_writes)

lemma unhide_update_visibility: "map unhide (update_visibility fs) = map unhide fs"
  by (simp add: update_visibility_writes unhide_apply_writes)

lemma length_update_visibility [simp]: "length (update_visibility fs) = length fs"
  by (simp add: update_visibility_writes length_apply_writes)

subsection \<open>The flag an entry ends with is the one assigned last\<close>

lemma hidden_fld_set_hidden:
  "hidden (fld (set_hidden k h fs) j) =
   (if j = k \<and> 0 \<le> k \<and> nat k < length fs then h else hidden (fld fs j))"
  by (auto simp add: set_hidden_def fld_def nth_list_update)

lemma hidden_apply_writes:
  assumes "0 \<le> j" and "nat j < length fs"
  shows "hidden (fld (apply_writes ws fs) j) =
    (case last_write ws j of Some h \<Rightarrow> h | None \<Rightarrow> hidden (fld fs j))"
  using assms
proof (induction ws arbitrary: fs)
  case Nil
  then show ?case by (simp add: apply_writes_def)
next
  case (Cons w ws)
  obtain k h where w: "w = (k, h)"
    by (cases w)
  have unfold: "apply_writes ((k, h) # ws) fs = apply_writes ws (set_hidden k h fs)"
    by (simp add: apply_writes_def)
  have "nat j < length (set_hidden k h fs)"
    using Cons.prems by simp
  with Cons.prems have ih: "hidden (fld (apply_writes ws (set_hidden k h fs)) j) =
      (case last_write ws j of Some h' \<Rightarrow> h' | None \<Rightarrow> hidden (fld (set_hidden k h fs) j))"
    by (intro Cons.IH)
  show ?case
  proof (cases "last_write ws j")
    case None
    with Cons.prems show ?thesis
      by (simp add: unfold ih w hidden_fld_set_hidden)
  next
    case (Some h')
    then show ?thesis
      by (simp add: unfold ih w)
  qed
qed

lemma apply_writes_idem: "apply_writes ws (apply_writes ws fs) = apply_writes ws fs"
proof (rule nth_equalityI)
  show "length (apply_writes ws (apply_writes ws fs)) = length (apply_writes ws fs)"
    by (simp add: length_apply_writes)
next
  fix j
  assume "j < length (apply_writes ws (apply_writes ws fs))"
  then have j: "j < length fs"
    by (simp add: length_apply_writes)
  let ?a = "apply_writes ws fs"
  have u: "unhide (fld (apply_writes ws ?a) (int j)) = unhide (fld ?a (int j))"
    by (rule unhide_fld) (rule unhide_apply_writes)
  have h: "hidden (fld (apply_writes ws ?a) (int j)) = hidden (fld ?a (int j))"
    using j by (simp add: hidden_apply_writes length_apply_writes split: option.splits)
  have "fld (apply_writes ws ?a) (int j) = fld ?a (int j)"
    using u h by (rule field_eqI)
  then show "apply_writes ws ?a ! j = ?a ! j"
    using j by (simp add: fld_def length_apply_writes)
qed

text \<open>
  C9. Running \<^verbatim>\<open>update_visibility\<close> a second time, with no value or selection changed
  in between, changes nothing: every entry keeps the \<^verbatim>\<open>hidden\<close> flag the first run gave
  it.
\<close>

theorem update_visibility_idempotent:
  "update_visibility (update_visibility fs) = update_visibility fs \<and>
   map hidden (update_visibility (update_visibility fs)) = map hidden (update_visibility fs)"
proof -
  let ?ws = "concat (map (writes fs) [0..<length fs])"
  let ?fs1 = "update_visibility fs"
  have same: "map unhide ?fs1 = map unhide fs"
    by (rule unhide_update_visibility)
  have once: "?fs1 = apply_writes ?ws fs"
    by (rule update_visibility_writes)
  have "writes ?fs1 = writes fs"
    using writes_cong(5) [OF same] by (rule ext)
  then have "update_visibility ?fs1 = apply_writes ?ws ?fs1"
    using update_visibility_writes [of ?fs1] by simp
  also have "\<dots> = apply_writes ?ws (apply_writes ?ws fs)"
    using once by simp
  also have "\<dots> = apply_writes ?ws fs"
    by (rule apply_writes_idem)
  finally have "update_visibility ?fs1 = ?fs1"
    using once by simp
  then show ?thesis
    by simp
qed

subsection \<open>The form that \<^verbatim>\<open>init_fields\<close> builds\<close>

lemma run_append: "run (a @ b) s = run b (run a s)"
  by (simp add: run_def)

lemma dec_digit: "n < 10 \<Longrightarrow> dec n = [''0123456789'' ! n]"
  by simp

lemma dec_small [simp]: "dec (Suc 0) = ''1''" "dec 2 = ''2''" "dec 3 = ''3''" "dec 4 = ''4''"
  by (simp_all del: dec.simps add: dec_digit)

declare dec.simps [simp del]

lemma sig_add_field:
  "map sig (add_field l x t h hide fs) =
   map sig fs @ [(take 63 l, take 63 (case x of Some s \<Rightarrow> s | None \<Rightarrow> []), 0, 0, [])]"
  by (simp add: add_field_def sig_def strncpy_def zero_field_def)

lemma sig_add_dropdown:
  "map sig (add_dropdown l x h os vs n d hide fs) =
   map sig fs @
     [(take 63 l, take 63 (case x of Some s \<Rightarrow> s | None \<Rightarrow> []), n, d, row os d)]"
  by (simp add: add_dropdown_def add_field_def sig_def strncpy_def zero_field_def Let_def)

lemma sig_init_section1:
  "map sig (run init_section1 fs) =
   map sig fs @
     [(''=== IDENTITY & NETWORK ==='', [], 0, 0, []), (''MAC Address'', ''device'', 0, 0, []),
      (''Phone Label'', ''deviceLabel'', 0, 0, []),
      (''Primary PBX IP'', ''processNodeName1'', 0, 0, []),
      (''Secondary PBX'', ''processNodeName2'', 0, 0, []),
      (''Tertiary PBX'', ''processNodeName3'', 0, 0, []),
      (''Transport'', ''transportLayerProtocol'', 3, 0, ''UDP''),
      (''Firmware Load'', ''loadInformation'', 0, 0, []),
      (''SIP Port'', ''voipControlPort'', 0, 0, [])]"
  by (simp add: init_section1_def transports_def run_def sig_add_field sig_add_dropdown
      row_def)

lemma sig_init_section2:
  "map sig (run init_section2 fs) =
   map sig fs @
     [(''=== ETHERNET & VLAN ==='', [], 0, 0, []),
      (''Voice VLAN ID'', ''adminVlanId'', 0, 0, []),
      (''PC Port VLAN Mode'', ''pcVoiceVlanAccess'', 3, 0, ''Native / Untagged''),
      (''PC VLAN ID'', ''pcPortVlanId'', 0, 0, []),
      (''Span to PC'', ''spanToPCPort'', 2, 0, ''Disabled''),
      (''Gratuitous ARP'', ''gratuitousARP'', 2, 1, ''Enabled''),
      (''MTU Size'', ''mtu'', 0, 0, [])]"
  by (simp add: init_section2_def dis_en_def pc_vlan_modes_def run_def sig_add_field
      sig_add_dropdown row_def)

lemma sig_init_section3:
  "map sig (run init_section3 fs) =
   map sig fs @
     [(''=== SECURITY & ACCESS ==='', [], 0, 0, []),
      (''Settings Lock'', ''settingsAccess'', 2, 1, ''Enabled''),
      (''Web Access'', ''webAccess'', 2, 1, ''Enabled''),
      (''SSH Access'', ''sshAccess'', 2, 0, ''Disabled''),
      (''SSH Username'', ''sshUserId'', 0, 0, []),
      (''SSH Password'', ''sshPassword'', 0, 0, []),
      (''Admin Password'', ''adminPassword'', 0, 0, []),
      (''PC Port'', ''pcPort'', 2, 1, ''Enabled'')]"
  by (simp add: init_section3_def dis_en_def run_def sig_add_field sig_add_dropdown row_def)

lemma sig_init_section4:
  "map sig (run init_section4 fs) =
   map sig fs @
     [(''=== HARDWARE ==='', [], 0, 0, []), (''Bluetooth'', ''bluetooth'', 2, 1, ''Enabled''),
      (''BT Profiles'', ''bluetoothProfile'', 3, 2, ''Both'')]"
  by (simp add: init_section4_def bt_profiles_def dis_en_def run_def sig_add_field
      sig_add_dropdown row_def)

lemma sig_init_section5:
  "map sig (run init_section5 fs) =
   map sig fs @
     [(''=== AUDIO & VIDEO ==='', [], 0, 0, []),
      (''Preferred Codec'', ''preferredCodec'', 4, 0, ''G.711u (Standard US)''),
      (''Advertise G.722'', ''advertiseG722Codec'', 2, 1, ''Enabled''),
      (''Audio DSCP'', ''dscpForAudio'', 0, 0, []),
      (''RTP Min Port'', ''startMediaPort'', 0, 0, []),
      (''RTP Max Port'', ''stopMediaPort'', 0, 0, []),
      (''Video Enable'', ''videoCapability'', 2, 1, ''Yes''),
      (''Start Video on Answer'', ''autoTransmitVideo'', 2, 0, ''No''),
      (''Video Quality'', ''videoBitRate'', 5, 2, ''1.5M''),
      (''Video DSCP'', ''dscpForVideo'', 0, 0, []),
      (''RTCP Stats'', ''rtcp'', 2, 1, ''Enabled'')]"
  by (simp add: init_section5_def bitrates_def codecs_def dis_en_def no_yes_def run_def
      sig_add_field sig_add_dropdown row_def)

lemma sig_init_section6:
  "map sig (run init_section6 fs) =
   map sig fs @
     [(''=== FEATURES ==='', [], 0, 0, []),
      (''Do Not Disturb'', ''dndControl'', 2, 1, ''Enabled''),
      (''DND Alert'', ''dndCallAlert'', 4, 1, ''Flash Screen''),
      (''DND Timer'', ''dndReminderTimer'', 0, 0, []),
      (''NAT Enabled'', ''natEnabled'', 2, 0, ''No''),
      (''NAT Address'', ''natAddress'', 0, 0, [])]"
  by (simp add: init_section6_def dis_en_def dnd_alerts_def no_yes_def run_def sig_add_field
      sig_add_dropdown row_def)

lemma sig_init_section7:
  "map sig (run init_section7 fs) =
   map sig fs @
     [(''=== MONITORING ==='', [], 0, 0, []),
      (''SNMP Enable'', ''snmpEnabled'', 2, 0, ''Disabled''),
      (''Community String'', ''snmpCommunity'', 0, 0, []),
      (''Syslog Server'', ''syslogAddr'', 0, 0, [])]"
  by (simp add: init_section7_def dis_en_def run_def sig_add_field sig_add_dropdown row_def)

lemma sig_init_section8:
  "map sig (run init_section8 fs) =
   map sig fs @
     [(''=== REGION & TIME ==='', [], 0, 0, []),
      (''Language'', ''userLocale'', 5, 0, ''US (English)''),
      (''Dial Tones'', ''networkLocale'', 5, 0, ''United States''),
      (''Dial Plan'', ''dialTemplate'', 0, 0, []),
      (''Time Zone'', ''timeZone'', 58, 4, ''Pacific Standard/Daylight Time (GMT-8)''),
      (''NTP Server'', ''ntpServer'', 0, 0, []),
      (''Date Format'', ''dateTemplate'', 3, 0, ''M/D/Y''),
      (''Time Format'', ''timeFormat'', 2, 0, ''12 Hour'')]"
  by (simp add: init_section8_def date_fmts_def locales_def net_locales_def time_fmts_def
      tz_names_def run_def sig_add_field sig_add_dropdown row_def)

lemma sig_init_section9:
  "map sig (run init_section9 fs) =
   map sig fs @
     [(''=== EXTERNAL URLS ==='', [], 0, 0, []),
      (''Directory URL'', ''directoryURL'', 0, 0, []),
      (''Services URL'', ''servicesURL'', 0, 0, []),
      (''Auth URL'', ''authenticationURL'', 0, 0, []),
      (''Info URL'', ''informationURL'', 0, 0, []),
      (''Softkey Template'', ''softKeyFile'', 0, 0, []),
      (''Idle/Saver URL'', ''idleURL'', 0, 0, []),
      (''Saver Timeout'', ''idleTimeout'', 0, 0, []),
      (''Wallpaper URL'', ''backgroundImage'', 0, 0, [])]"
  by (simp add: init_section9_def run_def sig_add_field sig_add_dropdown row_def)

lemma sig_init_button1:
  "map sig (run (init_button 1) fs) =
   map sig fs @
     [(''=== BUTTON 1 ==='', [], 0, 0, []), (''Key Function'', ''lineType'', 4, 1, ''Line''),
      (''Extension'', ''name'', 0, 0, []), (''Label'', ''displayName'', 0, 0, []),
      (''Auth ID'', ''authName'', 0, 0, []), (''SIP Password'', ''authPassword'', 0, 0, []),
      (''Auto Answer'', ''autoAnswerEnabled'', 2, 0, ''Disabled''),
      (''Forward All'', ''callForwardURI'', 0, 0, []),
      (''Pickup Group'', ''callPickupGroupURI'', 0, 0, []),
      (''Voicemail #'', ''voiceMailPilot'', 0, 0, [])]"
  by (simp add: init_button_def sprintf_button_def printf_d_def btn_types_def dis_en_def
      run_def sig_add_field sig_add_dropdown row_def)

lemma sig_init_button2:
  "map sig (run (init_button 2) fs) =
   map sig fs @
     [(''=== BUTTON 2 ==='', [], 0, 0, []),
      (''Key Function'', ''lineType'', 4, 0, ''Disabled''),
      (''Extension'', ''name'', 0, 0, []), (''Label'', ''displayName'', 0, 0, []),
      (''Auth ID'', ''authName'', 0, 0, []), (''SIP Password'', ''authPassword'', 0, 0, []),
      (''Auto Answer'', ''autoAnswerEnabled'', 2, 0, ''Disabled''),
      (''Forward All'', ''callForwardURI'', 0, 0, []),
      (''Pickup Group'', ''callPickupGroupURI'', 0, 0, []),
      (''Voicemail #'', ''voiceMailPilot'', 0, 0, [])]"
  by (simp add: init_button_def sprintf_button_def printf_d_def btn_types_def dis_en_def
      run_def sig_add_field sig_add_dropdown row_def)

lemma sig_init_button3:
  "map sig (run (init_button 3) fs) =
   map sig fs @
     [(''=== BUTTON 3 ==='', [], 0, 0, []),
      (''Key Function'', ''lineType'', 4, 0, ''Disabled''),
      (''Extension'', ''name'', 0, 0, []), (''Label'', ''displayName'', 0, 0, []),
      (''Auth ID'', ''authName'', 0, 0, []), (''SIP Password'', ''authPassword'', 0, 0, []),
      (''Auto Answer'', ''autoAnswerEnabled'', 2, 0, ''Disabled''),
      (''Forward All'', ''callForwardURI'', 0, 0, []),
      (''Pickup Group'', ''callPickupGroupURI'', 0, 0, []),
      (''Voicemail #'', ''voiceMailPilot'', 0, 0, [])]"
  by (simp add: init_button_def sprintf_button_def printf_d_def btn_types_def dis_en_def
      run_def sig_add_field sig_add_dropdown row_def)

lemma sig_init_button4:
  "map sig (run (init_button 4) fs) =
   map sig fs @
     [(''=== BUTTON 4 ==='', [], 0, 0, []),
      (''Key Function'', ''lineType'', 4, 0, ''Disabled''),
      (''Extension'', ''name'', 0, 0, []), (''Label'', ''displayName'', 0, 0, []),
      (''Auth ID'', ''authName'', 0, 0, []), (''SIP Password'', ''authPassword'', 0, 0, []),
      (''Auto Answer'', ''autoAnswerEnabled'', 2, 0, ''Disabled''),
      (''Forward All'', ''callForwardURI'', 0, 0, []),
      (''Pickup Group'', ''callPickupGroupURI'', 0, 0, []),
      (''Voicemail #'', ''voiceMailPilot'', 0, 0, [])]"
  by (simp add: init_button_def sprintf_button_def printf_d_def btn_types_def dis_en_def
      run_def sig_add_field sig_add_dropdown row_def)

lemma sig_unhide: "sig (unhide f) = sig f"
  by (simp add: sig_def unhide_def)

lemma sig_update_visibility: "map sig (update_visibility fs) = map sig fs"
proof -
  have "map sig (map unhide (update_visibility fs)) = map sig (map unhide fs)"
    by (simp only: unhide_update_visibility)
  then show ?thesis
    by (simp add: comp_def sig_unhide)
qed

lemma sig_init_fields: "map sig init_fields = form_table"
  by (simp add: init_fields_def sig_update_visibility run_append sig_init_section1
      sig_init_section2 sig_init_section3 sig_init_section4 sig_init_section5
      sig_init_section6 sig_init_section7 sig_init_section8 sig_init_section9
      sig_init_button1 sig_init_button2 sig_init_button3 sig_init_button4 form_table_def)

lemma length_form_table: "length form_table = 105"
  by (simp add: form_table_def)

lemma length_init_fields: "length init_fields = 105"
  using sig_init_fields length_form_table by (metis length_map)

lemma table_ok_add_field:
  "list_all table_ok (add_field l x t h hide fs) = list_all table_ok fs"
  by (simp add: add_field_def table_ok_def zero_field_def)

lemma table_ok_add_dropdown:
  "0 \<le> n \<Longrightarrow>
   list_all table_ok (add_dropdown l x h os vs n d hide fs) = list_all table_ok fs"
  by (simp add: add_dropdown_def add_field_def table_ok_def zero_field_def copy_rows_def Let_def)

lemma table_ok_init_section1: "list_all table_ok (run init_section1 fs) = list_all table_ok fs"
  by (simp add: init_section1_def run_def table_ok_add_field table_ok_add_dropdown)

lemma table_ok_init_section2: "list_all table_ok (run init_section2 fs) = list_all table_ok fs"
  by (simp add: init_section2_def run_def table_ok_add_field table_ok_add_dropdown)

lemma table_ok_init_section3: "list_all table_ok (run init_section3 fs) = list_all table_ok fs"
  by (simp add: init_section3_def run_def table_ok_add_field table_ok_add_dropdown)

lemma table_ok_init_section4: "list_all table_ok (run init_section4 fs) = list_all table_ok fs"
  by (simp add: init_section4_def run_def table_ok_add_field table_ok_add_dropdown)

lemma table_ok_init_section5: "list_all table_ok (run init_section5 fs) = list_all table_ok fs"
  by (simp add: init_section5_def run_def table_ok_add_field table_ok_add_dropdown)

lemma table_ok_init_section6: "list_all table_ok (run init_section6 fs) = list_all table_ok fs"
  by (simp add: init_section6_def run_def table_ok_add_field table_ok_add_dropdown)

lemma table_ok_init_section7: "list_all table_ok (run init_section7 fs) = list_all table_ok fs"
  by (simp add: init_section7_def run_def table_ok_add_field table_ok_add_dropdown)

lemma table_ok_init_section8: "list_all table_ok (run init_section8 fs) = list_all table_ok fs"
  by (simp add: init_section8_def run_def table_ok_add_field table_ok_add_dropdown)

lemma table_ok_init_section9: "list_all table_ok (run init_section9 fs) = list_all table_ok fs"
  by (simp add: init_section9_def run_def table_ok_add_field table_ok_add_dropdown)

lemma table_ok_init_button: "list_all table_ok (run (init_button i) fs) = list_all table_ok fs"
  by (simp add: init_button_def run_def table_ok_add_field table_ok_add_dropdown)

lemma table_ok_unhide: "table_ok (unhide f) = table_ok f"
  by (simp add: table_ok_def unhide_def)

lemma table_ok_init_fields: "list_all table_ok init_fields"
proof -
  let ?fs = "run (init_section1 @ init_section2 @ init_section3 @ init_section4 @
      init_section5 @ init_section6 @ init_section7 @ init_section8 @ init_section9 @
      init_button 1 @ init_button 2 @ init_button 3 @ init_button 4) []"
  have "list_all table_ok ?fs"
    by (simp add: run_append table_ok_init_section1 table_ok_init_section2
        table_ok_init_section3 table_ok_init_section4 table_ok_init_section5
        table_ok_init_section6 table_ok_init_section7 table_ok_init_section8
        table_ok_init_section9 table_ok_init_button)
  then have "list_all table_ok (map unhide ?fs)"
    by (simp add: list.pred_map comp_def table_ok_unhide)
  then have "list_all table_ok (map unhide (update_visibility ?fs))"
    by (simp only: unhide_update_visibility)
  then show ?thesis
    by (simp add: init_fields_def list.pred_map comp_def table_ok_unhide)
qed

lemma enc_add_field: "map xml_values (add_field l x t h hide fs) = map xml_values fs @ [[]]"
  by (simp add: add_field_def zero_field_def)

lemma enc_add_dropdown:
  "map xml_values (add_dropdown l x h os vs n d hide fs) = map xml_values fs @ [copy_rows vs n]"
  by (simp add: add_dropdown_def add_field_def Let_def)

lemma enc_init_section1:
  "map xml_values (run init_section1 fs) =
   map xml_values fs @
     [[], [], [], [], [], [], copy_rows trans_vals 3, [], []]"
  by (simp add: init_section1_def run_def enc_add_field enc_add_dropdown)

lemma enc_init_section2:
  "map xml_values (run init_section2 fs) =
   map xml_values fs @
     [[], [], copy_rows pc_vlan_vals 3, [], copy_rows dis_en_val 2, copy_rows dis_en_val 2,
      []]"
  by (simp add: init_section2_def run_def enc_add_field enc_add_dropdown)

lemma enc_init_section3:
  "map xml_values (run init_section3 fs) =
   map xml_values fs @
     [[], copy_rows dis_en_val 2, copy_rows dis_en_val 2, copy_rows dis_en_val 2, [], [],
      [], copy_rows dis_en_val 2]"
  by (simp add: init_section3_def run_def enc_add_field enc_add_dropdown)

lemma enc_init_section4:
  "map xml_values (run init_section4 fs) =
   map xml_values fs @
     [[], copy_rows dis_en_val 2, copy_rows bt_vals 3]"
  by (simp add: init_section4_def run_def enc_add_field enc_add_dropdown)

lemma enc_init_section5:
  "map xml_values (run init_section5 fs) =
   map xml_values fs @
     [[], copy_rows codec_vals 4, copy_rows dis_en_val 2, [], [], [],
      copy_rows no_yes_val 2, copy_rows no_yes_val 2, copy_rows bit_vals 5, [],
      copy_rows dis_en_val 2]"
  by (simp add: init_section5_def run_def enc_add_field enc_add_dropdown)

lemma enc_init_section6:
  "map xml_values (run init_section6 fs) =
   map xml_values fs @
     [[], copy_rows dis_en_val 2, copy_rows dnd_vals 4, [], copy_rows no_yes_val 2, []]"
  by (simp add: init_section6_def run_def enc_add_field enc_add_dropdown)

lemma enc_init_section7:
  "map xml_values (run init_section7 fs) =
   map xml_values fs @
     [[], copy_rows dis_en_val 2, [], []]"
  by (simp add: init_section7_def run_def enc_add_field enc_add_dropdown)

lemma enc_init_section8:
  "map xml_values (run init_section8 fs) =
   map xml_values fs @
     [[], copy_rows locale_vals 5, copy_rows net_locale_vals 5, [], copy_rows tz_vals 58,
      [], copy_rows date_vals 3, copy_rows time_vals 2]"
  by (simp add: init_section8_def run_def enc_add_field enc_add_dropdown)

lemma enc_init_section9:
  "map xml_values (run init_section9 fs) =
   map xml_values fs @
     [[], [], [], [], [], [], [], [], []]"
  by (simp add: init_section9_def run_def enc_add_field enc_add_dropdown)

lemma enc_init_button:
  "map xml_values (run (init_button i) fs) =
   map xml_values fs @
     [[], copy_rows btn_vals 4, [], [], [], [], copy_rows dis_en_val 2, [], [], []]"
  by (simp add: init_button_def run_def enc_add_field enc_add_dropdown)

lemma enc_update_visibility: "map xml_values (update_visibility fs) = map xml_values fs"
proof -
  have "map xml_values (map unhide (update_visibility fs)) = map xml_values (map unhide fs)"
    by (simp only: unhide_update_visibility)
  then show ?thesis
    by (simp add: comp_def unhide_def)
qed

lemma enc_init_fields:
  "map xml_values init_fields =
     [[], [], [], [], [], [], copy_rows trans_vals 3, [], [], [], [],
      copy_rows pc_vlan_vals 3, [], copy_rows dis_en_val 2, copy_rows dis_en_val 2, [], [],
      copy_rows dis_en_val 2, copy_rows dis_en_val 2, copy_rows dis_en_val 2, [], [], [],
      copy_rows dis_en_val 2, [], copy_rows dis_en_val 2, copy_rows bt_vals 3, [],
      copy_rows codec_vals 4, copy_rows dis_en_val 2, [], [], [], copy_rows no_yes_val 2,
      copy_rows no_yes_val 2, copy_rows bit_vals 5, [], copy_rows dis_en_val 2, [],
      copy_rows dis_en_val 2, copy_rows dnd_vals 4, [], copy_rows no_yes_val 2, [], [],
      copy_rows dis_en_val 2, [], [], [], copy_rows locale_vals 5,
      copy_rows net_locale_vals 5, [], copy_rows tz_vals 58, [], copy_rows date_vals 3,
      copy_rows time_vals 2, [], [], [], [], [], [], [], [], [], [], copy_rows btn_vals 4,
      [], [], [], [], copy_rows dis_en_val 2, [], [], [], [], copy_rows btn_vals 4, [], [],
      [], [], copy_rows dis_en_val 2, [], [], [], [], copy_rows btn_vals 4, [], [], [], [],
      copy_rows dis_en_val 2, [], [], [], [], copy_rows btn_vals 4, [], [], [], [],
      copy_rows dis_en_val 2, [], [], []]"
  by (simp add: init_fields_def enc_update_visibility run_append enc_init_section1
      enc_init_section2 enc_init_section3 enc_init_section4 enc_init_section5
      enc_init_section6 enc_init_section7 enc_init_section8 enc_init_section9
      enc_init_button)

subsection \<open>What a registry of the same form shares with \<^verbatim>\<open>init_fields\<close>\<close>

lemma frame_proj:
  "label f = label (frame f)" "xml f = xml (frame f)" "opt_count f = opt_count (frame f)"
  "options f = options (frame f)" "xml_values f = xml_values (frame f)"
  by (simp_all add: frame_def)

lemma same_form_length: "same_form fs \<Longrightarrow> length fs = 105"
  unfolding same_form_def using length_init_fields by (metis length_map)

lemma same_form_frame:
  assumes "same_form fs" and "i < 105"
  shows "frame (fs ! i) = frame (init_fields ! i)"
proof -
  have "map frame fs ! i = map frame init_fields ! i"
    using assms(1) by (simp add: same_form_def)
  then show ?thesis
    using assms same_form_length [OF assms(1)] length_init_fields by simp
qed

lemma sig_nth_init:
  assumes "i < 105"
  shows "sig (init_fields ! i) = form_table ! i"
proof -
  have "map sig init_fields ! i = form_table ! i"
    by (simp only: sig_init_fields)
  then show ?thesis
    using assms length_init_fields by simp
qed

lemma same_form_nth:
  assumes "same_form fs" and "i < 105"
  shows "label (fs ! i) = fst (form_table ! i)"
    and "xml (fs ! i) = fst (snd (form_table ! i))"
    and "opt_count (fs ! i) = fst (snd (snd (form_table ! i)))"
proof -
  have f: "frame (fs ! i) = frame (init_fields ! i)"
    using assms by (rule same_form_frame)
  have s: "sig (init_fields ! i) = form_table ! i"
    using assms(2) by (rule sig_nth_init)
  have "label (fs ! i) = label (init_fields ! i)" "xml (fs ! i) = xml (init_fields ! i)"
    "opt_count (fs ! i) = opt_count (init_fields ! i)"
    using f by (metis frame_proj)+
  then show "label (fs ! i) = fst (form_table ! i)"
    and "xml (fs ! i) = fst (snd (form_table ! i))"
    and "opt_count (fs ! i) = fst (snd (snd (form_table ! i)))"
    using s [symmetric] by (simp_all add: sig_def)
qed

lemma same_form_table_ok:
  assumes "same_form fs"
  shows "list_all table_ok fs"
proof -
  have t: "table_ok f = table_ok (frame f)" for f
    by (simp add: table_ok_def frame_def)
  have "list_all table_ok (map frame init_fields)"
    using table_ok_init_fields t by (simp add: list.pred_map comp_def)
  then have "list_all table_ok (map frame fs)"
    using assms by (simp add: same_form_def)
  then show ?thesis
    using t by (simp add: list.pred_map comp_def)
qed

subsection \<open>Invariants of a session\<close>

lemma popup_loop_range:
  "0 \<le> sel0 \<Longrightarrow> sel0 < n \<Longrightarrow> popup_loop n sel0 keys = Some (b, sel) \<Longrightarrow> 0 \<le> sel \<and> sel < n"
proof (induction keys arbitrary: sel0)
  case Nil
  then show ?case by simp
next
  case (Cons ch keys)
  show ?case
  proof (cases "ch = KEY_UP \<and> 0 < sel0")
    case True
    with Cons.prems have "popup_loop n (sel0 - 1) keys = Some (b, sel)"
      by simp
    with Cons.IH [of "sel0 - 1"] Cons.prems True show ?thesis
      by simp
  next
    case up: False
    show ?thesis
    proof (cases "ch = KEY_DOWN \<and> sel0 < n - 1")
      case True
      with Cons.prems up have "popup_loop n (sel0 + 1) keys = Some (b, sel)"
        by (simp add: KEY_UP_def KEY_DOWN_def)
      with Cons.IH [of "sel0 + 1"] Cons.prems True show ?thesis
        by simp
    next
      case False
      with Cons.prems up Cons.IH [of sel0] show ?thesis
        by (auto split: if_splits)
    qed
  qed
qed

lemma show_popup_cases:
  assumes "show_popup win_ok keys c fs = Some (rc, fs')"
  shows "fs' = fs \<or>
    (\<exists>sel. popup_loop (opt_count (fs ! c)) (opt_sel (fs ! c)) keys = Some (True, sel) \<and>
       fs' = update_visibility
               (fs[c := (fs ! c)\<lparr>opt_sel := sel, value := row (options (fs ! c)) sel\<rparr>]))"
  using assms by (auto simp add: show_popup_def split: if_splits option.splits bool.splits)

lemma show_text_input_cases:
  assumes "show_text_input typed c fs = Inr fs'"
  shows "\<exists>v. fs' = fs[c := (fs ! c)\<lparr>value := v\<rparr>]"
  using assms by (auto simp add: show_text_input_def Let_def split: if_splits sum.splits)

lemma frame_unhide: "frame (unhide f) = frame f"
  by (simp add: frame_def unhide_def)

lemma frame_update_visibility: "map frame (update_visibility fs) = map frame fs"
proof -
  have "map frame (map unhide (update_visibility fs)) = map frame (map unhide fs)"
    by (simp only: unhide_update_visibility)
  then show ?thesis
    by (simp add: comp_def frame_unhide)
qed

lemma frame_list_update:
  assumes "frame g = frame (fs ! c)"
  shows "map frame (fs[c := g]) = map frame fs"
proof (rule nth_equalityI)
  show "length (map frame (fs[c := g])) = length (map frame fs)"
    by simp
next
  fix i
  assume "i < length (map frame (fs[c := g]))"
  then have i: "i < length fs"
    by simp
  show "map frame (fs[c := g]) ! i = map frame fs ! i"
  proof (cases "i = c")
    case True
    with i assms show ?thesis by simp
  next
    case False
    with i show ?thesis by simp
  qed
qed

lemma same_form_popup:
  "same_form fs \<Longrightarrow>
   same_form (update_visibility (fs[c := (fs ! c)\<lparr>opt_sel := sel, value := v\<rparr>]))"
  by (simp add: same_form_def frame_update_visibility frame_list_update frame_def)

lemma same_form_value:
  "same_form fs \<Longrightarrow> same_form (fs[c := (fs ! c)\<lparr>value := v\<rparr>])"
  by (simp add: same_form_def frame_list_update frame_def)

lemma reachable_same_form: "reachable fs \<Longrightarrow> same_form fs"
proof (induction rule: reachable.induct)
  case start
  show ?case by (simp add: same_form_def)
next
  case (popup fs c win_ok keys rc fs')
  then show ?case
    using show_popup_cases [OF popup.hyps(4)] by (auto simp add: same_form_popup)
next
  case (text_input fs c typed fs')
  then show ?case
    using show_text_input_cases [OF text_input.hyps(4)] by (auto simp add: same_form_value)
qed

lemma sel_ok_unhide: "sel_ok (unhide f) = sel_ok f"
  by (simp add: sel_ok_def unhide_def)

lemma sel_ok_update_visibility: "list_all sel_ok (update_visibility fs) = list_all sel_ok fs"
proof -
  have "list_all sel_ok (map unhide (update_visibility fs)) = list_all sel_ok (map unhide fs)"
    by (simp only: unhide_update_visibility)
  then show ?thesis
    by (simp add: list.pred_map comp_def sel_ok_unhide)
qed

lemma sel_ok_list_update:
  "list_all sel_ok fs \<Longrightarrow> sel_ok g \<Longrightarrow> list_all sel_ok (fs[c := g])"
  using set_update_subset_insert [of fs c g] by (auto simp add: list_all_iff)

lemma sel_ok_form_table:
  "list_all (\<lambda>(l, x, n, d, v). if 0 < n then 0 \<le> d \<and> d < n else d = 0) form_table"
  by (simp add: form_table_def)

lemma sel_ok_init_fields: "list_all sel_ok init_fields"
proof -
  let ?P = "\<lambda>(l :: string, x :: string, n :: int, d :: int, v :: string).
      if 0 < n then 0 \<le> d \<and> d < n else d = 0"
  have "sel_ok = ?P \<circ> sig"
    by (rule ext) (simp add: sel_ok_def sig_def)
  then have "list_all sel_ok init_fields = list_all ?P (map sig init_fields)"
    by (simp only: list.pred_map)
  then show ?thesis
    using sel_ok_form_table by (simp only: sig_init_fields)
qed

lemma reachable_sel_ok: "reachable fs \<Longrightarrow> list_all sel_ok fs"
proof (induction rule: reachable.induct)
  case start
  show ?case by (rule sel_ok_init_fields)
next
  case (popup fs c win_ok keys rc fs')
  from show_popup_cases [OF popup.hyps(4)] show ?case
  proof
    assume "fs' = fs"
    with popup.IH show ?thesis by simp
  next
    assume "\<exists>sel. popup_loop (opt_count (fs ! c)) (opt_sel (fs ! c)) keys = Some (True, sel) \<and>
        fs' = update_visibility
          (fs[c := (fs ! c)\<lparr>opt_sel := sel, value := row (options (fs ! c)) sel\<rparr>])"
    then obtain sel where
      loop: "popup_loop (opt_count (fs ! c)) (opt_sel (fs ! c)) keys = Some (True, sel)" and
      fs': "fs' = update_visibility
          (fs[c := (fs ! c)\<lparr>opt_sel := sel, value := row (options (fs ! c)) sel\<rparr>])"
      by blast
    have "sel_ok (fs ! c)"
      using popup.IH popup.hyps(2) by (simp add: list_all_length)
    with popup.hyps(3) have "0 \<le> opt_sel (fs ! c)" "opt_sel (fs ! c) < opt_count (fs ! c)"
      by (simp_all add: sel_ok_def)
    then have "0 \<le> sel \<and> sel < opt_count (fs ! c)"
      using loop by (rule popup_loop_range)
    then have "sel_ok ((fs ! c)\<lparr>opt_sel := sel, value := row (options (fs ! c)) sel\<rparr>)"
      by (simp add: sel_ok_def)
    with popup.IH show ?thesis
      by (simp add: fs' sel_ok_update_visibility sel_ok_list_update)
  qed
next
  case (text_input fs c typed fs')
  from show_text_input_cases [OF text_input.hyps(4)] obtain v
    where fs': "fs' = fs[c := (fs ! c)\<lparr>value := v\<rparr>]"
    by blast
  have "sel_ok (fs ! c)"
    using text_input.IH text_input.hyps(2) by (simp add: list_all_length)
  then have "sel_ok ((fs ! c)\<lparr>value := v\<rparr>)"
    by (simp add: sel_ok_def)
  with text_input.IH show ?case
    by (simp add: fs' sel_ok_list_update)
qed

text \<open>
  C8. In every registry of a session (the one \<^verbatim>\<open>init_fields\<close> constructs, and any
  reached from it by confirming choices in the option picker and entering text), the
  selection of every field with a non-empty option list is at least 0 and below the
  number of its options.
\<close>

theorem selected_index_in_range:
  assumes "reachable fs" and "i < length fs" and "options (fs ! i) \<noteq> []"
  shows "0 \<le> opt_sel (fs ! i) \<and> opt_sel (fs ! i) < int (length (options (fs ! i)))"
proof -
  have "table_ok (fs ! i)"
    using same_form_table_ok [OF reachable_same_form [OF assms(1)]] assms(2)
    by (simp add: list_all_length)
  then have count: "opt_count (fs ! i) = int (length (options (fs ! i)))"
    by (simp add: table_ok_def)
  have "sel_ok (fs ! i)"
    using reachable_sel_ok [OF assms(1)] assms(2) by (simp add: list_all_length)
  moreover have "0 < opt_count (fs ! i)"
    using count assms(3) by simp
  ultimately show ?thesis
    using count by (simp add: sel_ok_def)
qed

lemma transport_entry:
  "opt_count (init_fields ! 6) = 3" "opt_sel (init_fields ! 6) = 0"
  "length (options (init_fields ! 6)) = 3"
proof -
  have "sig (init_fields ! 6) = form_table ! 6"
    by (rule sig_nth_init) simp
  then have s: "sig (init_fields ! 6) = (''Transport'', ''transportLayerProtocol'', 3, 0, ''UDP'')"
    by (simp add: form_table_def)
  show c: "opt_count (init_fields ! 6) = 3" and "opt_sel (init_fields ! 6) = 0"
    using s by (simp_all add: sig_def)
  have "table_ok (init_fields ! 6)"
    using table_ok_init_fields length_init_fields by (simp add: list_all_length)
  with c show "length (options (init_fields ! 6)) = 3"
    by (simp add: table_ok_def)
qed

theorem selected_index_in_range_witness:
  "reachable init_fields \<and> 6 < length init_fields \<and> options (init_fields ! 6) \<noteq> [] \<and>
   0 \<le> opt_sel (init_fields ! 6) \<and>
   opt_sel (init_fields ! 6) < int (length (options (init_fields ! 6))) \<and>
   show_popup True [KEY_DOWN, KEY_DOWN, KEY_DOWN, 10] 6 init_fields =
     Some (1, update_visibility
       (init_fields[6 := (init_fields ! 6)\<lparr>opt_sel := 2,
          value := row (options (init_fields ! 6)) 2\<rparr>])) \<and>
   reachable (update_visibility
       (init_fields[6 := (init_fields ! 6)\<lparr>opt_sel := 2,
          value := row (options (init_fields ! 6)) 2\<rparr>])) \<and>
   0 \<le> opt_sel (update_visibility
       (init_fields[6 := (init_fields ! 6)\<lparr>opt_sel := 2,
          value := row (options (init_fields ! 6)) 2\<rparr>]) ! 6) \<and>
   opt_sel (update_visibility
       (init_fields[6 := (init_fields ! 6)\<lparr>opt_sel := 2,
          value := row (options (init_fields ! 6)) 2\<rparr>]) ! 6) <
     int (length (options (update_visibility
       (init_fields[6 := (init_fields ! 6)\<lparr>opt_sel := 2,
          value := row (options (init_fields ! 6)) 2\<rparr>]) ! 6)))"
proof -
  let ?fs1 = "update_visibility
       (init_fields[6 := (init_fields ! 6)\<lparr>opt_sel := 2,
          value := row (options (init_fields ! 6)) 2\<rparr>])"
  have r0: "reachable init_fields"
    by (rule reachable.start)
  have len: "6 < length init_fields"
    by (simp add: length_init_fields)
  have ne: "options (init_fields ! 6) \<noteq> []"
    using transport_entry(3) by auto
  have pop: "show_popup True [KEY_DOWN, KEY_DOWN, KEY_DOWN, 10] 6 init_fields = Some (1, ?fs1)"
    by (simp add: show_popup_def transport_entry KEY_DOWN_def KEY_UP_def)
  have r1: "reachable ?fs1"
    using r0 len _ pop by (rule reachable.popup) (simp add: transport_entry)
  have len1: "6 < length ?fs1"
    using len by simp
  have "frame (?fs1 ! 6) = frame (init_fields ! 6)"
    using same_form_frame [OF reachable_same_form [OF r1], of 6] by simp
  then have "options (?fs1 ! 6) = options (init_fields ! 6)"
    by (metis frame_proj(4))
  with ne have ne1: "options (?fs1 ! 6) \<noteq> []"
    by simp
  show ?thesis
    using selected_index_in_range [OF r0 len ne] selected_index_in_range [OF r1 len1 ne1]
      r0 len ne pop r1
    by blast
qed

subsection \<open>MAC sanitization\<close>

lemma sanitize_loop_filter:
  "sanitize_loop src clean = clean @ map toupper (filter isxdigit src)"
  by (induction src arbitrary: clean) simp_all

text \<open>
  C6. Sanitizing a MAC string deletes every character that is not a hexadecimal digit,
  uppercases the rest and cuts the result to at most 12 characters; nothing is padded, so
  the result has the smaller of 12 and the number of hexadecimal digits as its length.
  \<^verbatim>\<open>00:07:a1-B2.c3d4\<close> becomes \<^verbatim>\<open>0007A1B2C3D4\<close>. The hypothesis is the size of the
  function's 128-byte work buffer; every \<^verbatim>\<open>value\<close> the program passes (at most 127
  characters) meets it.
\<close>

theorem sanitize_mac_spec:
  assumes "length (filter isxdigit src) \<le> 128"
  shows "sanitize_mac src = Inr (take 12 (map toupper (filter isxdigit src))) \<and>
    length (take 12 (map toupper (filter isxdigit src))) = min 12 (length (filter isxdigit src)) \<and>
    sanitize_mac ''00:07:a1-B2.c3d4'' = Inr ''0007A1B2C3D4''"
proof (intro conjI)
  show "sanitize_mac ''00:07:a1-B2.c3d4'' = Inr ''0007A1B2C3D4''"
    by code_simp
next
  show "sanitize_mac src = Inr (take 12 (map toupper (filter isxdigit src)))"
    using assms by (simp add: sanitize_mac_def sanitize_loop_filter)
next
  show "length (take 12 (map toupper (filter isxdigit src))) =
      min 12 (length (filter isxdigit src))"
    by simp
qed

theorem sanitize_mac_spec_witness:
  "length (filter isxdigit ''ab:zz'') \<le> 128 \<and> sanitize_mac ''ab:zz'' = Inr ''AB''"
proof -
  have f: "filter isxdigit ''ab:zz'' = ''ab''"
    by code_simp
  have e: "map toupper ''ab'' = ''AB''"
    by code_simp
  have h: "length (filter isxdigit ''ab:zz'') \<le> 128"
    by (simp add: f)
  show ?thesis
    using sanitize_mac_spec [OF h] unfolding f e by simp
qed

subsection \<open>The flags of a button's block\<close>

lemma last_write_append:
  "last_write (a @ b) j = (case last_write b j of Some h \<Rightarrow> Some h | None \<Rightarrow> last_write a j)"
  by (induction a) (auto split: option.splits)

lemma last_write_concat_none:
  "(\<And>i. i \<in> set is \<Longrightarrow> last_write (f i) j = None) \<Longrightarrow>
   last_write (concat (map f is)) j = None"
  by (induction "is") (simp_all add: last_write_append)

lemma last_write_concat_only:
  assumes "b \<in> set is" and "last_write (f b) j = Some v"
    and "\<And>i. i \<in> set is \<Longrightarrow> i \<noteq> b \<Longrightarrow> last_write (f i) j = None"
  shows "last_write (concat (map f is)) j = Some v"
  using assms
proof (induction "is")
  case Nil
  then show ?case by simp
next
  case (Cons i "is")
  show ?case
  proof (cases "b \<in> set is")
    case True
    then have "last_write (concat (map f is)) j = Some v"
      using Cons.prems by (intro Cons.IH) auto
    then show ?thesis
      by (simp add: last_write_append)
  next
    case False
    with Cons.prems(1) have bi: "b = i"
      by simp
    have "last_write (concat (map f is)) j = None"
    proof (rule last_write_concat_none)
      fix i'
      assume "i' \<in> set is"
      with False Cons.prems(3) [of i'] show "last_write (f i') j = None"
        by auto
    qed
    with Cons.prems(2) bi show ?thesis
      by (simp add: last_write_append)
  qed
qed

lemma last_write_w_key:
  "last_write (w_key fs i) j =
   (if is_key (fld fs i) \<and> i + 1 \<le> j \<and> j \<le> i + 8
    then Some (if j \<le> i + 2 then opt_sel (fld fs i) = 0 else opt_sel (fld fs i) \<noteq> 1)
    else None)"
  by (auto simp add: w_key_def is_key_def Let_def)

lemma last_write_own:
  "last_write (w_snmp fs i) j =
     (if xml (fld fs i) = ''snmpCommunity'' \<and> j = i
      then Some (opt_sel (fld fs (i - 1)) = 0) else None)"
  "last_write (w_nat fs i) j =
     (if xml (fld fs i) = ''natAddress'' \<and> j = i
      then Some (opt_sel (fld fs (i - 1)) = 0) else None)"
  "last_write (w_pcvlan fs i) j =
     (if xml (fld fs i) = ''pcPortVlanId'' \<and> j = i
      then Some (opt_sel (fld fs (i - 1)) \<noteq> 2) else None)"
  by (simp_all add: w_snmp_def w_nat_def w_pcvlan_def)

lemma fld_nth: "i < length fs \<Longrightarrow> fld fs (int i) = fs ! i"
  by (simp add: fld_def)

text \<open>
  A block whose eight entries no other rule assigns: no other head within reach, and none
  of the three tags of the remaining rules inside.
\<close>

lemma hidden_in_block:
  assumes key: "is_key (fs ! b)" and len: "b + 8 < length fs" and k: "1 \<le> k" "k \<le> 8"
    and alone: "\<And>i. i < length fs \<Longrightarrow> i \<noteq> b \<Longrightarrow> is_key (fs ! i) \<Longrightarrow> i + 7 < b \<or> b + 7 < i"
    and tags: "xml (fs ! (b + k)) \<notin> {''snmpCommunity'', ''natAddress'', ''pcPortVlanId''}"
  shows "hidden (update_visibility fs ! (b + k)) =
    (if k \<le> 2 then opt_sel (fs ! b) = 0 else opt_sel (fs ! b) \<noteq> 1)"
proof -
  let ?j = "int (b + k)"
  let ?v = "if k \<le> 2 then opt_sel (fs ! b) = 0 else opt_sel (fs ! b) \<noteq> 1"
  have fb: "fld fs (int b) = fs ! b"
    using len by (simp add: fld_nth)
  have at_b: "last_write (writes fs b) ?j = Some ?v"
    using key k
    by (simp add: writes_def last_write_append last_write_own last_write_w_key fb)
  have others: "last_write (writes fs i) ?j = None" if "i \<in> set [0..<length fs]" "i \<noteq> b" for i
  proof -
    have i: "i < length fs"
      using that by simp
    have "last_write (w_key fs (int i)) ?j = None"
      using alone [OF i that(2)] k by (auto simp add: last_write_w_key fld_nth [OF i])
    moreover have "last_write (w_snmp fs (int i)) ?j = None \<and>
      last_write (w_nat fs (int i)) ?j = None \<and> last_write (w_pcvlan fs (int i)) ?j = None"
    proof (cases "i = b + k")
      case True
      with tags fld_nth [OF i] show ?thesis
        by (simp add: last_write_own)
    next
      case False
      then have "?j \<noteq> int i"
        by linarith
      then show ?thesis
        by (simp add: last_write_own)
    qed
    ultimately show ?thesis
      by (simp add: writes_def last_write_append)
  qed
  have "b \<in> set [0..<length fs]"
    using len by simp
  then have "last_write (concat (map (writes fs) [0..<length fs])) ?j = Some ?v"
    using at_b others by (rule last_write_concat_only)
  moreover have "hidden (fld (update_visibility fs) ?j) =
      (case last_write (concat (map (writes fs) [0..<length fs])) ?j of
         Some h \<Rightarrow> h | None \<Rightarrow> hidden (fld fs ?j))"
    unfolding update_visibility_writes using len k by (intro hidden_apply_writes) simp_all
  moreover have "fld (update_visibility fs) ?j = update_visibility fs ! (b + k)"
    using len k by (intro fld_nth) simp
  ultimately show ?thesis
    by simp
qed

lemma key_rows:
  "[i \<leftarrow> [0..<105]. strstr (fst (form_table ! i)) ''Key Function''] = [66, 76, 86, 96]"
  by code_simp

lemma block_rows:
  "list_all
     (\<lambda>b. map (\<lambda>k. (fst (form_table ! (b + k)), fst (snd (form_table ! (b + k)))))
             [1, 2, 3, 4, 5, 6, 7, 8] =
           [(''Extension'', ''name''), (''Label'', ''displayName''), (''Auth ID'', ''authName''),
            (''SIP Password'', ''authPassword''), (''Auto Answer'', ''autoAnswerEnabled''),
            (''Forward All'', ''callForwardURI''), (''Pickup Group'', ''callPickupGroupURI''),
            (''Voicemail #'', ''voiceMailPilot'')])
     [66, 76, 86, 96]"
  by code_simp

lemma same_form_is_key:
  assumes "same_form fs" and "i < 105"
  shows "is_key (fs ! i) \<longleftrightarrow> i \<in> {66, 76, 86, 96}"
proof -
  have "is_key (fs ! i) \<longleftrightarrow> strstr (fst (form_table ! i)) ''Key Function''"
    using same_form_nth(1) [OF assms] by (simp add: is_key_def)
  also have "\<dots> \<longleftrightarrow> i \<in> set [i \<leftarrow> [0..<105]. strstr (fst (form_table ! i)) ''Key Function'']"
    using assms(2) by simp
  also have "\<dots> \<longleftrightarrow> i \<in> {66, 76, 86, 96}"
    by (simp only: key_rows) simp
  finally show ?thesis .
qed

lemma same_form_block:
  assumes "same_form fs" and "b \<in> {66, 76, 86, 96}"
  shows "map (\<lambda>k. (label (fs ! (b + k)), xml (fs ! (b + k)))) [1, 2, 3, 4, 5, 6, 7, 8] =
    [(''Extension'', ''name''), (''Label'', ''displayName''), (''Auth ID'', ''authName''),
     (''SIP Password'', ''authPassword''), (''Auto Answer'', ''autoAnswerEnabled''),
     (''Forward All'', ''callForwardURI''), (''Pickup Group'', ''callPickupGroupURI''),
     (''Voicemail #'', ''voiceMailPilot'')]"
proof -
  have row: "(label (fs ! (b + k)), xml (fs ! (b + k))) =
      (fst (form_table ! (b + k)), fst (snd (form_table ! (b + k))))" if "k \<le> 8" for k
    using same_form_nth(1,2) [OF assms(1), of "b + k"] assms(2) that by auto
  have "map (\<lambda>k. (label (fs ! (b + k)), xml (fs ! (b + k)))) [1, 2, 3, 4, 5, 6, 7, 8] =
      map (\<lambda>k. (fst (form_table ! (b + k)), fst (snd (form_table ! (b + k)))))
        [1, 2, 3, 4, 5, 6, 7, 8]"
  proof (rule map_cong [OF refl])
    fix k :: nat
    assume "k \<in> set [1, 2, 3, 4, 5, 6, 7, 8]"
    then have "k \<le> 8"
      by auto
    then show "(label (fs ! (b + k)), xml (fs ! (b + k))) =
        (fst (form_table ! (b + k)), fst (snd (form_table ! (b + k))))"
      by (rule row)
  qed
  also have "\<dots> = [(''Extension'', ''name''), (''Label'', ''displayName''), (''Auth ID'', ''authName''),
     (''SIP Password'', ''authPassword''), (''Auto Answer'', ''autoAnswerEnabled''),
     (''Forward All'', ''callForwardURI''), (''Pickup Group'', ''callPickupGroupURI''),
     (''Voicemail #'', ''voiceMailPilot'')]"
    using block_rows assms(2) unfolding list_all_iff by fastforce
  finally show ?thesis .
qed

lemma take8:
  assumes "b + 8 < length xs"
  shows "map f (take 8 (drop (b + 1) xs)) = map (\<lambda>k. f (xs ! (b + k))) [1, 2, 3, 4, 5, 6, 7, 8]"
proof -
  have "take 8 (drop (b + 1) xs) = map (\<lambda>k. xs ! (b + k)) [1..<9]"
    using assms by (auto simp add: list_eq_iff_nth_eq)
  moreover have "[1..<9] = [1, 2, 3, 4, 5, 6, 7, 8 :: nat]"
    by code_simp
  ultimately show ?thesis
    by (simp add: comp_def)
qed


text \<open>
  C7. A button is an entry whose label contains \<^verbatim>\<open>Key Function\<close>. In a registry of the
  program's form the eight entries after it are Extension, Label, Auth ID, SIP Password,
  Auto Answer, Forward All, Pickup Group and Voicemail, and after \<^verbatim>\<open>update_visibility\<close>
  all eight are hidden when the button's selection is 0 (Disabled), all eight are visible
  when it is 1 (Line), and otherwise (SpeedDial, BLF) the first two are visible and the
  other six hidden.
\<close>

theorem button_block_visibility:
  assumes "same_form fs" and "b < length fs" and "is_key (fs ! b)"
  shows "map label (take 8 (drop (b + 1) fs)) =
      [''Extension'', ''Label'', ''Auth ID'', ''SIP Password'', ''Auto Answer'',
       ''Forward All'', ''Pickup Group'', ''Voicemail #''] \<and>
    map hidden (take 8 (drop (b + 1) (update_visibility fs))) =
      (if opt_sel (fs ! b) = 0 then [True, True, True, True, True, True, True, True]
       else if opt_sel (fs ! b) = 1 then [False, False, False, False, False, False, False, False]
       else [False, False, True, True, True, True, True, True])"
proof -
  have len: "length fs = 105"
    using assms(1) by (rule same_form_length)
  have b: "b \<in> {66, 76, 86, 96}"
    using same_form_is_key [OF assms(1), of b] assms(2,3) len by simp
  then have len8: "b + 8 < length fs"
    using len by auto
  have block: "map (\<lambda>k. (label (fs ! (b + k)), xml (fs ! (b + k)))) [1, 2, 3, 4, 5, 6, 7, 8] =
    [(''Extension'', ''name''), (''Label'', ''displayName''), (''Auth ID'', ''authName''),
     (''SIP Password'', ''authPassword''), (''Auto Answer'', ''autoAnswerEnabled''),
     (''Forward All'', ''callForwardURI''), (''Pickup Group'', ''callPickupGroupURI''),
     (''Voicemail #'', ''voiceMailPilot'')]"
    using assms(1) b by (rule same_form_block)
  have "map label (take 8 (drop (b + 1) fs)) =
      map (\<lambda>k. label (fs ! (b + k))) [1, 2, 3, 4, 5, 6, 7, 8]"
    by (rule take8 [OF len8])
  also have "\<dots> =
      map fst (map (\<lambda>k. (label (fs ! (b + k)), xml (fs ! (b + k)))) [1, 2, 3, 4, 5, 6, 7, 8])"
    by (simp only: map_map comp_def fst_conv)
  also have "\<dots> = [''Extension'', ''Label'', ''Auth ID'', ''SIP Password'', ''Auto Answer'',
       ''Forward All'', ''Pickup Group'', ''Voicemail #'']"
    by (simp only: block) simp
  finally have labels: "map label (take 8 (drop (b + 1) fs)) =
      [''Extension'', ''Label'', ''Auth ID'', ''SIP Password'', ''Auto Answer'',
       ''Forward All'', ''Pickup Group'', ''Voicemail #'']" .
  have "map (\<lambda>k. xml (fs ! (b + k))) [1, 2, 3, 4, 5, 6, 7, 8] =
      map snd (map (\<lambda>k. (label (fs ! (b + k)), xml (fs ! (b + k)))) [1, 2, 3, 4, 5, 6, 7, 8])"
    by (simp only: map_map comp_def snd_conv)
  also have "\<dots> = [''name'', ''displayName'', ''authName'', ''authPassword'',
      ''autoAnswerEnabled'', ''callForwardURI'', ''callPickupGroupURI'', ''voiceMailPilot'']"
    by (simp only: block) simp
  finally have tags: "map (\<lambda>k. xml (fs ! (b + k))) [1, 2, 3, 4, 5, 6, 7, 8] =
      [''name'', ''displayName'', ''authName'', ''authPassword'', ''autoAnswerEnabled'',
       ''callForwardURI'', ''callPickupGroupURI'', ''voiceMailPilot'']" .
  have tag: "xml (fs ! (b + k)) \<notin> {''snmpCommunity'', ''natAddress'', ''pcPortVlanId''}"
    if "k \<in> set [1, 2, 3, 4, 5, 6, 7, 8]" for k
  proof -
    have "xml (fs ! (b + k)) \<in> set (map (\<lambda>k. xml (fs ! (b + k))) [1, 2, 3, 4, 5, 6, 7, 8])"
      unfolding set_map using that by (rule imageI)
    then have "xml (fs ! (b + k)) \<in> set [''name'', ''displayName'', ''authName'',
        ''authPassword'', ''autoAnswerEnabled'', ''callForwardURI'', ''callPickupGroupURI'',
        ''voiceMailPilot'']"
      by (simp only: tags)
    then show ?thesis
      by auto
  qed
  have alone: "i + 7 < b \<or> b + 7 < i" if "i < length fs" "i \<noteq> b" "is_key (fs ! i)" for i
    using same_form_is_key [OF assms(1), of i] that len b by auto
  have flag: "hidden (update_visibility fs ! (b + k)) =
      (if k \<le> 2 then opt_sel (fs ! b) = 0 else opt_sel (fs ! b) \<noteq> 1)"
    if "k \<in> set [1, 2, 3, 4, 5, 6, 7, 8]" for k
  proof (rule hidden_in_block [OF assms(3) len8 _ _ alone tag [OF that]])
    show "1 \<le> k" "k \<le> 8"
      using that by auto
  qed
  have "map hidden (take 8 (drop (b + 1) (update_visibility fs))) =
      map (\<lambda>k. hidden (update_visibility fs ! (b + k))) [1, 2, 3, 4, 5, 6, 7, 8]"
    using len8 by (intro take8) simp
  also have "\<dots> = map (\<lambda>k. if k \<le> 2 then opt_sel (fs ! b) = 0 else opt_sel (fs ! b) \<noteq> 1)
      [1, 2, 3, 4, 5, 6, 7, 8 :: nat]"
    by (rule map_cong [OF refl]) (rule flag)
  also have "\<dots> =
      (if opt_sel (fs ! b) = 0 then [True, True, True, True, True, True, True, True]
       else if opt_sel (fs ! b) = 1 then [False, False, False, False, False, False, False, False]
       else [False, False, True, True, True, True, True, True])"
    by simp
  finally show ?thesis
    using labels by (simp only: simp_thms)
qed


lemma key_entries:
  "opt_sel (init_fields ! 66) = 1" "opt_sel (init_fields ! 76) = 0"
proof -
  have "sig (init_fields ! 66) = form_table ! 66" "sig (init_fields ! 76) = form_table ! 76"
    by (rule sig_nth_init, simp)+
  then show "opt_sel (init_fields ! 66) = 1" "opt_sel (init_fields ! 76) = 0"
    by (simp_all add: sig_def form_table_def)
qed

theorem button_block_visibility_witness:
  "same_form init_fields \<and> 66 < length init_fields \<and> is_key (init_fields ! 66) \<and>
   map label (take 8 (drop 67 init_fields)) =
     [''Extension'', ''Label'', ''Auth ID'', ''SIP Password'', ''Auto Answer'',
      ''Forward All'', ''Pickup Group'', ''Voicemail #''] \<and>
   map hidden (take 8 (drop 67 (update_visibility init_fields))) =
     [False, False, False, False, False, False, False, False] \<and>
   76 < length init_fields \<and> is_key (init_fields ! 76) \<and>
   map hidden (take 8 (drop 77 (update_visibility init_fields))) =
     [True, True, True, True, True, True, True, True]"
proof -
  have form: "same_form init_fields"
    by (simp add: same_form_def)
  have len: "66 < length init_fields" "76 < length init_fields"
    by (simp_all add: length_init_fields)
  have key: "is_key (init_fields ! 66)" "is_key (init_fields ! 76)"
    using same_form_is_key [OF form] by simp_all
  show ?thesis
    using button_block_visibility [OF form len(1) key(1)]
      button_block_visibility [OF form len(2) key(2)] form len key
    by (simp add: key_entries)
qed

subsection \<open>Lookups in a registry of the program's form\<close>

lemma get_field_first:
  assumes "i < length fs" and "xml (fs ! i) = tag" and "\<And>j. j < i \<Longrightarrow> xml (fs ! j) \<noteq> tag"
  shows "get_field fs tag = Some (fs ! i)"
  unfolding get_field_def find_Some_iff using assms by blast

lemma get_field_none:
  assumes "\<And>j. j < length fs \<Longrightarrow> xml (fs ! j) \<noteq> tag"
  shows "get_field fs tag = None"
  unfolding get_field_def find_None_iff using assms by (metis in_set_conv_nth)

lemma same_form_get_field:
  assumes "same_form fs"
    and "find (\<lambda>i. fst (snd (form_table ! i)) = tag) [0..<105] = Some i"
  shows "get_field fs tag = Some (fs ! i)" and "i < 105"
proof -
  from assms(2) have i: "i < 105" and hit: "fst (snd (form_table ! i)) = tag"
    and first: "\<And>j. j < i \<Longrightarrow> fst (snd (form_table ! j)) \<noteq> tag"
    unfolding find_Some_iff by auto
  show "i < 105" by (rule i)
  show "get_field fs tag = Some (fs ! i)"
  proof (rule get_field_first)
    show "i < length fs"
      using i same_form_length [OF assms(1)] by simp
    show "xml (fs ! i) = tag"
      using same_form_nth(2) [OF assms(1) i] hit by simp
    show "xml (fs ! j) \<noteq> tag" if "j < i" for j
      using same_form_nth(2) [OF assms(1), of j] first [OF that] that i by simp
  qed
qed

lemma same_form_get_field_none:
  assumes "same_form fs"
    and "find (\<lambda>i. fst (snd (form_table ! i)) = tag) [0..<105] = None"
  shows "get_field fs tag = None"
proof (rule get_field_none)
  fix j
  assume "j < length fs"
  then have j: "j < 105"
    using same_form_length [OF assms(1)] by simp
  then have "fst (snd (form_table ! j)) \<noteq> tag"
    using assms(2) unfolding find_None_iff by simp
  then show "xml (fs ! j) \<noteq> tag"
    using same_form_nth(2) [OF assms(1) j] by simp
qed

lemma tag_rows:
  "find (\<lambda>i. fst (snd (form_table ! i)) = ''device'') [0..<105] = Some 1"
  "find (\<lambda>i. fst (snd (form_table ! i)) = ''voiceMailPilot'') [0..<105] = Some 74"
  "find (\<lambda>i. fst (snd (form_table ! i)) = ''ntpServer'') [0..<105] = Some 53"
  "find (\<lambda>i. fst (snd (form_table ! i)) = ''ntpServerAddr'') [0..<105] = None"
  "find (\<lambda>i. fst (snd (form_table ! i)) = ''natEnabled'') [0..<105] = Some 42"
  "find (\<lambda>i. fst (snd (form_table ! i)) = ''natAddress'') [0..<105] = Some 43"
  by code_simp+

lemma key_label:
  "list_all (\<lambda>i. fst (form_table ! i) = ''Key Function'') [66, 76, 86, 96]"
  by code_simp

subsection \<open>The stored MAC address\<close>

lemma hex_upper:
  "list_all (\<lambda>c. toupper c \<in> set HEX) ''0123456789abcdefABCDEF''"
  "list_all (\<lambda>c. isxdigit c \<and> toupper c = c) HEX"
  by code_simp+

lemma toupper_hex: "isxdigit c \<Longrightarrow> toupper c \<in> set HEX"
  using hex_upper(1) unfolding list_all_iff isxdigit_def by blast

lemma sanitize_mac_clean:
  assumes "sanitize_mac v = Inr m"
  shows "mac_clean m"
proof -
  have m: "m = take 12 (map toupper (filter isxdigit v))"
    using assms by (simp add: sanitize_mac_def sanitize_loop_filter Let_def split: if_splits)
  have "set (map toupper (filter isxdigit v)) \<subseteq> set HEX"
  proof
    fix x
    assume "x \<in> set (map toupper (filter isxdigit v))"
    then obtain c where "isxdigit c" and "x = toupper c"
      by auto
    then show "x \<in> set HEX"
      by (simp add: toupper_hex)
  qed
  then have "set m \<subseteq> set HEX"
    unfolding m by (rule subset_trans [OF set_take_subset])
  then show ?thesis
    by (simp add: mac_clean_def m)
qed

lemma mac_clean_fixed:
  assumes "mac_clean m"
  shows "sanitize_mac m = Inr m"
proof -
  have each: "isxdigit c \<and> toupper c = c" if "c \<in> set m" for c
    using that assms hex_upper(2) unfolding list_all_iff mac_clean_def by blast
  then have "filter isxdigit m = m"
    by (simp add: filter_id_conv)
  moreover have "map toupper m = m"
    using each by (simp add: map_idI)
  ultimately show ?thesis
    using assms by (simp add: sanitize_mac_def sanitize_loop_filter mac_clean_def)
qed

lemma sanitize_take_127: "\<exists>m. sanitize_mac (take 127 v) = Inr m"
proof -
  have "length (filter isxdigit (take 127 v)) \<le> length (take 127 v)"
    by (rule length_filter_le)
  then have "length (filter isxdigit (take 127 v)) \<le> 128"
    by simp
  then show ?thesis
    by (simp add: sanitize_mac_def sanitize_loop_filter)
qed

lemma mac_rows:
  "[i \<leftarrow> [0..<105]. strstr (fst (form_table ! i)) ''MAC''] = [1]"
  by code_simp

lemma same_form_mac_label:
  assumes "same_form fs" and "i < 105"
  shows "strstr (label (fs ! i)) ''MAC'' \<longleftrightarrow> i = 1"
proof -
  have "strstr (label (fs ! i)) ''MAC'' \<longleftrightarrow> strstr (fst (form_table ! i)) ''MAC''"
    using same_form_nth(1) [OF assms] by simp
  also have "\<dots> \<longleftrightarrow> i \<in> set [i \<leftarrow> [0..<105]. strstr (fst (form_table ! i)) ''MAC'']"
    using assms(2) by simp
  also have "\<dots> \<longleftrightarrow> i = 1"
    by (simp only: mac_rows) simp
  finally show ?thesis .
qed

lemma same_form_val_device:
  assumes "same_form fs"
  shows "val fs ''device'' = value (fs ! 1)"
  using same_form_get_field(1) [OF assms tag_rows(1)] by (simp add: val_def)

lemma value_update_visibility:
  assumes "i < length fs"
  shows "value (update_visibility fs ! i) = value (fs ! i)"
    and "opt_sel (update_visibility fs ! i) = opt_sel (fs ! i)"
proof -
  have "unhide (fld (update_visibility fs) (int i)) = unhide (fld fs (int i))"
    by (rule unhide_fld) (rule unhide_update_visibility)
  then have "unhide (update_visibility fs ! i) = unhide (fs ! i)"
    using assms by (simp add: fld_nth)
  then show "value (update_visibility fs ! i) = value (fs ! i)"
    and "opt_sel (update_visibility fs ! i) = opt_sel (fs ! i)"
    by (metis unhide_proj)+
qed

lemma show_text_input_eq:
  assumes "same_form fs" and "c < 105"
  shows "show_text_input v c fs =
    Inr (fs[c := (fs ! c)\<lparr>value :=
      if c = 1 then take 12 (map toupper (filter isxdigit (take 127 v))) else take 127 v\<rparr>])"
proof (cases "c = 1")
  case True
  obtain m where m: "sanitize_mac (take 127 v) = Inr m"
    using sanitize_take_127 by blast
  then have "m = take 12 (map toupper (filter isxdigit (take 127 v)))"
    by (simp add: sanitize_mac_def sanitize_loop_filter Let_def split: if_splits)
  with m True same_form_mac_label [OF assms] show ?thesis
    by (simp add: show_text_input_def Let_def)
next
  case False
  with same_form_mac_label [OF assms] show ?thesis
    by (simp add: show_text_input_def Let_def)
qed

lemma reachable_mac_clean: "reachable fs \<Longrightarrow> mac_clean (value (fs ! 1))"
proof (induction rule: reachable.induct)
  case start
  have "sig (init_fields ! 1) = form_table ! 1"
    by (rule sig_nth_init) simp
  then have "value (init_fields ! 1) = []"
    by (simp add: sig_def form_table_def)
  then show ?case
    by (simp add: mac_clean_def)
next
  case (popup fs c win_ok keys rc fs')
  have form: "same_form fs"
    using popup.hyps(1) by (rule reachable_same_form)
  have len: "length fs = 105"
    using form by (rule same_form_length)
  have "opt_count (fs ! 1) = fst (snd (snd (form_table ! 1)))"
    using form by (rule same_form_nth(3)) simp
  then have "opt_count (fs ! 1) = 0"
    by (simp add: form_table_def)
  with popup.hyps(3) have c: "c \<noteq> 1"
    by auto
  from show_popup_cases [OF popup.hyps(4)] have "value (fs' ! 1) = value (fs ! 1)"
    using c len by (auto simp add: value_update_visibility)
  with popup.IH show ?case
    by simp
next
  case (text_input fs c typed fs')
  have form: "same_form fs"
    using text_input.hyps(1) by (rule reachable_same_form)
  have len: "length fs = 105"
    using form by (rule same_form_length)
  then have c: "c < 105"
    using text_input.hyps(2) by simp
  have fs': "fs' = fs[c := (fs ! c)\<lparr>value :=
      if c = 1 then take 12 (map toupper (filter isxdigit (take 127 typed))) else take 127 typed\<rparr>]"
    using text_input.hyps(4) show_text_input_eq [OF form c, of typed] by simp
  show ?case
  proof (cases "c = 1")
    case True
    obtain m where m: "sanitize_mac (take 127 typed) = Inr m"
      using sanitize_take_127 by blast
    then have "m = take 12 (map toupper (filter isxdigit (take 127 typed)))"
      by (simp add: sanitize_mac_def sanitize_loop_filter Let_def split: if_splits)
    with sanitize_mac_clean [OF m] fs' True len show ?thesis
      by simp
  next
    case False
    with fs' len text_input.IH show ?thesis
      by simp
  qed
qed

subsection \<open>Steps of a session\<close>

lemma enter_text_eq:
  assumes "same_form fs" and "c < 105"
  shows "enter_text c v fs =
    fs[c := (fs ! c)\<lparr>value :=
      if c = 1 then take 12 (map toupper (filter isxdigit (take 127 v))) else take 127 v\<rparr>]"
  by (simp add: enter_text_def show_text_input_eq [OF assms])

lemma reachable_enter_text:
  assumes "reachable fs" and "c < 105" and "opt_count (fs ! c) = 0"
  shows "reachable (enter_text c v fs)"
proof -
  have form: "same_form fs"
    using assms(1) by (rule reachable_same_form)
  have eq: "show_text_input v c fs = Inr (enter_text c v fs)"
    by (simp add: enter_text_def show_text_input_eq [OF form assms(2)])
  have len: "c < length fs"
    using assms(2) same_form_length [OF form] by simp
  have no: "\<not> 0 < opt_count (fs ! c)"
    using assms(3) by simp
  show ?thesis
    using assms(1) len no eq by (rule reachable.text_input)
qed

lemma pick_eq:
  assumes "popup_loop (opt_count (fs ! c)) (opt_sel (fs ! c)) keys = Some (True, sel)"
  shows "pick c keys fs =
    update_visibility (fs[c := (fs ! c)\<lparr>opt_sel := sel, value := row (options (fs ! c)) sel\<rparr>])"
  using assms by (simp add: pick_def show_popup_def)

lemma reachable_pick:
  assumes "reachable fs" and "c < 105" and "0 < opt_count (fs ! c)"
  shows "reachable (pick c keys fs)"
proof (cases "show_popup True keys c fs")
  case None
  with assms(1) show ?thesis
    by (simp add: pick_def)
next
  case (Some r)
  obtain rc fs' where r: "show_popup True keys c fs = Some (rc, fs')"
    using Some by (cases r) simp
  have len: "c < length fs"
    using assms(2) same_form_length [OF reachable_same_form [OF assms(1)]] by simp
  have "reachable fs'"
    using assms(1) len assms(3) r by (rule reachable.popup)
  then show ?thesis
    using r by (simp add: pick_def)
qed

lemma nth_enter_text:
  assumes "same_form fs" and "c < 105" and "j < 105"
  shows "value (enter_text c v fs ! j) =
      (if j = c
       then if c = 1 then take 12 (map toupper (filter isxdigit (take 127 v))) else take 127 v
       else value (fs ! j))"
    and "opt_sel (enter_text c v fs ! j) = opt_sel (fs ! j)"
  using assms same_form_length [OF assms(1)]
  by (simp_all add: enter_text_eq [OF assms(1,2)] nth_list_update)

lemma nth_pick:
  assumes "popup_loop (opt_count (fs ! c)) (opt_sel (fs ! c)) keys = Some (True, sel)"
    and "c < length fs" and "j < length fs"
  shows "opt_sel (pick c keys fs ! j) = (if j = c then sel else opt_sel (fs ! j))"
    and "value (pick c keys fs ! j) = (if j = c then row (options (fs ! c)) sel else value (fs ! j))"
  using assms(2,3) by (simp_all add: pick_eq [OF assms(1)] value_update_visibility nth_list_update)

lemma mac_example:
  "take 12 (map toupper (filter isxdigit (take 127 ''00:07:a1-B2.c3d4''))) = ''0007A1B2C3D4''"
  by code_simp

lemma same_form_init_fields: "same_form init_fields"
  by (simp add: same_form_def)

lemma init_entry:
  assumes "j < 105"
  shows "opt_count (init_fields ! j) = fst (snd (snd (form_table ! j)))"
    and "opt_sel (init_fields ! j) = fst (snd (snd (snd (form_table ! j))))"
    and "value (init_fields ! j) = snd (snd (snd (snd (form_table ! j))))"
  using sig_nth_init [OF assms, symmetric] by (simp_all add: sig_def)

lemma mac_entered_facts:
  shows reachable_mac_entered: "reachable mac_entered"
    and same_form_mac_entered: "same_form mac_entered"
    and val_mac_entered: "val mac_entered ''device'' = ''0007A1B2C3D4''"
proof -
  have "opt_count (init_fields ! 1) = 0"
    by (simp add: init_entry form_table_def)
  then show r: "reachable mac_entered"
    unfolding mac_entered_def by (intro reachable_enter_text reachable.start) simp_all
  then show f: "same_form mac_entered"
    by (rule reachable_same_form)
  have "value (mac_entered ! 1) =
      (if (1::nat) = 1
       then if (1::nat) = 1
         then take 12 (map toupper (filter isxdigit (take 127 ''00:07:a1-B2.c3d4'')))
         else take 127 ''00:07:a1-B2.c3d4''
       else value (init_fields ! 1))"
    unfolding mac_entered_def by (rule nth_enter_text(1) [OF same_form_init_fields]) simp_all
  then have "value (mac_entered ! 1) = ''0007A1B2C3D4''"
    by (simp only: mac_example if_True refl)
  then show "val mac_entered ''device'' = ''0007A1B2C3D4''"
    by (simp add: same_form_val_device [OF f])
qed

lemma nth_mac_entered:
  assumes "j < 105" and "j \<noteq> 1"
  shows "value (mac_entered ! j) = snd (snd (snd (snd (form_table ! j))))"
    and "opt_sel (mac_entered ! j) = fst (snd (snd (snd (form_table ! j))))"
  using assms unfolding mac_entered_def
  by (simp_all add: nth_enter_text [OF same_form_init_fields] init_entry)

subsection \<open>The \<^verbatim>\<open>line\<close> tags of the document\<close>

lemma same_form_key_label:
  assumes "same_form fs" and "i < length fs" and "is_key (fs ! i)"
  shows "label (fs ! i) = ''Key Function''"
proof -
  have i: "i < 105"
    using assms(2) same_form_length [OF assms(1)] by simp
  then have "i \<in> set [66, 76, 86, 96]"
    using same_form_is_key [OF assms(1) i] assms(3) by simp
  then have "fst (form_table ! i) = ''Key Function''"
    using key_label unfolding list_all_iff by blast
  then show ?thesis
    using same_form_nth(1) [OF assms(1) i] by simp
qed

lemma line_open_line:
  assumes "LineOpen b \<in> set (xml_line fs i)"
  shows "is_key (fld fs (int i)) \<and> 0 < opt_sel (fld fs (int i)) \<and>
    b = int (of_char (label (fld fs (int i)) ! 1)) - int (of_char CHR ''0'')"
  using assms by (simp add: xml_line_def Let_def opt_elem_def is_key_def split: if_splits)

lemma line_open_blocks:
  "LineOpen b \<notin> set (xml_head fs)" "LineOpen b \<notin> set (xml_call_manager fs)"
  "LineOpen b \<notin> set (xml_date_time fs)" "LineOpen b \<notin> set (xml_sip_stack fs)"
  "LineOpen b \<notin> set (xml_locales fs)" "LineOpen b \<notin> set (xml_ethernet fs)"
  "LineOpen b \<notin> set (xml_vendor fs)" "LineOpen b \<notin> set (xml_tail fs)"
  by (simp_all add: xml_head_def xml_call_manager_def xml_date_time_def xml_sip_stack_def
      xml_locales_def xml_ethernet_def xml_vendor_def xml_tail_def xml_member_def opt_elem_def
      Let_def split: option.splits)


lemma xml_line_in_document: "i < length fs \<Longrightarrow> set (xml_line fs i) \<subseteq> set (xml_document fs)"
  by (auto simp add: xml_document_def xml_sip_lines_def)

lemma saved_file:
  assumes "length (val fs ''device'') = 12"
  shows "save_xml True \<lparr>registry = fs, files = F, message = m\<rparr> =
    \<lparr>registry = fs,
     files = F(''SEP'' @ val fs ''device'' @ ''.cnf.xml'' \<mapsto> render (xml_document fs)),
     message = ''SUCCESS: '' @ ''SEP'' @ val fs ''device'' @ ''.cnf.xml'' @ '' SAVED.''\<rparr>"
  using assms by (simp add: save_xml_def Let_def)

subsection \<open>The MAC check of \<^verbatim>\<open>save_xml\<close>\<close>

lemma mac_label_row: "fst (form_table ! 1) = ''MAC Address''"
  by (simp add: form_table_def)

text \<open>
  C4. In every registry of a session the value of the MAC Address field is sanitized
  already (sanitizing it again returns it, and it holds hexadecimal digits only), so the
  length test of \<^verbatim>\<open>save_xml\<close> is the test for exactly 12 hexadecimal characters. When it
  fails, \<^verbatim>\<open>save_xml\<close> only puts the error on the status line: no file is created or
  changed, and the registry is the one it was. When it passes, the check does not stand in
  the way: if the file can be opened the document is written under the name
  \<^verbatim>\<open>SEP<MAC>.cnf.xml\<close>, and else nothing happens.
\<close>

theorem mac_check:
  assumes "reachable fs"
  shows "label (fs ! 1) = ''MAC Address'' \<and> val fs ''device'' = value (fs ! 1) \<and>
    sanitize_mac (val fs ''device'') = Inr (val fs ''device'') \<and>
    set (val fs ''device'') \<subseteq> set HEX \<and>
    save_xml fopen_ok \<lparr>registry = fs, files = F, message = m\<rparr> =
      (if length (val fs ''device'') \<noteq> 12
       then \<lparr>registry = fs, files = F, message = ''ERR: MAC MUST BE 12 CHARS!''\<rparr>
       else if fopen_ok
         then \<lparr>registry = fs,
               files = F(''SEP'' @ val fs ''device'' @ ''.cnf.xml'' \<mapsto> render (xml_document fs)),
               message = ''SUCCESS: '' @ ''SEP'' @ val fs ''device'' @ ''.cnf.xml'' @ '' SAVED.''\<rparr>
         else \<lparr>registry = fs, files = F, message = m\<rparr>)"
proof -
  have form: "same_form fs"
    using assms by (rule reachable_same_form)
  have lbl: "label (fs ! 1) = ''MAC Address''"
    using same_form_nth(1) [OF form, of 1] by (simp only: mac_label_row)
  have dev: "val fs ''device'' = value (fs ! 1)"
    using form by (rule same_form_val_device)
  have clean: "mac_clean (val fs ''device'')"
    using reachable_mac_clean [OF assms] by (simp only: dev)
  then have fixed: "sanitize_mac (val fs ''device'') = Inr (val fs ''device'')"
    by (rule mac_clean_fixed)
  have hex: "set (val fs ''device'') \<subseteq> set HEX"
    using clean by (simp add: mac_clean_def)
  have save: "save_xml fopen_ok \<lparr>registry = fs, files = F, message = m\<rparr> =
      (if length (val fs ''device'') \<noteq> 12
       then \<lparr>registry = fs, files = F, message = ''ERR: MAC MUST BE 12 CHARS!''\<rparr>
       else if fopen_ok
         then \<lparr>registry = fs,
               files = F(''SEP'' @ val fs ''device'' @ ''.cnf.xml'' \<mapsto> render (xml_document fs)),
               message = ''SUCCESS: '' @ ''SEP'' @ val fs ''device'' @ ''.cnf.xml'' @ '' SAVED.''\<rparr>
         else \<lparr>registry = fs, files = F, message = m\<rparr>)"
    by (simp add: save_xml_def Let_def)
  from lbl dev fixed hex save show ?thesis
    by (intro conjI)
qed

theorem mac_check_witness:
  "reachable init_fields \<and>
   save_xml True \<lparr>registry = init_fields, files = Map.empty, message = []\<rparr> =
     \<lparr>registry = init_fields, files = Map.empty, message = ''ERR: MAC MUST BE 12 CHARS!''\<rparr> \<and>
   reachable mac_entered \<and>
   save_xml True \<lparr>registry = mac_entered, files = Map.empty, message = []\<rparr> =
     \<lparr>registry = mac_entered,
      files = [''SEP0007A1B2C3D4.cnf.xml'' \<mapsto> render (xml_document mac_entered)],
      message = ''SUCCESS: SEP0007A1B2C3D4.cnf.xml SAVED.''\<rparr>"
proof -
  have r0: "reachable init_fields"
    by (rule reachable.start)
  have "value (init_fields ! 1) = []"
    by (simp add: init_entry form_table_def)
  then have v0: "val init_fields ''device'' = []"
    by (simp add: same_form_val_device [OF same_form_init_fields])
  have s0: "save_xml True \<lparr>registry = init_fields, files = Map.empty, message = []\<rparr> =
     \<lparr>registry = init_fields, files = Map.empty, message = ''ERR: MAC MUST BE 12 CHARS!''\<rparr>"
    using mac_check [OF r0, of True Map.empty "[]"] by (simp add: v0)
  have s1: "save_xml True \<lparr>registry = mac_entered, files = Map.empty, message = []\<rparr> =
     \<lparr>registry = mac_entered,
      files = [''SEP0007A1B2C3D4.cnf.xml'' \<mapsto> render (xml_document mac_entered)],
      message = ''SUCCESS: SEP0007A1B2C3D4.cnf.xml SAVED.''\<rparr>"
    using mac_check [OF reachable_mac_entered, of True Map.empty "[]"]
    by (simp add: val_mac_entered)
  from r0 s0 reachable_mac_entered s1 show ?thesis
    by (intro conjI)
qed

subsection \<open>The contents of the document\<close>

lemma contents_append [simp]: "contents t (a @ b) = contents t a @ contents t b"
proof (induction a)
  case Nil
  show ?case by simp
next
  case (Cons x a)
  then show ?case by (cases x) auto
qed

lemma contents_opt_elem:
  "contents t (opt_elem n t' v) = (if t = t' \<and> v \<noteq> [] then [v] else [])"
  by (simp add: opt_elem_def)

lemma contents_concat_empty:
  "(\<And>x. x \<in> set xs \<Longrightarrow> contents t (f x) = []) \<Longrightarrow> contents t (concat (map f xs)) = []"
  by (induction xs) simp_all

lemma only_if_simps [simp]:
  "only_if c [] = []" "only_if True xs = xs" "only_if False xs = []"
  by (simp_all add: only_if_def)

lemma contents_only_if [simp]: "contents t (only_if c xs) = only_if c (contents t xs)"
  by (simp add: only_if_def)

lemma xml_call_manager_if:
  \<open>xml_call_manager fs =
     [Raw ''  <callManagerGroup>\<newline>    <members>\<newline>''] @
     xml_member ''0''
       (if val fs ''voipControlPort'' = [] then ''5060'' else val fs ''voipControlPort'')
       (val fs ''processNodeName1'') @
     only_if (val fs ''processNodeName2'' \<noteq> [])
       (xml_member ''1''
          (if val fs ''voipControlPort'' = [] then ''5060'' else val fs ''voipControlPort'')
          (val fs ''processNodeName2'')) @
     only_if (val fs ''processNodeName3'' \<noteq> [])
       (xml_member ''2''
          (if val fs ''voipControlPort'' = [] then ''5060'' else val fs ''voipControlPort'')
          (val fs ''processNodeName3'')) @
     [Raw ''    </members>\<newline>  </callManagerGroup>\<newline>'']\<close>
  by (simp add: xml_call_manager_def Let_def only_if_def)

lemma xml_sip_stack_if:
  \<open>xml_sip_stack fs =
     [Raw ''  <sipStack>\<newline>'',
      Elem 4 ''transportLayerProtocol'' (opt_val fs ''transportLayerProtocol'')] @
     only_if (is_on fs ''natEnabled'')
       [Elem 4 ''natEnabled'' ''true'', Elem 4 ''natAddress'' (val fs ''natAddress'')] @
     [Raw ''  </sipStack>\<newline>'']\<close>
  by (simp add: xml_sip_stack_def is_on_def only_if_def split: option.splits)

lemma xml_vendor_if:
  \<open>xml_vendor fs =
     [Raw ''  <vendorConfig>\<newline>'',
      Elem 4 ''settingsAccess'' (opt_val fs ''settingsAccess''),
      Elem 4 ''webAccess'' (opt_val fs ''webAccess''),
      Elem 4 ''sshAccess'' (opt_val fs ''sshAccess'')] @
     opt_elem 4 ''sshUserId'' (val fs ''sshUserId'') @
     opt_elem 4 ''sshPassword'' (val fs ''sshPassword'') @
     opt_elem 4 ''adminPassword'' (val fs ''adminPassword'') @
     [Elem 4 ''pcPort'' (opt_val fs ''pcPort''),
      Elem 4 ''pcVoiceVlanAccess'' (opt_val fs ''pcVoiceVlanAccess''),
      Elem 4 ''spanToPCPort'' (opt_val fs ''spanToPCPort''),
      Elem 4 ''gratuitousARP'' (opt_val fs ''gratuitousARP''),
      Elem 4 ''bluetooth'' (opt_val fs ''bluetooth''),
      Elem 4 ''bluetoothProfile'' (opt_val fs ''bluetoothProfile''),
      Elem 4 ''preferredCodec'' (opt_val fs ''preferredCodec''),
      Elem 4 ''advertiseG722Codec'' (opt_val fs ''advertiseG722Codec'')] @
     opt_elem 4 ''dscpForAudio'' (val fs ''dscpForAudio'') @
     only_if (val fs ''startMediaPort'' \<noteq> [])
       [Elem 4 ''startMediaPort'' (val fs ''startMediaPort''),
        Elem 4 ''stopMediaPort'' (val fs ''stopMediaPort'')] @
     [Elem 4 ''videoCapability'' (opt_val fs ''videoCapability''),
      Elem 4 ''autoTransmitVideo'' (opt_val fs ''autoTransmitVideo''),
      Elem 4 ''videoBitRate'' (opt_val fs ''videoBitRate'')] @
     opt_elem 4 ''dscpForVideo'' (val fs ''dscpForVideo'') @
     [Elem 4 ''rtcp'' (opt_val fs ''rtcp''),
      Elem 4 ''dndControl'' (opt_val fs ''dndControl''),
      Elem 4 ''dndCallAlert'' (opt_val fs ''dndCallAlert'')] @
     opt_elem 4 ''dndReminderTimer'' (val fs ''dndReminderTimer'') @
     only_if (is_on fs ''snmpEnabled'')
       [Elem 4 ''snmpEnable'' ''1'', Elem 4 ''snmpCommunity'' (val fs ''snmpCommunity'')] @
     opt_elem 4 ''syslogAddr'' (val fs ''syslogAddr'') @
     opt_elem 4 ''directoryURL'' (val fs ''directoryURL'') @
     opt_elem 4 ''servicesURL'' (val fs ''servicesURL'') @
     opt_elem 4 ''authenticationURL'' (val fs ''authenticationURL'') @
     opt_elem 4 ''informationURL'' (val fs ''informationURL'') @
     opt_elem 4 ''dialTemplate'' (val fs ''dialTemplate'') @
     opt_elem 4 ''softKeyFile'' (val fs ''softKeyFile'') @
     opt_elem 4 ''idleURL'' (val fs ''idleURL'') @
     opt_elem 4 ''idleTimeout'' (val fs ''idleTimeout'') @
     opt_elem 4 ''backgroundImage'' (val fs ''backgroundImage'') @
     [Raw ''  </vendorConfig>\<newline>'']\<close>
  by (simp add: xml_vendor_def is_on_def only_if_def split: option.splits)

lemma contents_member:
  "contents t (xml_member prio port node) =
   (if t = ''ethernetPhonePort'' then [port] else if t = ''processNodeName'' then [node] else [])"
  by (simp add: xml_member_def)

lemma contents_line_other:
  assumes "t \<notin> set line_tags"
  shows "contents t (xml_line fs i) = []"
  using assms by (simp add: xml_line_def line_tags_def Let_def contents_opt_elem)

lemma contents_sip_lines_other:
  assumes "t \<notin> set line_tags"
  shows "contents t (xml_sip_lines fs) = []"
  by (simp add: xml_sip_lines_def contents_concat_empty contents_line_other [OF assms])


lemmas document_blocks =
  xml_document_def xml_head_def xml_call_manager_if xml_date_time_def xml_sip_stack_if
  xml_locales_def xml_ethernet_def xml_vendor_if xml_tail_def contents_opt_elem
  contents_member contents_sip_lines_other line_tags_def

subsection \<open>The sessions used as examples\<close>

lemma popup_down_enter:
  "0 \<le> sel \<Longrightarrow> sel < n - 1 \<Longrightarrow> popup_loop n sel [KEY_DOWN, 10] = Some (True, sel + 1)"
  by (simp add: KEY_DOWN_def KEY_UP_def)

lemma same_form_step:
  assumes "same_form fs"
  shows "c < 105 \<Longrightarrow> same_form (enter_text c v fs)"
    and "same_form (pick c keys fs)"
proof -
  show "same_form (enter_text c v fs)" if "c < 105"
    by (simp add: enter_text_eq [OF assms that] same_form_value [OF assms])
  show "same_form (pick c keys fs)"
  proof (cases "show_popup True keys c fs")
    case None
    with assms show ?thesis
      by (simp add: pick_def)
  next
    case (Some r)
    obtain rc fs' where r: "show_popup True keys c fs = Some (rc, fs')"
      using Some by (cases r) simp
    from show_popup_cases [OF r] assms have "same_form fs'"
      by (auto simp add: same_form_popup)
    then show ?thesis
      using r by (simp add: pick_def)
  qed
qed

lemma ntp_entered_facts:
  shows "reachable ntp_entered" and "same_form ntp_entered"
    and "val ntp_entered ''device'' = ''0007A1B2C3D4''"
    and "value (ntp_entered ! 53) = ''pool.ntp.org''"
proof -
  have c: "opt_count (mac_entered ! 53) = 0"
    using same_form_nth(3) [OF same_form_mac_entered, of 53] by (simp add: form_table_def)
  show "reachable ntp_entered"
    unfolding ntp_entered_def using reachable_mac_entered _ c by (rule reachable_enter_text) simp
  then show f: "same_form ntp_entered"
    by (rule reachable_same_form)
  have "value (ntp_entered ! 1) = value (mac_entered ! 1)"
    unfolding ntp_entered_def by (simp add: nth_enter_text [OF same_form_mac_entered])
  then show "val ntp_entered ''device'' = ''0007A1B2C3D4''"
    using val_mac_entered
    by (simp add: same_form_val_device [OF f] same_form_val_device [OF same_form_mac_entered])
  have "take 127 ''pool.ntp.org'' = ''pool.ntp.org''"
    by simp
  then show "value (ntp_entered ! 53) = ''pool.ntp.org''"
    unfolding ntp_entered_def by (simp add: nth_enter_text [OF same_form_mac_entered])
qed

lemma nat_enabled_facts:
  shows "reachable nat_enabled" and "same_form nat_enabled"
    and "val nat_enabled ''device'' = ''0007A1B2C3D4''"
    and "opt_sel (nat_enabled ! 42) = 1" and "value (nat_enabled ! 43) = []"
proof -
  have len: "length mac_entered = 105"
    using same_form_mac_entered by (rule same_form_length)
  have c: "opt_count (mac_entered ! 42) = 2"
    using same_form_nth(3) [OF same_form_mac_entered, of 42] by (simp add: form_table_def)
  have s: "opt_sel (mac_entered ! 42) = 0"
    by (simp add: nth_mac_entered form_table_def)
  have loop: "popup_loop (opt_count (mac_entered ! 42)) (opt_sel (mac_entered ! 42))
      [KEY_DOWN, 10] = Some (True, 1)"
    unfolding c s using popup_down_enter [of 0 2] by simp
  show "reachable nat_enabled"
    unfolding nat_enabled_def using reachable_mac_entered by (rule reachable_pick) (simp_all add: c)
  then show f: "same_form nat_enabled"
    by (rule reachable_same_form)
  have "value (nat_enabled ! 1) = value (mac_entered ! 1)"
    unfolding nat_enabled_def using len by (simp add: nth_pick [OF loop])
  then show "val nat_enabled ''device'' = ''0007A1B2C3D4''"
    using val_mac_entered
    by (simp add: same_form_val_device [OF f] same_form_val_device [OF same_form_mac_entered])
  show "opt_sel (nat_enabled ! 42) = 1"
    unfolding nat_enabled_def using len by (simp add: nth_pick [OF loop])
  have "value (nat_enabled ! 43) = value (mac_entered ! 43)"
    unfolding nat_enabled_def using len by (simp add: nth_pick [OF loop])
  then show "value (nat_enabled ! 43) = []"
    by (simp add: nth_mac_entered form_table_def)
qed

lemma two_lines_facts:
  shows "reachable two_lines" and "same_form two_lines"
    and "val two_lines ''device'' = ''0007A1B2C3D4''"
    and "opt_sel (two_lines ! 76) = 1" and "opt_sel (two_lines ! 81) = 0"
    and "map (\<lambda>j. value (two_lines ! j)) [74, 77, 78, 79, 80, 82, 83, 84] =
      [''111'', [], [], [], [], [], [], ''222'']"
proof -
  let ?a = "pick 76 [KEY_DOWN, 10] mac_entered"
  let ?b = "enter_text 74 ''111'' ?a"
  have len: "length mac_entered = 105"
    using same_form_mac_entered by (rule same_form_length)
  have c: "opt_count (mac_entered ! 76) = 4"
    using same_form_nth(3) [OF same_form_mac_entered, of 76] by (simp add: form_table_def)
  have s: "opt_sel (mac_entered ! 76) = 0"
    by (simp add: nth_mac_entered form_table_def)
  have loop: "popup_loop (opt_count (mac_entered ! 76)) (opt_sel (mac_entered ! 76))
      [KEY_DOWN, 10] = Some (True, 1)"
    unfolding c s using popup_down_enter [of 0 4] by simp
  have ra: "reachable ?a"
    using reachable_mac_entered by (rule reachable_pick) (simp_all add: c)
  then have fa: "same_form ?a"
    by (rule reachable_same_form)
  have ca: "opt_count (?a ! 74) = 0"
    using same_form_nth(3) [OF fa, of 74] by (simp add: form_table_def)
  have rb: "reachable ?b"
    using ra _ ca by (rule reachable_enter_text) simp
  then have fb: "same_form ?b"
    by (rule reachable_same_form)
  have cb: "opt_count (?b ! 84) = 0"
    using same_form_nth(3) [OF fb, of 84] by (simp add: form_table_def)
  show r: "reachable two_lines"
    unfolding two_lines_def using rb _ cb by (rule reachable_enter_text) simp
  then show f: "same_form two_lines"
    by (rule reachable_same_form)
  have sel: "opt_sel (two_lines ! j) = (if j = 76 then 1 else opt_sel (mac_entered ! j))"
    if "j < 105" for j
    unfolding two_lines_def using that len
    by (simp add: nth_enter_text [OF fb] nth_enter_text [OF fa] nth_pick [OF loop])
  show "opt_sel (two_lines ! 76) = 1"
    by (simp add: sel)
  show "opt_sel (two_lines ! 81) = 0"
    by (simp add: sel nth_mac_entered form_table_def)
  have t: "take 127 ''111'' = ''111''" "take 127 ''222'' = ''222''"
    by simp_all
  have v: "value (two_lines ! j) =
      (if j = 84 then ''222'' else if j = 74 then ''111'' else value (mac_entered ! j))"
    if "j < 105" "j \<noteq> 76" for j
    unfolding two_lines_def using that len
    by (simp add: nth_enter_text [OF fb] nth_enter_text [OF fa] nth_pick [OF loop] t
        del: take_Cons_numeral)
  have "value (two_lines ! 1) = value (mac_entered ! 1)"
    by (simp add: v)
  then show "val two_lines ''device'' = ''0007A1B2C3D4''"
    using val_mac_entered
    by (simp add: same_form_val_device [OF f] same_form_val_device [OF same_form_mac_entered])
  show "map (\<lambda>j. value (two_lines ! j)) [74, 77, 78, 79, 80, 82, 83, 84] =
      [''111'', [], [], [], [], [], [], ''222'']"
    by (simp add: v nth_mac_entered form_table_def)
qed

subsection \<open>Encoded values in the examples\<close>

lemma same_form_xml_values:
  assumes "same_form fs" and "j < 105"
  shows "xml_values (fs ! j) = map xml_values init_fields ! j"
proof -
  have "frame (fs ! j) = frame (init_fields ! j)"
    using assms by (rule same_form_frame)
  then have "xml_values (fs ! j) = xml_values (init_fields ! j)"
    by (metis frame_proj(5))
  then show ?thesis
    using assms(2) length_init_fields by simp
qed

lemma same_form_opt_val:
  assumes "same_form fs"
    and "find (\<lambda>i. fst (snd (form_table ! i)) = tag) [0..<105] = Some j"
  shows "opt_val fs tag = row (map xml_values init_fields ! j) (opt_sel (fs ! j))"
  using same_form_get_field [OF assms] same_form_xml_values [OF assms(1), of j]
  by (simp add: opt_val_def)

lemma tag_rows_dropdown:
  "find (\<lambda>i. fst (snd (form_table ! i)) = ''transportLayerProtocol'') [0..<105] = Some 6"
  "find (\<lambda>i. fst (snd (form_table ! i)) = ''timeZone'') [0..<105] = Some 52"
  "find (\<lambda>i. fst (snd (form_table ! i)) = ''dateTemplate'') [0..<105] = Some 54"
  "find (\<lambda>i. fst (snd (form_table ! i)) = ''timeFormat'') [0..<105] = Some 55"
  by code_simp+

lemma encoded_rows:
  "row (copy_rows trans_vals 3) 0 = ''1''"
  "row (copy_rows tz_vals 58) 4 = ''Pacific Standard/Daylight Time''"
  "row (copy_rows date_vals 3) 0 = ''M/D/Y''"
  "row (copy_rows time_vals 2) 0 = ''12''"
  by code_simp+

lemma ntp_entered_dropdowns:
  "opt_val ntp_entered ''timeZone'' = ''Pacific Standard/Daylight Time''"
  "opt_val ntp_entered ''dateTemplate'' = ''M/D/Y''"
  "opt_val ntp_entered ''timeFormat'' = ''12''"
proof -
  have form: "same_form ntp_entered"
    by (rule ntp_entered_facts)
  have sel: "opt_sel (ntp_entered ! j) = fst (snd (snd (snd (form_table ! j))))"
    if "j < 105" "j \<noteq> 1" for j
    unfolding ntp_entered_def using that
    by (simp add: nth_enter_text [OF same_form_mac_entered] nth_mac_entered)
  have sels: "opt_sel (ntp_entered ! 52) = 4" "opt_sel (ntp_entered ! 54) = 0"
    "opt_sel (ntp_entered ! 55) = 0"
    by (simp_all add: sel form_table_def)
  show "opt_val ntp_entered ''timeZone'' = ''Pacific Standard/Daylight Time''"
    by (simp add: same_form_opt_val [OF form tag_rows_dropdown(2)] sels enc_init_fields
        encoded_rows)
  show "opt_val ntp_entered ''dateTemplate'' = ''M/D/Y''"
    by (simp add: same_form_opt_val [OF form tag_rows_dropdown(3)] sels enc_init_fields
        encoded_rows)
  show "opt_val ntp_entered ''timeFormat'' = ''12''"
    by (simp add: same_form_opt_val [OF form tag_rows_dropdown(4)] sels enc_init_fields
        encoded_rows)
qed


subsection \<open>The NTP server and the voicemail number\<close>

lemma ntp_rows:
  "fst (form_table ! 53) = ''NTP Server''" "fst (snd (form_table ! 53)) = ''ntpServer''"
  "fst (form_table ! 84) = ''Voicemail #''" "fst (form_table ! 74) = ''Voicemail #''"
  by (simp_all add: form_table_def)

lemma same_form_no_ntp_addr:
  assumes "same_form fs"
  shows "val fs ''ntpServerAddr'' = []"
  using same_form_get_field_none [OF assms tag_rows(4)] by (simp add: val_def)

text \<open>
  C1, at a registry where the claim fails. The operator has entered the MAC address and
  \<^verbatim>\<open>pool.ntp.org\<close> in the NTP Server field, whose tag is \<^verbatim>\<open>ntpServer\<close>. \<^verbatim>\<open>save_xml\<close>
  looks the value up under \<^verbatim>\<open>ntpServerAddr\<close>, a tag no field has, finds the empty string,
  and the document has no \<^verbatim>\<open>ntpServerAddr\<close> element. The rest of the date and time block
  is as the claim says; the last equation is the text of the block in the file.
\<close>

theorem ntp_server_never_written:
  \<open>label (ntp_entered ! 53) = ''NTP Server'' \<and> xml (ntp_entered ! 53) = ''ntpServer'' \<and>
   value (ntp_entered ! 53) = ''pool.ntp.org'' \<and>
   length (val ntp_entered ''device'') = 12 \<and>
   val ntp_entered ''ntpServerAddr'' = [] \<and>
   contents ''ntpServerAddr'' (xml_document ntp_entered) = [] \<and>
   xml_date_time ntp_entered =
     [Raw ''  <dateTimeSetting>\<newline>'',
      Elem 4 ''timeZone'' ''Pacific Standard/Daylight Time'',
      Elem 4 ''dateTemplate'' ''M/D/Y'', Elem 4 ''timeFormat'' ''12'',
      Raw ''  </dateTimeSetting>\<newline>''] \<and>
   render (xml_date_time ntp_entered) =
     ''  <dateTimeSetting>\<newline>'' @
     ''    <timeZone>Pacific Standard/Daylight Time</timeZone>\<newline>'' @
     ''    <dateTemplate>M/D/Y</dateTemplate>\<newline>'' @
     ''    <timeFormat>12</timeFormat>\<newline>'' @
     ''  </dateTimeSetting>\<newline>''\<close>
proof -
  have form: "same_form ntp_entered"
    by (rule ntp_entered_facts)
  have lbl: "label (ntp_entered ! 53) = ''NTP Server''"
    using same_form_nth(1) [OF form, of 53] by (simp only: ntp_rows)
  have tag: "xml (ntp_entered ! 53) = ''ntpServer''"
    using same_form_nth(2) [OF form, of 53] by (simp only: ntp_rows)
  have v: "value (ntp_entered ! 53) = ''pool.ntp.org''"
    by (rule ntp_entered_facts)
  have mac: "length (val ntp_entered ''device'') = 12"
    by (simp add: ntp_entered_facts)
  have none: "val ntp_entered ''ntpServerAddr'' = []"
    using form by (rule same_form_no_ntp_addr)
  have block: \<open>xml_date_time ntp_entered =
     [Raw ''  <dateTimeSetting>\<newline>'',
      Elem 4 ''timeZone'' ''Pacific Standard/Daylight Time'',
      Elem 4 ''dateTemplate'' ''M/D/Y'', Elem 4 ''timeFormat'' ''12'',
      Raw ''  </dateTimeSetting>\<newline>'']\<close>
    by (simp add: xml_date_time_def none opt_elem_def ntp_entered_dropdowns)
  have \<open>render
     [Raw ''  <dateTimeSetting>\<newline>'',
      Elem 4 ''timeZone'' ''Pacific Standard/Daylight Time'',
      Elem 4 ''dateTemplate'' ''M/D/Y'', Elem 4 ''timeFormat'' ''12'',
      Raw ''  </dateTimeSetting>\<newline>''] =
     ''  <dateTimeSetting>\<newline>'' @
     ''    <timeZone>Pacific Standard/Daylight Time</timeZone>\<newline>'' @
     ''    <dateTemplate>M/D/Y</dateTemplate>\<newline>'' @
     ''    <timeFormat>12</timeFormat>\<newline>'' @
     ''  </dateTimeSetting>\<newline>''\<close>
    by code_simp
  then have shown: \<open>render (xml_date_time ntp_entered) =
     ''  <dateTimeSetting>\<newline>'' @
     ''    <timeZone>Pacific Standard/Daylight Time</timeZone>\<newline>'' @
     ''    <dateTemplate>M/D/Y</dateTemplate>\<newline>'' @
     ''    <timeFormat>12</timeFormat>\<newline>'' @
     ''  </dateTimeSetting>\<newline>''\<close>
    by (simp only: block)
  have doc: "contents ''ntpServerAddr'' (xml_document ntp_entered) = []"
    by (simp add: document_blocks none)
  from lbl tag v mac none doc block shown show ?thesis
    by (intro conjI)
qed

lemma same_form_voicemail:
  assumes "same_form fs"
  shows "val fs ''voiceMailPilot'' = value (fs ! 74)"
  using same_form_get_field(1) [OF assms tag_rows(2)] by (simp add: val_def)

text \<open>
  C3, at a registry where the claim fails. The second button is a Line, the voicemail
  number of the first button is \<^verbatim>\<open>111\<close> and that of the second is \<^verbatim>\<open>222\<close>. The block of
  the second button carries \<^verbatim>\<open>111\<close>: \<^verbatim>\<open>save_xml\<close> looks the number up by its tag, which
  finds the field of the first button, and not at offset 8 from the button.
\<close>

theorem voicemail_of_first_button:
  \<open>is_key (two_lines ! 76) \<and> opt_sel (two_lines ! 76) = 1 \<and>
   label (two_lines ! 84) = ''Voicemail #'' \<and> value (two_lines ! 84) = ''222'' \<and>
   label (two_lines ! 74) = ''Voicemail #'' \<and> value (two_lines ! 74) = ''111'' \<and>
   length (val two_lines ''device'') = 12 \<and>
   contents ''voiceMailPilot'' (xml_line two_lines 76) = [''111''] \<and>
   xml_line two_lines 76 =
     [LineOpen 53, Elem 6 ''featureID'' ''9'', Elem 6 ''name'' [], Elem 6 ''displayName'' [],
      Elem 6 ''authName'' [], Elem 6 ''authPassword'' [], Elem 6 ''voiceMailPilot'' ''111'',
      Raw ''    </line>\<newline>''] \<and>
   render (xml_line two_lines 76) =
     ''    <line button="53">\<newline>'' @
     ''      <featureID>9</featureID>\<newline>'' @
     ''      <name></name>\<newline>'' @
     ''      <displayName></displayName>\<newline>'' @
     ''      <authName></authName>\<newline>'' @
     ''      <authPassword></authPassword>\<newline>'' @
     ''      <voiceMailPilot>111</voiceMailPilot>\<newline>'' @
     ''    </line>\<newline>''\<close>
proof -
  have form: "same_form two_lines"
    by (rule two_lines_facts)
  have len: "length two_lines = 105"
    using form by (rule same_form_length)
  have key: "is_key (two_lines ! 76)"
    using same_form_is_key [OF form, of 76] by simp
  have sel: "opt_sel (two_lines ! 76) = 1"
    by (rule two_lines_facts)
  have l84: "label (two_lines ! 84) = ''Voicemail #''"
    using same_form_nth(1) [OF form, of 84] by (simp only: ntp_rows)
  have l74: "label (two_lines ! 74) = ''Voicemail #''"
    using same_form_nth(1) [OF form, of 74] by (simp only: ntp_rows)
  have vals: "value (two_lines ! 74) = ''111''" "value (two_lines ! 77) = []"
    "value (two_lines ! 78) = []" "value (two_lines ! 79) = []" "value (two_lines ! 80) = []"
    "value (two_lines ! 82) = []" "value (two_lines ! 83) = []" "value (two_lines ! 84) = ''222''"
    using two_lines_facts(6) by simp_all
  have mac: "length (val two_lines ''device'') = 12"
    by (simp add: two_lines_facts)
  have vm: "val two_lines ''voiceMailPilot'' = ''111''"
    by (simp add: same_form_voicemail [OF form] vals)
  have lbl: "label (two_lines ! 76) = ''Key Function''"
    using form _ key by (rule same_form_key_label) (simp add: len)
  have flds: "fld two_lines (int 76) = two_lines ! 76" "fld two_lines (int 76 + 1) = two_lines ! 77"
    "fld two_lines (int 76 + 2) = two_lines ! 78" "fld two_lines (int 76 + 3) = two_lines ! 79"
    "fld two_lines (int 76 + 4) = two_lines ! 80" "fld two_lines (int 76 + 5) = two_lines ! 81"
    "fld two_lines (int 76 + 6) = two_lines ! 82" "fld two_lines (int 76 + 7) = two_lines ! 83"
    by (simp_all add: fld_def len)
  have line: \<open>xml_line two_lines 76 =
     [LineOpen 53, Elem 6 ''featureID'' ''9'', Elem 6 ''name'' [], Elem 6 ''displayName'' [],
      Elem 6 ''authName'' [], Elem 6 ''authPassword'' [], Elem 6 ''voiceMailPilot'' ''111'',
      Raw ''    </line>\<newline>'']\<close>
    unfolding xml_line_def flds Let_def
    by (simp add: lbl sel vals vm two_lines_facts(5) opt_elem_def)
  have c: "contents ''voiceMailPilot'' (xml_line two_lines 76) = [''111'']"
    by (simp only: line) simp
  have \<open>render
     [LineOpen 53, Elem 6 ''featureID'' ''9'', Elem 6 ''name'' [], Elem 6 ''displayName'' [],
      Elem 6 ''authName'' [], Elem 6 ''authPassword'' [], Elem 6 ''voiceMailPilot'' ''111'',
      Raw ''    </line>\<newline>''] =
     ''    <line button="53">\<newline>'' @
     ''      <featureID>9</featureID>\<newline>'' @
     ''      <name></name>\<newline>'' @
     ''      <displayName></displayName>\<newline>'' @
     ''      <authName></authName>\<newline>'' @
     ''      <authPassword></authPassword>\<newline>'' @
     ''      <voiceMailPilot>111</voiceMailPilot>\<newline>'' @
     ''    </line>\<newline>''\<close>
    by code_simp
  then have shown: \<open>render (xml_line two_lines 76) =
     ''    <line button="53">\<newline>'' @
     ''      <featureID>9</featureID>\<newline>'' @
     ''      <name></name>\<newline>'' @
     ''      <displayName></displayName>\<newline>'' @
     ''      <authName></authName>\<newline>'' @
     ''      <authPassword></authPassword>\<newline>'' @
     ''      <voiceMailPilot>111</voiceMailPilot>\<newline>'' @
     ''    </line>\<newline>''\<close>
    by (simp only: line)
  from key sel l84 vals(8) l74 vals(1) mac c line shown show ?thesis
    by (intro conjI)
qed

subsection \<open>Lookups in a registry of a session\<close>

lemma count_rows: "list_all (\<lambda>r. fst (snd (snd r)) \<le> 100) form_table"
  by (simp add: form_table_def)

lemma reachable_row_index:
  assumes "reachable fs" and "i < length fs"
  shows "0 \<le> opt_sel (fs ! i)" and "opt_sel (fs ! i) < 100"
    and "0 < opt_count (fs ! i) \<Longrightarrow> nat (opt_sel (fs ! i)) < length (xml_values (fs ! i))"
    and "\<not> 0 < opt_count (fs ! i) \<Longrightarrow> xml_values (fs ! i) = []"
proof -
  have form: "same_form fs"
    using assms(1) by (rule reachable_same_form)
  have i: "i < 105"
    using assms(2) same_form_length [OF form] by simp
  have sel: "sel_ok (fs ! i)"
    using reachable_sel_ok [OF assms(1)] assms(2) by (simp add: list_all_length)
  have "table_ok (fs ! i)"
    using same_form_table_ok [OF form] assms(2) by (simp add: list_all_length)
  then have tab: "opt_count (fs ! i) = int (length (xml_values (fs ! i)))"
    by (simp add: table_ok_def)
  have "fst (snd (snd (form_table ! i))) \<le> 100"
    using count_rows i by (simp add: list_all_length length_form_table)
  then have count: "opt_count (fs ! i) \<le> 100"
    using same_form_nth(3) [OF form i] by simp
  show "0 \<le> opt_sel (fs ! i)" and "opt_sel (fs ! i) < 100"
    using sel count by (simp_all add: sel_ok_def split: if_splits)
  show "nat (opt_sel (fs ! i)) < length (xml_values (fs ! i))" if "0 < opt_count (fs ! i)"
    using sel tab that by (simp add: sel_ok_def) linarith
  show "xml_values (fs ! i) = []" if "\<not> 0 < opt_count (fs ! i)"
    using tab that by simp
qed

text \<open>
  C5. In every registry of a session, for every key: when \<open>i\<close> is the first index, in
  registry order, of an entry whose tag is the key, \<^verbatim>\<open>get_field\<close> returns that entry,
  \<^verbatim>\<open>val\<close> its raw value, and \<^verbatim>\<open>opt_val\<close> reads row \<^verbatim>\<open>opt_sel\<close> of its table
  \<^verbatim>\<open>xml_values\<close>, an index inside the 100 rows of the array: for a dropdown (an entry with
  options) the row is one of the initialised ones and \<^verbatim>\<open>opt_val\<close> returns the encoded value
  of the selected option; for an entry without options it returns the empty string. When
  no entry has the key, \<^verbatim>\<open>get_field\<close> returns \<^verbatim>\<open>NULL\<close> and both lookups return the empty
  string.
\<close>

theorem lookup_first_match:
  assumes "reachable fs"
  shows "(\<forall>i<length fs. xml (fs ! i) = tag \<and> (\<forall>j<i. xml (fs ! j) \<noteq> tag) \<longrightarrow>
      get_field fs tag = Some (fs ! i) \<and>
      val fs tag = value (fs ! i) \<and>
      0 \<le> opt_sel (fs ! i) \<and> opt_sel (fs ! i) < 100 \<and>
      (0 < opt_count (fs ! i) \<longrightarrow> nat (opt_sel (fs ! i)) < length (xml_values (fs ! i))) \<and>
      opt_val fs tag =
        (if 0 < opt_count (fs ! i) then xml_values (fs ! i) ! nat (opt_sel (fs ! i)) else [])) \<and>
    ((\<forall>i<length fs. xml (fs ! i) \<noteq> tag) \<longrightarrow>
      get_field fs tag = None \<and> val fs tag = [] \<and> opt_val fs tag = [])"
proof (intro conjI allI impI)
  fix i
  assume i: "i < length fs" and "xml (fs ! i) = tag \<and> (\<forall>j<i. xml (fs ! j) \<noteq> tag)"
  then have hit: "xml (fs ! i) = tag" and first: "\<And>j. j < i \<Longrightarrow> xml (fs ! j) \<noteq> tag"
    by simp_all
  note index = reachable_row_index [OF assms i]
  show found: "get_field fs tag = Some (fs ! i)"
    using i hit first by (rule get_field_first)
  show "val fs tag = value (fs ! i)"
    by (simp add: val_def found)
  show "0 \<le> opt_sel (fs ! i)" and "opt_sel (fs ! i) < 100"
    by (rule index)+
  show "nat (opt_sel (fs ! i)) < length (xml_values (fs ! i))" if "0 < opt_count (fs ! i)"
    using that by (rule index)
  show "opt_val fs tag =
      (if 0 < opt_count (fs ! i) then xml_values (fs ! i) ! nat (opt_sel (fs ! i)) else [])"
    using index by (simp add: opt_val_def found row_def)
next
  assume "\<forall>i<length fs. xml (fs ! i) \<noteq> tag"
  then have none: "get_field fs tag = None"
    by (intro get_field_none) simp
  show "get_field fs tag = None"
    by (rule none)
  show "val fs tag = []"
    by (simp add: val_def none)
  show "opt_val fs tag = []"
    by (simp add: opt_val_def none)
qed

lemma tag_rows_more:
  "fst (snd (form_table ! 74)) = ''voiceMailPilot''"
  "fst (snd (form_table ! 84)) = ''voiceMailPilot''"
  "list_all (\<lambda>i. fst (snd (form_table ! i)) \<noteq> ''voiceMailPilot'') [0..<74]"
  "list_all (\<lambda>i. fst (snd (form_table ! i)) \<noteq> ''ntpServerAddr'') [0..<105]"
  "fst (snd (snd (form_table ! 42))) = 2" "fst (snd (snd (form_table ! 74))) = 0"
  "fst (snd (form_table ! 42)) = ''natEnabled''"
  "list_all (\<lambda>i. fst (snd (form_table ! i)) \<noteq> ''natEnabled'') [0..<42]"
  by code_simp+

lemma nat_enabled_rows: "map xml_values init_fields ! 42 = [''false'', ''true'']"
proof -
  have "copy_rows no_yes_val 2 = [''false'', ''true'']"
    by code_simp
  then show ?thesis
    by (simp add: enc_init_fields)
qed

theorem lookup_first_match_witness:
  "reachable two_lines \<and> 74 < length two_lines \<and>
   xml (two_lines ! 74) = ''voiceMailPilot'' \<and> value (two_lines ! 74) = ''111'' \<and>
   xml (two_lines ! 84) = ''voiceMailPilot'' \<and> value (two_lines ! 84) = ''222'' \<and>
   get_field two_lines ''voiceMailPilot'' = Some (two_lines ! 74) \<and>
   val two_lines ''voiceMailPilot'' = ''111'' \<and> opt_val two_lines ''voiceMailPilot'' = [] \<and>
   get_field two_lines ''ntpServerAddr'' = None \<and> val two_lines ''ntpServerAddr'' = [] \<and>
   opt_val two_lines ''ntpServerAddr'' = [] \<and>
   reachable nat_enabled \<and> 42 < length nat_enabled \<and>
   xml (nat_enabled ! 42) = ''natEnabled'' \<and> opt_sel (nat_enabled ! 42) = 1 \<and>
   xml_values (nat_enabled ! 42) = [''false'', ''true''] \<and>
   get_field nat_enabled ''natEnabled'' = Some (nat_enabled ! 42) \<and>
   opt_val nat_enabled ''natEnabled'' = ''true''"
proof -
  have r: "reachable two_lines" and form: "same_form two_lines"
    by (rule two_lines_facts)+
  have len: "length two_lines = 105"
    using form by (rule same_form_length)
  have tag: "xml (two_lines ! j) = fst (snd (form_table ! j))" if "j < 105" for j
    using form that by (rule same_form_nth)
  have vals: "value (two_lines ! 74) = ''111''" "value (two_lines ! 84) = ''222''"
    using two_lines_facts(6) by simp_all
  have t74: "xml (two_lines ! 74) = ''voiceMailPilot''"
    and t84: "xml (two_lines ! 84) = ''voiceMailPilot''"
    by (simp_all add: tag tag_rows_more)
  have first74: "\<forall>j<74. xml (two_lines ! j) \<noteq> ''voiceMailPilot''"
    using tag_rows_more(3) by (simp add: tag list_all_iff)
  have c74: "opt_count (two_lines ! 74) = 0"
    using same_form_nth(3) [OF form, of 74] by (simp add: tag_rows_more)
  from lookup_first_match [OF r, of "''voiceMailPilot''"] t74 first74 len
  have vm: "get_field two_lines ''voiceMailPilot'' = Some (two_lines ! 74)"
    "val two_lines ''voiceMailPilot'' = value (two_lines ! 74)"
    "opt_val two_lines ''voiceMailPilot'' =
      (if 0 < opt_count (two_lines ! 74)
       then xml_values (two_lines ! 74) ! nat (opt_sel (two_lines ! 74)) else [])"
    by simp_all
  have absent: "\<forall>i<length two_lines. xml (two_lines ! i) \<noteq> ''ntpServerAddr''"
    using tag_rows_more(4) by (simp add: tag len list_all_iff)
  from lookup_first_match [OF r, of "''ntpServerAddr''"] absent
  have no: "get_field two_lines ''ntpServerAddr'' = None" "val two_lines ''ntpServerAddr'' = []"
    "opt_val two_lines ''ntpServerAddr'' = []"
    by simp_all
  have r': "reachable nat_enabled" and form': "same_form nat_enabled"
    by (rule nat_enabled_facts)+
  have len': "length nat_enabled = 105"
    using form' by (rule same_form_length)
  have found: "get_field nat_enabled ''natEnabled'' = Some (nat_enabled ! 42)"
    using form' tag_rows(5) by (rule same_form_get_field)
  have tag': "xml (nat_enabled ! j) = fst (snd (form_table ! j))" if "j < 105" for j
    using form' that by (rule same_form_nth)
  have t42: "xml (nat_enabled ! 42) = ''natEnabled''"
    by (simp add: tag' tag_rows_more)
  have first42: "\<forall>j<42. xml (nat_enabled ! j) \<noteq> ''natEnabled''"
    using tag_rows_more(8) by (simp add: tag' list_all_iff)
  have c42: "opt_count (nat_enabled ! 42) = 2"
    using same_form_nth(3) [OF form', of 42] by (simp add: tag_rows_more)
  have s42: "opt_sel (nat_enabled ! 42) = 1"
    by (rule nat_enabled_facts)
  have x42: "xml_values (nat_enabled ! 42) = [''false'', ''true'']"
    using same_form_xml_values [OF form', of 42] by (simp add: nat_enabled_rows)
  from lookup_first_match [OF r', of "''natEnabled''"] t42 first42 len'
  have "opt_val nat_enabled ''natEnabled'' =
      (if 0 < opt_count (nat_enabled ! 42)
       then xml_values (nat_enabled ! 42) ! nat (opt_sel (nat_enabled ! 42)) else [])"
    by simp
  then have on: "opt_val nat_enabled ''natEnabled'' = ''true''"
    by (simp add: c42 s42 x42)
  from r len t74 vals(1) t84 vals(2) vm(1) vm(2) vm(3) no r' len' t42 s42 x42 found on
  show ?thesis
    by (simp add: c74)
qed

subsection \<open>Reading the file back\<close>

lemma text_lines_empty: "text_lines s = [] \<longleftrightarrow> s = []"
  by (cases s) (simp_all split: list.splits)

lemma text_lines_line:
  assumes \<open>CHR ''\<newline>'' \<notin> set l\<close>
  shows \<open>text_lines (l @ CHR ''\<newline>'' # r) = l # text_lines r\<close>
  using assms by (induction l) auto

lemma text_lines_append:
  assumes \<open>a = [] \<or> last a = CHR ''\<newline>''\<close>
  shows "text_lines (a @ b) = text_lines a @ text_lines b"
  using assms
proof (induction a)
  case Nil
  show ?case by simp
next
  case (Cons c cs)
  show ?case
  proof (cases \<open>c = CHR ''\<newline>''\<close>)
    case True
    have \<open>cs = [] \<or> last cs = CHR ''\<newline>''\<close>
      using Cons.prems by (cases cs) simp_all
    then show ?thesis
      using True Cons.IH by simp
  next
    case False
    then have cs: "cs \<noteq> []" and \<open>last cs = CHR ''\<newline>''\<close>
      using Cons.prems by (auto split: if_splits)
    then have IH: "text_lines (cs @ b) = text_lines cs @ text_lines b"
      using Cons.IH by simp
    obtain l ls where l: "text_lines cs = l # ls"
      using cs text_lines_empty [of cs] by (cases "text_lines cs") simp_all
    show ?thesis
      using False by (simp add: IH l)
  qed
qed

lemma read_append:
  assumes \<open>a = [] \<or> last a = CHR ''\<newline>''\<close>
  shows "elements (a @ b) = elements a @ elements b"
    and "text_contents t (a @ b) = text_contents t a @ text_contents t b"
    and "line_openings (a @ b) = line_openings a @ line_openings b"
  by (simp_all add: elements_def text_contents_def line_openings_def
      text_lines_append [OF assms] List.map_filter_def)

lemma element_line_elem:
  assumes \<open>CHR ''>'' \<notin> set t\<close>
  shows \<open>element_line (replicate n CHR '' '' @ ''<'' @ t @ ''>'' @ v @ ''</'' @ t @ ''>'') =
    Some (t, v)\<close>
proof -
  have s: \<open>dropWhile (\<lambda>c. c = CHR '' '')
      (replicate n CHR '' '' @ ''<'' @ t @ ''>'' @ v @ ''</'' @ t @ ''>'') =
    ''<'' @ t @ ''>'' @ v @ ''</'' @ t @ ''>''\<close>
    by (induction n) simp_all
  have t: \<open>takeWhile (\<lambda>c. c \<noteq> CHR ''>'') (t @ CHR ''>'' # r) = t\<close> for r
    using assms by (induction t) auto
  show ?thesis
    unfolding element_line_def s by (simp add: t Let_def)
qed

lemma opening_elem:
  assumes \<open>CHR '' '' \<notin> set t\<close>
  shows \<open>take 6 (dropWhile (\<lambda>c. c = CHR '' '')
      (replicate n CHR '' '' @ ''<'' @ t @ ''>'' @ r)) \<noteq> ''<line ''\<close>
proof -
  have s: \<open>dropWhile (\<lambda>c. c = CHR '' '') (replicate n CHR '' '' @ ''<'' @ t @ ''>'' @ r) =
    ''<'' @ t @ ''>'' @ r\<close>
    by (induction n) simp_all
  have \<open>take 5 (t @ ''>'' @ r) \<noteq> ''line ''\<close>
  proof
    assume eq: \<open>take 5 (t @ ''>'' @ r) = ''line ''\<close>
    show False
    proof (cases "length t < 5")
      case True
      then have \<open>take 5 (t @ ''>'' @ r) ! length t = CHR ''>''\<close>
        by (simp add: nth_append)
      moreover have \<open>''line '' ! length t \<noteq> CHR ''>''\<close>
        using True by (cases t rule: list.exhaust [case_product list.exhaust])
          (auto simp add: nth_Cons' less_Suc_eq)
      ultimately show False
        using eq by simp
    next
      case False
      then have "take 5 (t @ ''>'' @ r) = take 5 t"
        by simp
      then have \<open>CHR '' '' \<in> set (take 5 t)\<close>
        using eq by simp
      then show False
        using assms by (meson in_set_takeD)
    qed
  qed
  then show ?thesis
    unfolding s by simp
qed

lemma item_ok_elem:
  assumes "item_ok (Elem n t v)"
  shows \<open>text_lines (render_item (Elem n t v)) =
      [replicate n CHR '' '' @ ''<'' @ t @ ''>'' @ v @ ''</'' @ t @ ''>'']\<close>
    and "elements (render_item (Elem n t v)) = [(t, v)]"
    and "line_openings (render_item (Elem n t v)) = []"
proof -
  let ?l = \<open>replicate n CHR '' '' @ ''<'' @ t @ ''>'' @ v @ ''</'' @ t @ ''>''\<close>
  have \<open>CHR ''\<newline>'' \<notin> set ?l\<close>
    using assms by auto
  from text_lines_line [OF this, of "[]"]
  show l: \<open>text_lines (render_item (Elem n t v)) = [?l]\<close>
    by simp
  have \<open>CHR ''>'' \<notin> set t\<close>
    using assms by simp
  then have "element_line ?l = Some (t, v)"
    by (rule element_line_elem)
  then show "elements (render_item (Elem n t v)) = [(t, v)]"
    unfolding elements_def l by (simp add: List.map_filter_def)
  have \<open>CHR '' '' \<notin> set t\<close>
    using assms by simp
  from opening_elem [OF this, of n \<open>v @ ''</'' @ t @ ''>''\<close>]
  show "line_openings (render_item (Elem n t v)) = []"
    unfolding line_openings_def l by simp
qed

lemma item_ok_read:
  assumes "item_ok x"
  shows \<open>render_item x = [] \<or> last (render_item x) = CHR ''\<newline>''\<close>
    and "text_contents t (render_item x) = contents t [x]"
    and \<open>line_openings (render_item x) =
      map (\<lambda>b. ''    <line button="'' @ printf_d b @ ''">'') (buttons [x])\<close>
proof -
  show \<open>render_item x = [] \<or> last (render_item x) = CHR ''\<newline>''\<close>
    using assms by (cases x) simp_all
  show "text_contents t (render_item x) = contents t [x]"
  proof (cases x)
    case (Elem n t' v)
    then show ?thesis
      using item_ok_elem(2) [of n t' v] assms by (auto simp add: text_contents_def)
  qed (use assms in \<open>simp_all add: text_contents_def\<close>)
  show \<open>line_openings (render_item x) =
      map (\<lambda>b. ''    <line button="'' @ printf_d b @ ''">'') (buttons [x])\<close>
  proof (cases x)
    case (Elem n t' v)
    then show ?thesis
      using item_ok_elem(3) [of n t' v] assms by simp
  next
    case (Raw s)
    then show ?thesis
      using assms by simp
  next
    case (LineOpen b)
    then show ?thesis
      using assms by (simp add: line_openings_def)
  qed
qed

lemma render_read:
  assumes "list_all item_ok items"
  shows "text_contents t (render items) = contents t items"
    and \<open>line_openings (render items) =
      map (\<lambda>b. ''    <line button="'' @ printf_d b @ ''">'') (buttons items)\<close>
  using assms
proof (induction items)
  case Nil
  {
    case 1
    show ?case by (simp add: render_def text_contents_def elements_def List.map_filter_def)
  next
    case 2
    show ?case by (simp add: render_def line_openings_def)
  }
next
  case (Cons x xs)
  {
    case 1
    then have x: "item_ok x" and xs: "list_all item_ok xs"
      by simp_all
    have "text_contents t (render (x # xs)) =
        text_contents t (render_item x) @ text_contents t (render xs)"
      unfolding render_def using read_append(2) [OF item_ok_read(1) [OF x]] by simp
    also have "\<dots> = contents t [x] @ contents t xs"
      by (simp only: item_ok_read(2) [OF x] Cons.IH(1) [OF xs])
    also have "\<dots> = contents t (x # xs)"
      by (cases x) simp_all
    finally show ?case .
  next
    case 2
    then have x: "item_ok x" and xs: "list_all item_ok xs"
      by simp_all
    have "line_openings (render (x # xs)) =
        line_openings (render_item x) @ line_openings (render xs)"
      unfolding render_def using read_append(3) [OF item_ok_read(1) [OF x]] by simp
    also have \<open>\<dots> = map (\<lambda>b. ''    <line button="'' @ printf_d b @ ''">'') (buttons [x]) @
        map (\<lambda>b. ''    <line button="'' @ printf_d b @ ''">'') (buttons xs)\<close>
      by (simp only: item_ok_read(3) [OF x] Cons.IH(2) [OF xs])
    also have \<open>\<dots> = map (\<lambda>b. ''    <line button="'' @ printf_d b @ ''">'') (buttons (x # xs))\<close>
      by (cases x) simp_all
    finally show ?case .
  }
qed

subsection \<open>The items of the document are read back as they are\<close>

lemma one_line_val:
  assumes "list_all one_line fs"
  shows \<open>CHR ''\<newline>'' \<notin> set (val fs t)\<close>
proof (cases "get_field fs t")
  case None
  then show ?thesis
    by (simp add: val_def)
next
  case (Some f)
  then have "f \<in> set fs"
    unfolding get_field_def find_Some_iff by auto
  then have "one_line f"
    using assms by (simp add: list_all_iff)
  then show ?thesis
    using Some by (simp add: val_def one_line_def)
qed

lemma one_line_fld:
  assumes "list_all one_line fs"
  shows \<open>CHR ''\<newline>'' \<notin> set (value (fld fs k))\<close>
proof (cases "0 \<le> k \<and> nat k < length fs")
  case True
  then have "one_line (fs ! nat k)"
    using assms by (simp add: list_all_length)
  then show ?thesis
    using True by (simp add: fld_def one_line_def)
next
  case False
  then show ?thesis
    by (auto simp add: fld_def zero_field_def)
qed

lemma one_line_rows:
  \<open>list_all (list_all (\<lambda>r. CHR ''\<newline>'' \<notin> set r)) (map xml_values init_fields)\<close>
  unfolding enc_init_fields by code_simp

lemma one_line_opt_val:
  assumes "same_form fs"
  shows \<open>CHR ''\<newline>'' \<notin> set (opt_val fs t)\<close>
proof (cases "get_field fs t")
  case None
  then show ?thesis
    by (simp add: opt_val_def)
next
  case (Some f)
  then have "f \<in> set fs"
    unfolding get_field_def find_Some_iff by auto
  then have "xml_values f \<in> set (map xml_values fs)"
    by simp
  moreover have "map xml_values fs = map xml_values (map frame fs)"
    by (simp add: frame_def)
  moreover have "map xml_values (map frame fs) = map xml_values (map frame init_fields)"
    using assms by (simp only: same_form_def)
  moreover have "map xml_values (map frame init_fields) = map xml_values init_fields"
    by (simp add: frame_def)
  ultimately have "xml_values f \<in> set (map xml_values init_fields)"
    by (simp only:)
  then have rows: \<open>list_all (\<lambda>r. CHR ''\<newline>'' \<notin> set r) (xml_values f)\<close>
    using one_line_rows unfolding list_all_iff by blast
  show ?thesis
  proof (cases "0 \<le> opt_sel f \<and> nat (opt_sel f) < length (xml_values f)")
    case True
    then show ?thesis
      using rows Some by (simp add: opt_val_def row_def list_all_length)
  next
    case False
    then show ?thesis
      using Some by (auto simp add: opt_val_def row_def)
  qed
qed

lemma raw_ok:
  \<open>list_all (\<lambda>s. item_ok (Raw s))
     [''<?xml version="1.0" encoding="UTF-8"?>\<newline><device>\<newline>'',
      ''      <member priority="0">\<newline>        <callManager>\<newline>'',
      ''      <member priority="1">\<newline>        <callManager>\<newline>'',
      ''      <member priority="2">\<newline>        <callManager>\<newline>'',
      ''          <ports>\<newline>'',
      ''          </ports>\<newline>'',
      ''        </callManager>\<newline>      </member>\<newline>'',
      ''  <callManagerGroup>\<newline>    <members>\<newline>'',
      ''    </members>\<newline>  </callManagerGroup>\<newline>'',
      ''  <dateTimeSetting>\<newline>'',
      ''  </dateTimeSetting>\<newline>'',
      ''  <sipStack>\<newline>'',
      ''  </sipStack>\<newline>'',
      ''  <userLocale>\<newline>'',
      ''  </userLocale>\<newline>'',
      ''  <ethernetConfig>\<newline>'',
      ''  </ethernetConfig>\<newline>'',
      ''    </line>\<newline>'',
      ''  <sipLines>\<newline>'',
      ''  </sipLines>\<newline>'',
      ''  <vendorConfig>\<newline>'',
      ''  </vendorConfig>\<newline>'',
      ''</device>\<newline>'']\<close>
  by code_simp

lemma line_open_ok: "item_ok (LineOpen 53)"
  by code_simp

lemmas raw_items = raw_ok [unfolded list.pred_inject]

lemma item_ok_opt_elem:
  "list_all item_ok (opt_elem n t v) \<longleftrightarrow> v = [] \<or> item_ok (Elem n t v)"
  by (simp add: opt_elem_def)

lemma item_ok_member:
  assumes \<open>prio \<in> {''0'', ''1'', ''2''}\<close> and \<open>CHR ''\<newline>'' \<notin> set port\<close>
    and \<open>CHR ''\<newline>'' \<notin> set node\<close>
  shows "list_all item_ok (xml_member prio port node)"
  using assms by (auto simp add: xml_member_def raw_items simp del: item_ok.simps(2))

lemma item_ok_blocks:
  assumes "same_form fs" and "list_all one_line fs"
  shows "list_all item_ok (xml_head fs)" and "list_all item_ok (xml_call_manager fs)"
    and "list_all item_ok (xml_date_time fs)" and "list_all item_ok (xml_sip_stack fs)"
    and "list_all item_ok (xml_locales fs)" and "list_all item_ok (xml_ethernet fs)"
    and "list_all item_ok (xml_vendor fs)" and "list_all item_ok (xml_tail fs)"
proof -
  note v = one_line_val [OF assms(2)] and e = one_line_opt_val [OF assms(1)]
  show "list_all item_ok (xml_head fs)"
    by (simp add: xml_head_def item_ok_opt_elem raw_items v del: item_ok.simps(2))
  show "list_all item_ok (xml_call_manager fs)"
    by (simp add: xml_call_manager_if only_if_def item_ok_member v raw_items
        del: item_ok.simps(2))
  show "list_all item_ok (xml_date_time fs)"
    by (simp add: xml_date_time_def item_ok_opt_elem raw_items v e del: item_ok.simps(2))
  show "list_all item_ok (xml_sip_stack fs)"
    by (simp add: xml_sip_stack_if only_if_def raw_items v e del: item_ok.simps(2))
  show "list_all item_ok (xml_locales fs)"
    by (simp add: xml_locales_def raw_items v e del: item_ok.simps(2))
  show "list_all item_ok (xml_ethernet fs)"
    by (simp add: xml_ethernet_def item_ok_opt_elem raw_items v del: item_ok.simps(2))
  show "list_all item_ok (xml_vendor fs)"
    by (simp add: xml_vendor_if only_if_def item_ok_opt_elem raw_items v e
        del: item_ok.simps(2))
  show "list_all item_ok (xml_tail fs)"
    by (simp add: xml_tail_def item_ok_opt_elem raw_items v del: item_ok.simps(2))
qed

lemma item_ok_line:
  assumes "same_form fs" and "list_all one_line fs" and "i < length fs"
  shows "list_all item_ok (xml_line fs i)"
proof (cases "strstr (label (fs ! i)) ''Key Function'' \<and> 0 < opt_sel (fs ! i)")
  case False
  have "xml_line fs i = []"
    unfolding xml_line_def Let_def fld_nth [OF assms(3)] by (simp only: False if_False)
  then show ?thesis
    by simp
next
  case True
  then have "is_key (fs ! i)"
    by (simp add: is_key_def)
  then have "label (fs ! i) = ''Key Function''"
    using assms(1,3) by (intro same_form_key_label)
  then have b: "int (of_char (label (fs ! i) ! 1)) - int (of_char CHR ''0'') = 53"
    by simp
  note v = one_line_val [OF assms(2)] and f = one_line_fld [OF assms(2)]
  show ?thesis
    unfolding xml_line_def Let_def fld_nth [OF assms(3)] b
    using True
    by (simp add: item_ok_opt_elem raw_items line_open_ok v f
        del: item_ok.simps(2) item_ok.simps(3))
qed

lemma item_ok_document:
  assumes "same_form fs" and "list_all one_line fs"
  shows "list_all item_ok (xml_document fs)"
proof -
  have "list_all item_ok (concat (map (xml_line fs) [0..<length fs]))"
    using item_ok_line [OF assms] by (simp add: list_all_iff)
  then have "list_all item_ok (xml_sip_lines fs)"
    by (simp add: xml_sip_lines_def raw_items del: item_ok.simps(2))
  then show ?thesis
    by (simp add: xml_document_def item_ok_blocks [OF assms])
qed

lemma document_read:
  assumes "same_form fs" and "list_all one_line fs"
  shows "text_contents t (render (xml_document fs)) = contents t (xml_document fs)"
    and \<open>line_openings (render (xml_document fs)) =
      map (\<lambda>b. ''    <line button="'' @ printf_d b @ ''">'') (buttons (xml_document fs))\<close>
  by (rule render_read [OF item_ok_document [OF assms]])+

subsection \<open>The values of a session are single lines\<close>

lemma plain_tables:
  \<open>list_all (list_all (\<lambda>r. CHR ''\<newline>'' \<notin> set r))
     [transports, pc_vlan_modes, dis_en, bt_profiles, codecs, no_yes, bitrates, dnd_alerts,
      locales, net_locales, tz_names, date_fmts, time_fmts, btn_types]\<close>
  by code_simp

lemmas plain_table = plain_tables [unfolded list.pred_inject]

lemma plain_row:
  assumes \<open>list_all (\<lambda>r. CHR ''\<newline>'' \<notin> set r) tab\<close>
  shows \<open>CHR ''\<newline>'' \<notin> set (row tab k)\<close>
  using assms by (simp add: row_def list_all_length)

lemma plain_copy_rows:
  assumes \<open>list_all (\<lambda>r. CHR ''\<newline>'' \<notin> set r) tab\<close>
  shows \<open>list_all (\<lambda>r. CHR ''\<newline>'' \<notin> set r) (copy_rows tab n)\<close>
proof -
  have \<open>CHR ''\<newline>'' \<notin> set (strncpy (row tab k) 63)\<close> for k
    using plain_row [OF assms, of k] unfolding strncpy_def by (meson in_set_takeD)
  then show ?thesis
    by (simp add: copy_rows_def list_all_iff)
qed

lemma plain_add_field: "list_all plain (add_field l x t h hide fs) = list_all plain fs"
  by (simp add: add_field_def plain_def zero_field_def)

lemma plain_add_dropdown:
  assumes \<open>list_all (\<lambda>r. CHR ''\<newline>'' \<notin> set r) os\<close>
  shows "list_all plain (add_dropdown l x h os vs n d hide fs) = list_all plain fs"
  using plain_row [OF assms] plain_copy_rows [OF assms]
  by (simp add: add_dropdown_def add_field_def plain_def Let_def)

lemma plain_sections:
  "list_all plain (run init_section1 fs) = list_all plain fs"
  "list_all plain (run init_section2 fs) = list_all plain fs"
  "list_all plain (run init_section3 fs) = list_all plain fs"
  "list_all plain (run init_section4 fs) = list_all plain fs"
  "list_all plain (run init_section5 fs) = list_all plain fs"
  "list_all plain (run init_section6 fs) = list_all plain fs"
  "list_all plain (run init_section7 fs) = list_all plain fs"
  "list_all plain (run init_section8 fs) = list_all plain fs"
  "list_all plain (run init_section9 fs) = list_all plain fs"
  "list_all plain (run (init_button i) fs) = list_all plain fs"
  by (simp_all add: init_section1_def init_section2_def init_section3_def init_section4_def
      init_section5_def init_section6_def init_section7_def init_section8_def
      init_section9_def init_button_def run_def plain_add_field plain_add_dropdown plain_table)

lemma plain_unhide: "plain (unhide f) = plain f"
  by (simp add: plain_def unhide_def)

lemma plain_update_visibility: "list_all plain (update_visibility fs) = list_all plain fs"
proof -
  have "list_all plain (map unhide (update_visibility fs)) = list_all plain (map unhide fs)"
    by (simp only: unhide_update_visibility)
  then show ?thesis
    by (simp add: list.pred_map comp_def plain_unhide)
qed

lemma plain_init_fields: "list_all plain init_fields"
  by (simp add: init_fields_def plain_update_visibility run_append plain_sections)

lemma plain_list_update:
  assumes "list_all plain fs" and "plain f"
  shows "list_all plain (fs[c := f])"
  using assms set_update_subset_insert [of fs c f] unfolding list_all_iff by blast

lemma plain_pick:
  assumes "list_all plain fs" and "c < length fs"
  shows "list_all plain (pick c keys fs)"
proof (cases "show_popup True keys c fs")
  case None
  with assms(1) show ?thesis
    by (simp add: pick_def)
next
  case (Some r)
  obtain rc fs' where r: "show_popup True keys c fs = Some (rc, fs')"
    using Some by (cases r) simp
  have c: "plain (fs ! c)"
    using assms by (simp add: list_all_length)
  then have "plain ((fs ! c)\<lparr>opt_sel := sel, value := row (options (fs ! c)) sel\<rparr>)" for sel
    by (simp add: plain_def plain_row)
  then have "list_all plain
      (update_visibility (fs[c := (fs ! c)\<lparr>opt_sel := sel, value := row (options (fs ! c)) sel\<rparr>]))"
    for sel
    using assms(1) by (simp add: plain_update_visibility plain_list_update)
  then have "list_all plain fs'"
    using show_popup_cases [OF r] assms(1) by auto
  then show ?thesis
    using r by (simp add: pick_def)
qed

lemma plain_enter_text:
  assumes "same_form fs" and "list_all plain fs" and "c < 105"
    and \<open>CHR ''\<newline>'' \<notin> set v\<close>
  shows "list_all plain (enter_text c v fs)"
proof -
  have c: "plain (fs ! c)"
    using assms(2,3) same_form_length [OF assms(1)] by (simp add: list_all_length)
  have cut: \<open>CHR ''\<newline>'' \<notin> set (take 127 v)\<close>
    using assms(4) by (meson in_set_takeD)
  have "set (map toupper (filter isxdigit (take 127 v))) \<subseteq> set HEX"
  proof
    fix x
    assume "x \<in> set (map toupper (filter isxdigit (take 127 v)))"
    then obtain d where "isxdigit d" and "x = toupper d"
      by auto
    then show "x \<in> set HEX"
      by (simp add: toupper_hex)
  qed
  moreover have \<open>CHR ''\<newline>'' \<notin> set HEX\<close>
    by (simp add: HEX_def)
  ultimately have \<open>CHR ''\<newline>'' \<notin> set (map toupper (filter isxdigit (take 127 v)))\<close>
    by (rule contra_subsetD)
  then have \<open>CHR ''\<newline>'' \<notin> set (take 12 (map toupper (filter isxdigit (take 127 v))))\<close>
    by (meson in_set_takeD)
  with cut have "plain ((fs ! c)\<lparr>value :=
      if c = 1 then take 12 (map toupper (filter isxdigit (take 127 v))) else take 127 v\<rparr>)"
    using c by (simp add: plain_def)
  then show ?thesis
    unfolding enter_text_eq [OF assms(1,3)] using assms(2) by (rule plain_list_update [rotated])
qed

lemma plain_one_line: "list_all plain fs \<Longrightarrow> list_all one_line fs"
  by (simp add: list_all_iff plain_def one_line_def)

subsection \<open>Which elements are written, and with what content\<close>





lemma xml_line_none:
  assumes "i < length fs" and "\<not> (is_key (fs ! i) \<and> 0 < opt_sel (fs ! i))"
  shows "xml_line fs i = []"
proof -
  have no: "\<not> (strstr (label (fs ! i)) ''Key Function'' \<and> 0 < opt_sel (fs ! i))"
    using assms(2) by (simp add: is_key_def)
  show ?thesis
    unfolding xml_line_def Let_def fld_nth [OF assms(1)] by (simp only: no if_False)
qed


lemma concat_map_if: "concat (map (\<lambda>i. if P i then [g i] else []) xs) = map g (filter P xs)"
  by (induction xs) simp_all




subsection \<open>The buttons of a registry, and two more sessions\<close>

lemma key_indices: "[i \<leftarrow> [0..<105]. i \<in> set [66, 76, 86, 96]] = [66, 76, 86, 96]"
  by code_simp

lemma same_form_buttons:
  assumes "same_form fs"
  shows "buttons_on fs = [i \<leftarrow> [66, 76, 86, 96]. 0 < opt_sel (fs ! i)]"
    and "buttons_line fs = [i \<leftarrow> [66, 76, 86, 96]. opt_sel (fs ! i) = 1]"
proof -
  have key: "is_key (fs ! i) \<longleftrightarrow> i \<in> set [66, 76, 86, 96]" if "i \<in> set [0..<105]" for i
    using same_form_is_key [OF assms, of i] that by simp
  have "buttons_on fs =
      [i \<leftarrow> [0..<105]. i \<in> set [66, 76, 86, 96] \<and> 0 < opt_sel (fs ! i)]"
    unfolding buttons_on_def same_form_length [OF assms]
    by (rule filter_cong [OF refl]) (simp only: key)
  also have "\<dots> = [i \<leftarrow> [i \<leftarrow> [0..<105]. i \<in> set [66, 76, 86, 96]]. 0 < opt_sel (fs ! i)]"
    by (simp only: filter_filter)
  finally show "buttons_on fs = [i \<leftarrow> [66, 76, 86, 96]. 0 < opt_sel (fs ! i)]"
    by (simp only: key_indices)
  have "buttons_line fs =
      [i \<leftarrow> [0..<105]. i \<in> set [66, 76, 86, 96] \<and> opt_sel (fs ! i) = 1]"
    unfolding buttons_line_def same_form_length [OF assms]
    by (rule filter_cong [OF refl]) (simp only: key)
  also have "\<dots> = [i \<leftarrow> [i \<leftarrow> [0..<105]. i \<in> set [66, 76, 86, 96]]. opt_sel (fs ! i) = 1]"
    by (simp only: filter_filter)
  finally show "buttons_line fs = [i \<leftarrow> [66, 76, 86, 96]. opt_sel (fs ! i) = 1]"
    by (simp only: key_indices)
qed




lemma plain_sessions:
  shows "list_all plain mac_entered" and "list_all plain nat_enabled"
proof -
  show "list_all plain mac_entered"
    unfolding mac_entered_def
    by (rule plain_enter_text [OF same_form_init_fields plain_init_fields]) simp_all
  then show "list_all plain nat_enabled"
    unfolding nat_enabled_def
    by (rule plain_pick) (simp add: same_form_length [OF same_form_mac_entered])
qed



subsection \<open>The optional elements of the file\<close>






subsection \<open>The \<^verbatim>\<open>line\<close> openings of the file\<close>

lemma render_append: "render (a @ b) = render a @ render b"
  by (simp add: render_def)

lemma line_block_in_document:
  assumes "i < length fs"
  shows "\<exists>a b. xml_document fs = a @ xml_line fs i @ b"
proof -
  have "[0..<i + (length fs - i)] = [0..<i] @ [i..<i + (length fs - i)]"
    by (rule upt_add_eq_append) simp
  then have "[0..<length fs] = [0..<i] @ [i..<length fs]"
    using assms by simp
  then have "[0..<length fs] = [0..<i] @ i # [Suc i..<length fs]"
    using assms by (simp only: upt_conv_Cons)
  then have "concat (map (xml_line fs) [0..<length fs]) =
      concat (map (xml_line fs) [0..<i]) @ xml_line fs i @
      concat (map (xml_line fs) [Suc i..<length fs])"
    by (metis concat.simps(2) concat_append list.simps(9) map_append)
  then have "xml_document fs =
      (xml_head fs @ xml_call_manager fs @ xml_date_time fs @ xml_sip_stack fs @
       xml_locales fs @ xml_ethernet fs @ [Raw ''  <sipLines>\<newline>''] @
       concat (map (xml_line fs) [0..<i])) @
      xml_line fs i @
      (concat (map (xml_line fs) [Suc i..<length fs]) @ [Raw ''  </sipLines>\<newline>''] @
       xml_vendor fs @ xml_tail fs)"
    by (simp add: xml_document_def xml_sip_lines_def)
  then show ?thesis
    by blast
qed

lemma buttons_append [simp]: "buttons (a @ b) = buttons a @ buttons b"
proof (induction a)
  case Nil
  show ?case by simp
next
  case (Cons x a)
  then show ?case by (cases x) simp_all
qed

lemma buttons_concat: "buttons (concat (map f xs)) = concat (map (\<lambda>x. buttons (f x)) xs)"
  by (induction xs) simp_all

lemma buttons_opt_elem: "buttons (opt_elem n t v) = []"
  by (simp add: opt_elem_def)

lemma buttons_only_if: "buttons (only_if c xs) = only_if c (buttons xs)"
  by (simp add: only_if_def)

lemma buttons_blocks:
  "buttons (xml_head fs) = []" "buttons (xml_call_manager fs) = []"
  "buttons (xml_date_time fs) = []" "buttons (xml_sip_stack fs) = []"
  "buttons (xml_locales fs) = []" "buttons (xml_ethernet fs) = []"
  "buttons (xml_vendor fs) = []" "buttons (xml_tail fs) = []"
  by (simp_all add: xml_head_def xml_call_manager_if xml_date_time_def xml_sip_stack_if
      xml_locales_def xml_ethernet_def xml_vendor_if xml_tail_def xml_member_def
      buttons_opt_elem buttons_only_if)

lemma buttons_line_block:
  assumes "same_form fs" and "i < length fs"
  shows "buttons (xml_line fs i) = (if is_key (fs ! i) \<and> 0 < opt_sel (fs ! i) then [53] else [])"
proof (cases "is_key (fs ! i) \<and> 0 < opt_sel (fs ! i)")
  case False
  then show ?thesis
    using xml_line_none [OF assms(2)] by simp
next
  case True
  then have "label (fs ! i) = ''Key Function''"
    using assms by (intro same_form_key_label) simp_all
  then have b: "int (of_char (label (fs ! i) ! 1)) - int (of_char CHR ''0'') = 53"
    by simp
  have key: "strstr (label (fs ! i)) ''Key Function''"
    using True by (simp add: is_key_def)
  show ?thesis
    unfolding xml_line_def Let_def fld_nth [OF assms(2)] b
    using True key by (simp add: buttons_opt_elem)
qed

lemma buttons_document:
  assumes "same_form fs"
  shows "buttons (xml_document fs) = map (\<lambda>i. 53) (buttons_on fs)"
proof -
  have "buttons (xml_sip_lines fs) =
      concat (map (\<lambda>i. buttons (xml_line fs i)) [0..<length fs])"
    by (simp add: xml_sip_lines_def buttons_concat)
  also have "\<dots> = concat (map (\<lambda>i. if is_key (fs ! i) \<and> 0 < opt_sel (fs ! i) then [53] else [])
      [0..<length fs])"
    by (rule arg_cong [where f = concat], rule map_cong [OF refl])
      (simp add: buttons_line_block [OF assms])
  finally have "buttons (xml_sip_lines fs) = map (\<lambda>i. 53) (buttons_on fs)"
    by (simp only: concat_map_if buttons_on_def)
  then show ?thesis
    by (simp add: xml_document_def buttons_blocks)
qed

lemma printf_d_53: "printf_d 53 = ''53''"
  by code_simp

text \<open>
  C10. When the MAC check passes, \<^verbatim>\<open>save_xml\<close> writes the rendered document, and in a
  registry of the program's form every button whose selection is not Disabled (greater
  than 0) contributes a block that opens with \<^verbatim>\<open><line button="53">\<close>: the attribute is
  the second character of the label \<^verbatim>\<open>Key Function\<close> minus the character \<^verbatim>\<open>0\<close>, the same
  53 for every button, and no \<^verbatim>\<open>line\<close> tag of the document carries another number. The
  text of the file has the line \<^verbatim>\<open><line button="53">\<close> followed by the rest of the
  button's block; and when the values are single lines, the lines of the file that open a
  \<^verbatim>\<open>line\<close> element are that same line, once for each button that is not Disabled.
\<close>

theorem line_button_attribute:
  assumes "same_form fs" and "length (val fs ''device'') = 12"
    and "i < length fs" and "is_key (fs ! i)" and "0 < opt_sel (fs ! i)"
  shows \<open>files (save_xml True \<lparr>registry = fs, files = F, message = m\<rparr>)
        (''SEP'' @ val fs ''device'' @ ''.cnf.xml'') = Some (render (xml_document fs)) \<and>
    (\<exists>rest. xml_line fs i = LineOpen 53 # rest) \<and>
    set (xml_line fs i) \<subseteq> set (xml_document fs) \<and>
    (\<forall>b. LineOpen b \<in> set (xml_document fs) \<longrightarrow> b = 53) \<and>
    render_item (LineOpen 53) = ''    <line button="53">\<newline>'' \<and>
    (\<exists>pre post. render (xml_document fs) =
       pre @ ''    <line button="53">\<newline>'' @ render (tl (xml_line fs i)) @ post) \<and>
    (list_all one_line fs \<longrightarrow>
       line_openings (render (xml_document fs)) =
         map (\<lambda>j. ''    <line button="53">'') (buttons_on fs))\<close>
proof (intro conjI allI impI)
  show "files (save_xml True \<lparr>registry = fs, files = F, message = m\<rparr>)
        (''SEP'' @ val fs ''device'' @ ''.cnf.xml'') = Some (render (xml_document fs))"
    by (simp add: saved_file [OF assms(2)])
next
  have "label (fs ! i) = ''Key Function''"
    using assms(1,3,4) by (rule same_form_key_label)
  then have "int (of_char (label (fs ! i) ! 1)) - int (of_char CHR ''0'') = 53"
    by simp
  then show line: "\<exists>rest. xml_line fs i = LineOpen 53 # rest"
    using assms(3,4,5) by (simp add: xml_line_def Let_def fld_nth is_key_def)
  have tag: \<open>render_item (LineOpen 53) = ''    <line button="53">\<newline>''\<close>
    by code_simp
  obtain a b where doc: "xml_document fs = a @ xml_line fs i @ b"
    using line_block_in_document [OF assms(3)] by blast
  obtain rest where rest: "xml_line fs i = LineOpen 53 # rest"
    using line by blast
  have "render (xml_line fs i) = render_item (LineOpen 53) @ render (tl (xml_line fs i))"
    unfolding rest by (simp add: render_def)
  then have \<open>render (xml_document fs) =
      render a @ ''    <line button="53">\<newline>'' @ render (tl (xml_line fs i)) @ render b\<close>
    unfolding doc render_append tag by simp
  then show \<open>\<exists>pre post. render (xml_document fs) =
       pre @ ''    <line button="53">\<newline>'' @ render (tl (xml_line fs i)) @ post\<close>
    by blast
next
  show "set (xml_line fs i) \<subseteq> set (xml_document fs)"
    using assms(3) by (rule xml_line_in_document)
next
  fix b
  assume "LineOpen b \<in> set (xml_document fs)"
  then have "LineOpen b \<in> set (xml_sip_lines fs)"
    by (simp add: xml_document_def line_open_blocks)
  then obtain j where j: "j < length fs" and in_line: "LineOpen b \<in> set (xml_line fs j)"
    by (auto simp add: xml_sip_lines_def)
  from line_open_line [OF in_line] j
  have key: "is_key (fs ! j)"
    and b: "b = int (of_char (label (fs ! j) ! 1)) - int (of_char CHR ''0'')"
    by (simp_all add: fld_nth)
  have "label (fs ! j) = ''Key Function''"
    using assms(1) j key by (rule same_form_key_label)
  then show "b = 53"
    using b by simp
next
  show \<open>render_item (LineOpen 53) = ''    <line button="53">\<newline>''\<close>
    by code_simp
next
  assume one: "list_all one_line fs"
  show \<open>line_openings (render (xml_document fs)) =
      map (\<lambda>j. ''    <line button="53">'') (buttons_on fs)\<close>
    unfolding document_read(2) [OF assms(1) one] buttons_document [OF assms(1)]
    by (simp add: printf_d_53)
qed

lemma mac_entered_buttons: "buttons_on mac_entered = [66]"
proof -
  have "map (\<lambda>j. fst (snd (snd (snd (form_table ! j))))) [66, 76, 86, 96] = [1, 0, 0, 0]"
    by code_simp
  then show ?thesis
    by (simp add: same_form_buttons [OF same_form_mac_entered] nth_mac_entered)
qed

theorem line_button_attribute_witness:
  \<open>same_form mac_entered \<and> length (val mac_entered ''device'') = 12 \<and>
   66 < length mac_entered \<and> is_key (mac_entered ! 66) \<and> 0 < opt_sel (mac_entered ! 66) \<and>
   files (save_xml True \<lparr>registry = mac_entered, files = Map.empty, message = []\<rparr>)
     ''SEP0007A1B2C3D4.cnf.xml'' = Some (render (xml_document mac_entered)) \<and>
   (\<exists>rest. xml_line mac_entered 66 = LineOpen 53 # rest) \<and>
   LineOpen 53 \<in> set (xml_document mac_entered) \<and>
   (\<exists>pre post. render (xml_document mac_entered) =
      pre @ ''    <line button="53">\<newline>'' @ render (tl (xml_line mac_entered 66)) @ post) \<and>
   list_all one_line mac_entered \<and>
   line_openings (render (xml_document mac_entered)) = [''    <line button="53">'']\<close>
proof -
  have form: "same_form mac_entered"
    by (rule same_form_mac_entered)
  have mac: "length (val mac_entered ''device'') = 12"
    by (simp add: val_mac_entered)
  have len: "66 < length mac_entered"
    using same_form_length [OF form] by simp
  have key: "is_key (mac_entered ! 66)"
    using same_form_is_key [OF form, of 66] by simp
  have sel: "0 < opt_sel (mac_entered ! 66)"
    by (simp add: nth_mac_entered form_table_def)
  have one: "list_all one_line mac_entered"
    using plain_sessions(1) by (rule plain_one_line)
  have name: "''SEP'' @ val mac_entered ''device'' @ ''.cnf.xml'' = ''SEP0007A1B2C3D4.cnf.xml''"
    by (simp add: val_mac_entered)
  from line_button_attribute [OF form mac len key sel, of Map.empty "[]"]
  have saved: "files (save_xml True \<lparr>registry = mac_entered, files = Map.empty, message = []\<rparr>)
      ''SEP0007A1B2C3D4.cnf.xml'' = Some (render (xml_document mac_entered))"
    and line: "\<exists>rest. xml_line mac_entered 66 = LineOpen 53 # rest"
    and part: "set (xml_line mac_entered 66) \<subseteq> set (xml_document mac_entered)"
    and bytes: \<open>\<exists>pre post. render (xml_document mac_entered) =
      pre @ ''    <line button="53">\<newline>'' @ render (tl (xml_line mac_entered 66)) @ post\<close>
    and openings: \<open>list_all one_line mac_entered \<longrightarrow>
      line_openings (render (xml_document mac_entered)) =
        map (\<lambda>j. ''    <line button="53">'') (buttons_on mac_entered)\<close>
    unfolding name by blast+
  from line part have item: "LineOpen 53 \<in> set (xml_document mac_entered)"
    by auto
  from openings one
  have \<open>line_openings (render (xml_document mac_entered)) = [''    <line button="53">'']\<close>
    by (simp add: mac_entered_buttons)
  with form mac len key sel saved line item bytes one show ?thesis
    by (intro conjI)
qed

end
